(* ===== verification/Prelude.thy ===== *)
theory Prelude
  imports Main "HOL-Library.Word"
begin

unbundle bit_operations_syntax

text \<open>
  Shared vocabulary of the development: machine integers, the question mark operator of Rust
  on \<open>error + value\<close>, big-endian encodings, searching in lists, and the lemmas on them that the
  component theories use.  Nothing here models a component of the program.
\<close>

section \<open>Machine integers\<close>

named_theorems wire_simps \<open>evaluation of wire encodings\<close>

type_synonym u8 = "8 word"
type_synonym u16 = "16 word"
type_synonym u32 = "32 word"

section \<open>Results and the question mark operator\<close>

text \<open>
  A fallible Rust function returns \<open>Result<T, E>\<close>; here it is \<open>'e + 'a\<close> with \<open>Inl\<close> the error.
  \<open>rbind\<close> is the early return of the question mark operator.
\<close>

definition rbind :: "'e + 'a \<Rightarrow> ('a \<Rightarrow> 'e + 'b) \<Rightarrow> 'e + 'b" where
  "rbind r f = (case r of Inl e \<Rightarrow> Inl e | Inr a \<Rightarrow> f a)"

definition map_err :: "('e \<Rightarrow> 'd) \<Rightarrow> 'e + 'a \<Rightarrow> 'd + 'a" where
  "map_err g r = (case r of Inl e \<Rightarrow> Inl (g e) | Inr a \<Rightarrow> Inr a)"

definition is_ok :: "'e + 'a \<Rightarrow> bool" where
  "is_ok r = (case r of Inl _ \<Rightarrow> False | Inr _ \<Rightarrow> True)"

definition res_ok :: "'e + 'a \<Rightarrow> 'a option" where
  "res_ok r = (case r of Inl _ \<Rightarrow> None | Inr a \<Rightarrow> Some a)"

definition ok_or :: "'e \<Rightarrow> 'a option \<Rightarrow> 'e + 'a" where
  "ok_or e r = (case r of None \<Rightarrow> Inl e | Some a \<Rightarrow> Inr a)"

definition unwrap_or :: "'a \<Rightarrow> 'a option \<Rightarrow> 'a" where
  "unwrap_or d r = (case r of None \<Rightarrow> d | Some a \<Rightarrow> a)"

lemma rbind_simps [simp]:
  "rbind (Inl e) f = Inl e"
  "rbind (Inr a) f = f a"
  by (simp_all add: rbind_def)

lemma map_err_simps [simp]:
  "map_err g (Inl e) = Inl (g e)"
  "map_err g (Inr a) = Inr a"
  by (simp_all add: map_err_def)

lemma is_ok_simps [simp]: "\<not> is_ok (Inl e)" "is_ok (Inr a)"
  by (simp_all add: is_ok_def)

lemma res_ok_simps [simp]: "res_ok (Inl e) = None" "res_ok (Inr a) = Some a"
  by (simp_all add: res_ok_def)

lemma ok_or_simps [simp]: "ok_or e None = Inl e" "ok_or e (Some a) = Inr a"
  by (simp_all add: ok_or_def)

lemma unwrap_or_simps [simp]: "unwrap_or d None = d" "unwrap_or d (Some a) = a"
  by (simp_all add: unwrap_or_def)

lemma rbind_eq_Inr: "rbind r f = Inr b \<longleftrightarrow> (\<exists>a. r = Inr a \<and> f a = Inr b)"
  by (cases r) auto

lemma rbind_eq_Inl: "rbind r f = Inl e \<longleftrightarrow> r = Inl e \<or> (\<exists>a. r = Inr a \<and> f a = Inl e)"
  by (cases r) auto

lemma ok_or_eq_Inr [simp]: "ok_or e r = Inr a \<longleftrightarrow> r = Some a"
  by (cases r) auto

lemma is_ok_iff: "is_ok r \<longleftrightarrow> (\<exists>a. r = Inr a)"
  by (cases r) auto

section \<open>Big-endian bytes\<close>

text \<open>The standard library's \<open>to_be_bytes\<close> and \<open>from_be_bytes\<close> on \<open>u16\<close> and \<open>u32\<close>.\<close>

definition be16 :: "u16 \<Rightarrow> u8 list" where
  "be16 w = [ucast (drop_bit 8 w), ucast w]"

definition from_be16 :: "u8 \<Rightarrow> u8 \<Rightarrow> u16" where
  "from_be16 a b = push_bit 8 (ucast a) OR ucast b"

definition be32 :: "u32 \<Rightarrow> u8 list" where
  "be32 w = [ucast (drop_bit 24 w), ucast (drop_bit 16 w), ucast (drop_bit 8 w), ucast w]"

definition from_be32 :: "u8 \<Rightarrow> u8 \<Rightarrow> u8 \<Rightarrow> u8 \<Rightarrow> u32" where
  "from_be32 a b c d =
     push_bit 24 (ucast a) OR push_bit 16 (ucast b) OR push_bit 8 (ucast c) OR ucast d"

lemma from_be16_bytes [simp]: "from_be16 (ucast (drop_bit 8 w)) (ucast w) = w"
  by (rule bit_word_eqI) (auto simp: from_be16_def bit_simps)

lemma be16_from_be16: "be16 (from_be16 a b) = [a, b]"
  unfolding be16_def
  by (simp; intro conjI; rule bit_word_eqI)
    (auto simp: from_be16_def bit_simps dest: bit_imp_le_length)

lemma from_be32_bytes [simp]:
  "from_be32 (ucast (drop_bit 24 w)) (ucast (drop_bit 16 w)) (ucast (drop_bit 8 w)) (ucast w) = w"
    (is "?x = w")
proof (rule bit_word_eqI)
  fix n assume "n < LENGTH(32)"
  then consider "n < 8" | "8 \<le> n" "n < 16" | "16 \<le> n" "n < 24" | "24 \<le> n" "n < 32"
    by fastforce
  then show "bit ?x n = bit w n"
    by cases (auto simp: from_be32_def bit_simps)
qed

lemma length_be16 [simp]: "length (be16 w) = 2"
  by (simp add: be16_def)

lemma length_be32 [simp]: "length (be32 w) = 4"
  by (simp add: be32_def)

lemma from_be32_be32_nth [simp]:
  "from_be32 (be32 w ! 0) (be32 w ! Suc 0) (be32 w ! 2) (be32 w ! 3) = w"
  by (simp add: be32_def)

lemma from_be16_be16_nth [simp]: "from_be16 (be16 w ! 0) (be16 w ! Suc 0) = w"
  by (simp add: be16_def)

lemma unat_of_nat_small:
  "n < 2 ^ LENGTH('a) \<Longrightarrow> unat (word_of_nat n :: 'a::len word) = n"
  by (simp add: unat_of_nat take_bit_nat_eq_self)

lemma unat_u16_le [simp]: "unat (w :: u16) \<le> 65535"
  using unsigned_less [of w, where ?'a = nat] by simp

section \<open>Searching in lists\<close>

text \<open>The index of the first element that satisfies a test: \<open>Iterator::position\<close>.\<close>

fun position :: "('a \<Rightarrow> bool) \<Rightarrow> 'a list \<Rightarrow> nat option" where
  "position p [] = None"
| "position p (x # xs) = (if p x then Some 0 else map_option Suc (position p xs))"

lemma position_None: "position p xs = None \<longleftrightarrow> (\<forall>x \<in> set xs. \<not> p x)"
  by (induction xs) auto

lemma position_Some:
  "position p xs = Some i \<longleftrightarrow> i < length xs \<and> p (xs ! i) \<and> (\<forall>j < i. \<not> p (xs ! j))"
proof (induction xs arbitrary: i)
  case Nil
  then show ?case by simp
next
  case (Cons x xs)
  show ?case
  proof (cases i)
    case 0
    then show ?thesis by auto
  next
    case (Suc k)
    have "(\<forall>j < Suc k. \<not> p ((x # xs) ! j)) \<longleftrightarrow> \<not> p x \<and> (\<forall>j < k. \<not> p (xs ! j))"
      by (auto simp: less_Suc_eq_0_disj)
    with Suc Cons.IH [of k] show ?thesis by auto
  qed
qed

text \<open>Removing an element by index: \<open>Vec::remove\<close>.\<close>

definition remove_at :: "nat \<Rightarrow> 'a list \<Rightarrow> 'a list" where
  "remove_at i xs = take i xs @ drop (Suc i) xs"

lemma set_remove_at: "set (remove_at i xs) \<subseteq> set xs"
  unfolding remove_at_def using set_take_subset set_drop_subset by fastforce

lemma map_remove_at: "map f (remove_at i xs) = remove_at i (map f xs)"
  by (simp add: remove_at_def take_map drop_map)

lemma distinct_remove_at: "distinct xs \<Longrightarrow> distinct (remove_at i xs)"
  by (simp add: remove_at_def set_take_disj_set_drop_if_distinct)

lemma set_remove_at_distinct:
  assumes "distinct xs" and "i < length xs"
  shows "set (remove_at i xs) = set xs - {xs ! i}"
proof -
  have split: "xs = take i xs @ xs ! i # drop (Suc i) xs"
    using assms(2) by (rule id_take_nth_drop)
  have "xs ! i \<notin> set (take i xs) \<union> set (drop (Suc i) xs)"
    using assms(1) by (subst (asm) split) auto
  moreover have "set xs = insert (xs ! i) (set (take i xs) \<union> set (drop (Suc i) xs))"
    by (subst split) auto
  ultimately show ?thesis by (auto simp: remove_at_def)
qed

text \<open>A map whose domain is enumerated by a list: one iteration order of a \<open>HashMap\<close>.\<close>

definition iterates :: "'k list \<Rightarrow> ('k \<rightharpoonup> 'v) \<Rightarrow> bool" where
  "iterates ks m \<longleftrightarrow> distinct ks \<and> set ks = dom m"

lemma find_iterates_None:
  "iterates ks m \<Longrightarrow> find (\<lambda>k. m k = Some v) ks = None \<longleftrightarrow> v \<notin> ran m"
  unfolding iterates_def find_None_iff ran_def dom_def by fastforce

lemma find_iterates_Some:
  "iterates ks m \<Longrightarrow> find (\<lambda>k. m k = Some v) ks = Some k \<Longrightarrow> m k = Some v"
  by (auto simp: find_Some_iff)

end
