(* ===== verification/Rust_Text.thy ===== *)
theory Rust_Text
  imports Prelude
begin

text \<open>
  Rust strings.  A \<open>String\<close> or \<open>&str\<close> is its sequence of UTF-8 bytes, and a HOL \<open>char\<close> is one
  byte, so a Rust string is a HOL \<open>string\<close> whose bytes are valid UTF-8 (\<open>valid_str\<close>).  The theory
  models the standard-library operations the source calls: \<open>into_bytes\<close>, \<open>from_utf8_lossy\<close>,
  \<open>chars\<close>, \<open>find\<close>, \<open>split_once\<close>, \<open>split\<close>, \<open>join\<close>, \<open>contains\<close>, \<open>trim\<close>, ASCII case folding, and
  the decimal \<open>Display\<close> and \<open>FromStr\<close> of integers, with the round trips between them.
\<close>

section \<open>Bytes and characters\<close>

definition byte :: "char \<Rightarrow> u8" where
  "byte c = word_of_nat (of_char c)"

definition chr :: "u8 \<Rightarrow> char" where
  "chr b = char_of (unat b)"

lemma of_char_less: "(of_char c :: nat) < 256"
  by simp

lemma unat_byte: "unat (byte c) = of_char c"
  by (simp add: byte_def unat_of_nat_small of_char_less)

lemma chr_byte [simp]: "chr (byte c) = c"
  by (simp add: chr_def unat_byte)

lemma byte_chr [simp]: "byte (chr b) = b"
proof -
  have "unat b < 256" using unsigned_less [of b, where 'a = nat] by simp
  then show ?thesis by (simp add: chr_def byte_def)
qed

lemma byte_inject [simp]: "byte c = byte d \<longleftrightarrow> c = d"
  by (metis chr_byte)

definition into_bytes :: "string \<Rightarrow> u8 list" where
  "into_bytes s = map byte s"

definition of_bytes :: "u8 list \<Rightarrow> string" where
  "of_bytes bs = map chr bs"

lemma of_bytes_into_bytes [simp]: "of_bytes (into_bytes s) = s"
  by (simp add: of_bytes_def into_bytes_def comp_def)

lemma into_bytes_of_bytes [simp]: "into_bytes (of_bytes bs) = bs"
  by (simp add: of_bytes_def into_bytes_def comp_def)

lemma length_into_bytes [simp]: "length (into_bytes s) = length s"
  by (simp add: into_bytes_def)

lemma into_bytes_append [simp]: "into_bytes (s @ t) = into_bytes s @ into_bytes t"
  by (simp add: into_bytes_def)

definition ascii_char :: "char \<Rightarrow> bool" where
  "ascii_char c \<longleftrightarrow> byte c < 128"

lemma byte_Char:
  "byte (Char b0 b1 b2 b3 b4 b5 b6 b7) =
     of_bool b0 + 2 * of_bool b1 + 4 * of_bool b2 + 8 * of_bool b3
     + 16 * of_bool b4 + 32 * of_bool b5 + 64 * of_bool b6 + 128 * of_bool b7"
  by (simp add: byte_def)

lemma ascii_char_Char [simp]: "ascii_char (Char b0 b1 b2 b3 b4 b5 b6 b7) \<longleftrightarrow> \<not> b7"
  by (cases b0; cases b1; cases b2; cases b3; cases b4; cases b5; cases b6; cases b7;
      simp add: ascii_char_def byte_Char)

definition ascii_str :: "string \<Rightarrow> bool" where
  "ascii_str s \<longleftrightarrow> list_all ascii_char s"

lemma ascii_str_simps [simp]:
  "ascii_str []"
  "ascii_str (c # s) \<longleftrightarrow> ascii_char c \<and> ascii_str s"
  "ascii_str (s @ t) \<longleftrightarrow> ascii_str s \<and> ascii_str t"
  by (simp_all add: ascii_str_def)

section \<open>UTF-8 validity and lossy decoding\<close>

text \<open>
  \<open>utf8_next\<close> reads one chunk the way \<open>core::str::lossy\<close> does: the number of bytes of the first
  character with \<open>True\<close>, or the number of bytes of the maximal ill-formed prefix with \<open>False\<close>.
  A byte past the end of the buffer reads as 0, as \<open>safe_get\<close> does.
\<close>

definition is_cont :: "u8 \<Rightarrow> bool" where
  "is_cont b \<longleftrightarrow> b AND 192 = 128"

definition get0 :: "u8 list \<Rightarrow> nat \<Rightarrow> u8" where
  "get0 bs i = (if i < length bs then bs ! i else 0)"

definition utf8_width :: "u8 \<Rightarrow> nat" where
  "utf8_width b =
     (if b < 0x80 then 1
      else if 0xC2 \<le> b \<and> b \<le> 0xDF then 2
      else if 0xE0 \<le> b \<and> b \<le> 0xEF then 3
      else if 0xF0 \<le> b \<and> b \<le> 0xF4 then 4
      else 0)"

definition second_ok :: "u8 \<Rightarrow> u8 \<Rightarrow> bool" where
  "second_ok b c \<longleftrightarrow>
     (b = 0xE0 \<and> 0xA0 \<le> c \<and> c \<le> 0xBF)
   \<or> (0xE1 \<le> b \<and> b \<le> 0xEC \<and> 0x80 \<le> c \<and> c \<le> 0xBF)
   \<or> (b = 0xED \<and> 0x80 \<le> c \<and> c \<le> 0x9F)
   \<or> (0xEE \<le> b \<and> b \<le> 0xEF \<and> 0x80 \<le> c \<and> c \<le> 0xBF)
   \<or> (b = 0xF0 \<and> 0x90 \<le> c \<and> c \<le> 0xBF)
   \<or> (0xF1 \<le> b \<and> b \<le> 0xF3 \<and> 0x80 \<le> c \<and> c \<le> 0xBF)
   \<or> (b = 0xF4 \<and> 0x80 \<le> c \<and> c \<le> 0x8F)"

definition utf8_next :: "u8 \<Rightarrow> u8 list \<Rightarrow> nat \<times> bool" where
  "utf8_next b bs =
     (if utf8_width b = 1 then (1, True)
      else if utf8_width b = 2 then (if is_cont (get0 bs 0) then (2, True) else (1, False))
      else if utf8_width b = 3 then
        (if \<not> second_ok b (get0 bs 0) then (1, False)
         else if is_cont (get0 bs 1) then (3, True) else (2, False))
      else if utf8_width b = 4 then
        (if \<not> second_ok b (get0 bs 0) then (1, False)
         else if \<not> is_cont (get0 bs 1) then (2, False)
         else if is_cont (get0 bs 2) then (4, True) else (3, False))
      else (1, False))"

lemma utf8_next_pos: "0 < fst (utf8_next b bs)"
  by (simp add: utf8_next_def)

lemma not_cont_zero [simp]: "\<not> is_cont 0"
  by (simp add: is_cont_def)

lemma not_second_ok_zero [simp]: "\<not> second_ok b 0"
  by (simp add: second_ok_def)

lemma get0_nonzero: "get0 bs i \<noteq> 0 \<Longrightarrow> i < length bs"
  by (simp add: get0_def split: if_splits)

lemma is_cont_get0: "is_cont (get0 bs i) \<Longrightarrow> i < length bs"
  by (cases "get0 bs i = 0") (auto dest: get0_nonzero)

lemma second_ok_get0: "second_ok b (get0 bs i) \<Longrightarrow> i < length bs"
  by (cases "get0 bs i = 0") (auto dest: get0_nonzero)

lemma utf8_next_le: "snd (utf8_next b bs) \<Longrightarrow> fst (utf8_next b bs) \<le> Suc (length bs)"
  by (auto simp: utf8_next_def Suc_le_eq split: if_splits dest: is_cont_get0)

lemma get0_append: "i < length bs \<Longrightarrow> get0 (bs @ cs) i = get0 bs i"
  by (simp add: get0_def nth_append)

lemma is_cont_append: "is_cont (get0 bs i) \<Longrightarrow> get0 (bs @ cs) i = get0 bs i"
  by (simp add: get0_append is_cont_get0)

lemma second_ok_append: "second_ok b (get0 bs i) \<Longrightarrow> get0 (bs @ cs) i = get0 bs i"
  by (simp add: get0_append second_ok_get0)

lemma utf8_next_append: "snd (utf8_next b bs) \<Longrightarrow> utf8_next b (bs @ cs) = utf8_next b bs"
  by (simp add: utf8_next_def is_cont_append second_ok_append split: if_splits)

lemma utf8_next_ascii [simp]: "b < 128 \<Longrightarrow> utf8_next b bs = (1, True)"
  by (simp add: utf8_next_def utf8_width_def)

function valid_utf8 :: "u8 list \<Rightarrow> bool" where
  "valid_utf8 [] = True"
| "valid_utf8 (b # bs) =
     (snd (utf8_next b bs) \<and> valid_utf8 (drop (fst (utf8_next b bs) - 1) bs))"
  by pat_completeness auto
termination
  by (relation "measure length") auto

text \<open>The bytes of U+FFFD, the replacement character.\<close>

definition replacement :: string where
  "replacement = [CHR 0xEF, CHR 0xBF, CHR 0xBD]"

function from_utf8_lossy :: "u8 list \<Rightarrow> string" where
  "from_utf8_lossy [] = []"
| "from_utf8_lossy (b # bs) =
     (let (n, good) = utf8_next b bs
      in (if good then of_bytes (b # take (n - 1) bs) else replacement)
           @ from_utf8_lossy (drop (n - 1) bs))"
  by pat_completeness auto
termination
  by (relation "measure length") auto

definition valid_str :: "string \<Rightarrow> bool" where
  "valid_str s \<longleftrightarrow> valid_utf8 (into_bytes s)"

lemma valid_utf8_append: "valid_utf8 bs \<Longrightarrow> valid_utf8 cs \<Longrightarrow> valid_utf8 (bs @ cs)"
proof (induction bs rule: valid_utf8.induct)
  case 1
  then show ?case by simp
next
  case (2 b bs)
  let ?n = "fst (utf8_next b bs) - 1"
  from "2.prems"(1) have good: "snd (utf8_next b bs)" and rest: "valid_utf8 (drop ?n bs)"
    by simp_all
  from good have len: "?n \<le> length bs"
    using utf8_next_le by fastforce
  from "2.IH" [OF rest "2.prems"(2)] have "valid_utf8 (drop ?n (bs @ cs))"
    using len by simp
  then show ?case
    using good by (simp add: utf8_next_append)
qed

lemma valid_utf8_ascii: "list_all (\<lambda>b. b < 128) bs \<Longrightarrow> valid_utf8 bs"
  by (induction bs) auto

lemma valid_str_ascii: "ascii_str s \<Longrightarrow> valid_str s"
  unfolding valid_str_def
  by (rule valid_utf8_ascii)
    (simp add: ascii_str_def ascii_char_def into_bytes_def list_all_iff)

lemma valid_str_append: "valid_str s \<Longrightarrow> valid_str t \<Longrightarrow> valid_str (s @ t)"
  by (simp add: valid_str_def valid_utf8_append)

lemma valid_str_Nil [simp]: "valid_str []"
  by (simp add: valid_str_def into_bytes_def)

text \<open>Lossy decoding changes nothing on valid UTF-8, so it inverts \<open>into_bytes\<close> on Rust strings.\<close>

lemma from_utf8_lossy_valid: "valid_utf8 bs \<Longrightarrow> from_utf8_lossy bs = of_bytes bs"
proof (induction bs rule: valid_utf8.induct)
  case 1
  then show ?case by (simp add: of_bytes_def)
next
  case (2 b bs)
  obtain n good where n: "utf8_next b bs = (n, good)" by fastforce
  with "2.prems" have good: good and "valid_utf8 (drop (n - 1) bs)" by simp_all
  with "2.IH" n have "from_utf8_lossy (drop (n - 1) bs) = of_bytes (drop (n - 1) bs)"
    by simp
  with n good show ?case
    by (simp add: of_bytes_def flip: map_append)
qed

lemma from_utf8_lossy_into_bytes: "valid_str s \<Longrightarrow> from_utf8_lossy (into_bytes s) = s"
  by (simp add: valid_str_def from_utf8_lossy_valid)

lemma valid_str_replacement: "valid_str replacement"
  by (simp add: valid_str_def into_bytes_def replacement_def byte_def utf8_next_def
      utf8_width_def second_ok_def is_cont_def get0_def)

lemma get0_take: "i < k \<Longrightarrow> get0 (take k bs) i = get0 bs i"
  by (simp add: get0_def)

lemma utf8_next_take:
  "snd (utf8_next b bs) \<Longrightarrow> utf8_next b (take (fst (utf8_next b bs) - 1) bs) = utf8_next b bs"
  by (simp add: utf8_next_def get0_take split: if_splits)

text \<open>Whatever bytes arrive, the lossy decoding is a Rust string.\<close>

lemma valid_str_from_utf8_lossy: "valid_str (from_utf8_lossy bs)"
proof (induction bs rule: from_utf8_lossy.induct)
  case 1
  then show ?case by simp
next
  case (2 b bs)
  obtain n good where n: "utf8_next b bs = (n, good)" by fastforce
  have rest: "valid_str (from_utf8_lossy (drop (n - 1) bs))"
    using "2.IH" n by simp
  have "valid_str (of_bytes (b # take (n - 1) bs))" if good
    using utf8_next_take [of b bs] n that by (simp add: valid_str_def)
  then have "valid_str (if good then of_bytes (b # take (n - 1) bs) else replacement)"
    using valid_str_replacement by simp
  with n rest show ?case
    by (simp add: valid_str_append)
qed

section \<open>Characters\<close>

text \<open>
  The iterator \<open>chars\<close>, each character given by its bytes: a byte that is no continuation byte
  starts a character.  On valid UTF-8 these are exactly the characters.
\<close>

definition cont_char :: "char \<Rightarrow> bool" where
  "cont_char c \<longleftrightarrow> is_cont (byte c)"

function chars :: "string \<Rightarrow> string list" where
  "chars [] = []"
| "chars (c # s) = (c # takeWhile cont_char s) # chars (dropWhile cont_char s)"
  by pat_completeness auto
termination
  by (relation "measure length") (auto simp: less_Suc_eq_le length_dropWhile_le)

lemma ascii_not_cont: "ascii_char c \<Longrightarrow> \<not> cont_char c"
proof
  assume "ascii_char c" and "cont_char c"
  then have "byte c < 128" and "byte c AND 192 = 128"
    by (simp_all add: ascii_char_def cont_char_def is_cont_def)
  moreover have "byte c AND 192 \<le> byte c" by (rule word_and_le2)
  ultimately show False by simp
qed

lemma chars_append: "\<not> cont_char c \<Longrightarrow> chars (s @ c # t) = chars s @ chars (c # t)"
proof (induction s rule: chars.induct)
  case 1
  then show ?case by simp
next
  case (2 d s)
  show ?case
  proof (cases "\<forall>x \<in> set s. cont_char x")
    case True
    with "2.prems" show ?thesis
      by (simp add: takeWhile_append dropWhile_append takeWhile_eq_all_conv [THEN iffD2]
          dropWhile_eq_Nil_conv [THEN iffD2])
  next
    case False
    then obtain x where x: "x \<in> set s" "\<not> cont_char x" by blast
    then have "dropWhile cont_char (s @ c # t) = dropWhile cont_char s @ c # t"
      by (rule dropWhile_append1)
    moreover from x have "takeWhile cont_char (s @ c # t) = takeWhile cont_char s"
      by (rule takeWhile_append1)
    ultimately show ?thesis using "2.IH" "2.prems" by simp
  qed
qed

lemma chars_ascii: "ascii_str s \<Longrightarrow> chars s = map (\<lambda>c. [c]) s"
proof (induction s)
  case Nil
  then show ?case by simp
next
  case (Cons c s)
  then have "\<not> cont_char d" if "d \<in> set s" for d
    using that by (auto simp: ascii_str_def list_all_iff dest: ascii_not_cont)
  then have "takeWhile cont_char s = []" and "dropWhile cont_char s = s"
    by (cases s; simp)+
  with Cons show ?case by simp
qed

lemma concat_chars: "concat (chars s) = s"
  by (induction s rule: chars.induct) simp_all

lemma chars_nonempty: "ch \<in> set (chars s) \<Longrightarrow> ch \<noteq> []"
  by (induction s rule: chars.induct) auto

lemma is_cont_bounds: "is_cont b \<Longrightarrow> 128 \<le> b \<and> b < 192"
proof -
  assume "is_cont b"
  then have "drop_bit 6 (b AND 192) = (2 :: u8)"
    by (simp add: is_cont_def)
  then have *: "drop_bit 6 b AND 3 = (2 :: u8)"
    by simp
  have "unat b < 256" using unsigned_less [of b, where 'a = nat] by simp
  then have "unat (drop_bit 6 b) < 4"
    by (simp add: drop_bit_eq_div unat_div)
  moreover have "drop_bit 6 b AND 3 = take_bit 2 (drop_bit 6 b)"
    by (simp add: take_bit_eq_mask mask_eq_exp_minus_1)
  ultimately have "drop_bit 6 b AND 3 = drop_bit 6 b"
    by (simp add: word_unat_eq_iff take_bit_eq_mod unat_mod)
  with * have "unat (drop_bit 6 b) = 2" by simp
  then have "unat b div 64 = 2"
    by (simp add: drop_bit_eq_div unat_div)
  then have "128 \<le> unat b \<and> unat b < 192" by linarith
  then show ?thesis by (simp add: word_le_nat_alt word_less_nat_alt)
qed

text \<open>No character contains an ASCII byte but itself, so cutting at one cuts between characters.\<close>

lemma utf8_next_before_ascii:
  assumes "snd (utf8_next b (a @ c # cs))" and "c < 128"
  shows "utf8_next b (a @ c # cs) = utf8_next b a \<and> fst (utf8_next b a) \<le> Suc (length a)"
proof -
  have not_cont: "\<not> is_cont c" and not_second: "\<not> second_ok b c"
    using assms(2) is_cont_bounds [of c] by (auto simp: second_ok_def word_le_nat_alt word_less_nat_alt)
  show ?thesis
  proof (cases a)
    case Nil
    with assms(1) not_cont not_second show ?thesis
      by (auto simp: utf8_next_def get0_def split: if_splits)
  next
    case (Cons x a')
    note x = this
    show ?thesis
    proof (cases a')
      case Nil
      with x assms(1) not_cont show ?thesis by (auto simp: utf8_next_def get0_def split: if_splits)
    next
      case (Cons y a'')
      with x assms(1) not_cont show ?thesis
        by (cases a'') (auto simp: utf8_next_def get0_def split: if_splits)
    qed
  qed
qed

lemma valid_utf8_split_ascii:
  "valid_utf8 (a @ c # cs) \<Longrightarrow> c < 128 \<Longrightarrow> valid_utf8 a \<and> valid_utf8 cs"
proof (induction a rule: valid_utf8.induct)
  case 1
  then show ?case by simp
next
  case (2 b a)
  from "2.prems" utf8_next_before_ascii [of b a c cs]
  have same: "utf8_next b (a @ c # cs) = utf8_next b a" and "fst (utf8_next b a) - 1 \<le> length a"
    by auto
  with "2.prems" have "valid_utf8 (drop (fst (utf8_next b a) - 1) a @ c # cs)" by simp
  from "2.IH" [OF this "2.prems"(2)] "2.prems"(1) same show ?case by simp
qed

lemma valid_str_not_cont: "valid_str (c # s) \<Longrightarrow> \<not> cont_char c"
  using is_cont_bounds [of "byte c"]
  by (auto simp: valid_str_def into_bytes_def cont_char_def utf8_next_def utf8_width_def
      word_le_nat_alt word_less_nat_alt split: if_splits)

lemma chars_ascii_Cons:
  assumes "\<not> cont_char c" and "valid_str s"
  shows "chars (c # s) = [c] # chars s"
proof (cases s)
  case Nil
  then show ?thesis by simp
next
  case (Cons d t)
  with assms(2) have "\<not> cont_char d" by (simp add: valid_str_not_cont)
  with Cons show ?thesis by simp
qed

section \<open>Splitting and joining\<close>

text \<open>
  \<open>split_once\<close> at a one-byte ASCII pattern, which is also \<open>find\<close> followed by the two slices; at
  a longer pattern; \<open>split\<close> into all fields; \<open>join\<close>; \<open>contains\<close> of a substring.
\<close>

fun split_once :: "char \<Rightarrow> string \<Rightarrow> (string \<times> string) option" where
  "split_once p [] = None"
| "split_once p (c # s) =
     (if c = p then Some ([], s) else map_option (apfst (Cons c)) (split_once p s))"

fun split_once_str :: "string \<Rightarrow> string \<Rightarrow> (string \<times> string) option" where
  "split_once_str p [] = (if p = [] then Some ([], []) else None)"
| "split_once_str p (c # s) =
     (if take (length p) (c # s) = p then Some ([], drop (length p) (c # s))
      else map_option (apfst (Cons c)) (split_once_str p s))"

fun split_on :: "char \<Rightarrow> string \<Rightarrow> string list" where
  "split_on p [] = [[]]"
| "split_on p (c # s) =
     (if c = p then [] # split_on p s
      else case split_on p s of f # fs \<Rightarrow> (c # f) # fs | [] \<Rightarrow> [[c]])"

fun join :: "string \<Rightarrow> string list \<Rightarrow> string" where
  "join sep [] = []"
| "join sep [s] = s"
| "join sep (s # t # ss) = s @ sep @ join sep (t # ss)"

fun contains :: "string \<Rightarrow> string \<Rightarrow> bool" where
  "contains p [] = (p = [])"
| "contains p (c # s) = (take (length p) (c # s) = p \<or> contains p s)"

lemma split_once_None: "split_once p s = None \<longleftrightarrow> p \<notin> set s"
  by (induction s) auto

lemma split_once_Some:
  "split_once p s = Some (a, b) \<longleftrightarrow> s = a @ p # b \<and> p \<notin> set a"
proof (induction s arbitrary: a)
  case Nil
  then show ?case by simp
next
  case (Cons c s)
  show ?case
    by (cases a) (auto simp: Cons.IH)
qed

lemma split_once_append: "p \<notin> set a \<Longrightarrow> split_once p (a @ p # b) = Some (a, b)"
  by (simp add: split_once_Some)

lemma valid_str_split_once:
  assumes "valid_str s" and "split_once p s = Some (a, b)" and "ascii_char p"
  shows "valid_str a \<and> valid_str b"
  using assms valid_utf8_split_ascii [of "into_bytes a" "byte p" "into_bytes b"]
  by (auto simp: split_once_Some valid_str_def ascii_char_def into_bytes_def)

lemma split_on_nonempty: "split_on p s \<noteq> []"
  by (induction s) (auto split: list.splits)

lemma split_on_no_sep: "p \<notin> set s \<Longrightarrow> split_on p s = [s]"
  by (induction s) auto

lemma split_on_append: "p \<notin> set s \<Longrightarrow> split_on p (s @ p # t) = s # split_on p t"
  by (induction s) auto

lemma split_on_join:
  "ss \<noteq> [] \<Longrightarrow> \<forall>s \<in> set ss. p \<notin> set s \<Longrightarrow> split_on p (join [p] ss) = ss"
  by (induction "[p]" ss rule: join.induct) (auto simp: split_on_no_sep split_on_append)

lemma valid_str_join:
  "valid_str sep \<Longrightarrow> \<forall>s \<in> set ss. valid_str s \<Longrightarrow> valid_str (join sep ss)"
  by (induction sep ss rule: join.induct) (auto intro: valid_str_append)

lemma split_on_fields_no_sep: "f \<in> set (split_on p s) \<Longrightarrow> p \<notin> set f"
  by (induction s arbitrary: f) (auto split: if_splits list.splits)

lemma contains_iff: "contains p s \<longleftrightarrow> (\<exists>a b. s = a @ p @ b)"
proof (induction s)
  case Nil
  then show ?case by simp
next
  case (Cons c s)
  have "take (length p) (c # s) = p \<longleftrightarrow> (\<exists>b. c # s = p @ b)"
    by (metis append_eq_conv_conj append_take_drop_id)
  then show ?case
    using Cons.IH by (simp; metis (no_types, lifting) Cons_eq_append_conv append_Cons append_self_conv2)
qed

lemma split_once_str_append:
  assumes "\<not> contains [hd p] a" and "p \<noteq> []"
  shows "split_once_str p (a @ p @ b) = Some (a, b)"
  using assms
proof (induction a)
  case Nil
  then show ?case by (cases p) auto
next
  case (Cons c a)
  from Cons.prems have "c \<noteq> hd p" and "\<not> contains [hd p] a" by auto
  with Cons show ?case by (cases p) auto
qed

section \<open>ASCII case and white space\<close>

definition to_ascii_lower :: "char \<Rightarrow> char" where
  "to_ascii_lower c =
     (if 65 \<le> byte c \<and> byte c \<le> 90 then chr (byte c + 32) else c)"

definition to_ascii_upper :: "char \<Rightarrow> char" where
  "to_ascii_upper c =
     (if 97 \<le> byte c \<and> byte c \<le> 122 then chr (byte c - 32) else c)"

definition to_ascii_lowercase :: "string \<Rightarrow> string" where
  "to_ascii_lowercase s = map to_ascii_lower s"

definition to_ascii_uppercase :: "string \<Rightarrow> string" where
  "to_ascii_uppercase s = map to_ascii_upper s"

definition eq_ignore_ascii_case :: "string \<Rightarrow> string \<Rightarrow> bool" where
  "eq_ignore_ascii_case s t \<longleftrightarrow> to_ascii_lowercase s = to_ascii_lowercase t"

text \<open>The characters with the Unicode property \<open>White_Space\<close>, as UTF-8.\<close>

definition white_space :: "string list" where
  "white_space =
     [[CHR 0x09], [CHR 0x0A], [CHR 0x0B], [CHR 0x0C], [CHR 0x0D], [CHR 0x20],
      [CHR 0xC2, CHR 0x85], [CHR 0xC2, CHR 0xA0], [CHR 0xE1, CHR 0x9A, CHR 0x80],
      [CHR 0xE2, CHR 0x80, CHR 0x80], [CHR 0xE2, CHR 0x80, CHR 0x81],
      [CHR 0xE2, CHR 0x80, CHR 0x82], [CHR 0xE2, CHR 0x80, CHR 0x83],
      [CHR 0xE2, CHR 0x80, CHR 0x84], [CHR 0xE2, CHR 0x80, CHR 0x85],
      [CHR 0xE2, CHR 0x80, CHR 0x86], [CHR 0xE2, CHR 0x80, CHR 0x87],
      [CHR 0xE2, CHR 0x80, CHR 0x88], [CHR 0xE2, CHR 0x80, CHR 0x89],
      [CHR 0xE2, CHR 0x80, CHR 0x8A], [CHR 0xE2, CHR 0x80, CHR 0xA8],
      [CHR 0xE2, CHR 0x80, CHR 0xA9], [CHR 0xE2, CHR 0x80, CHR 0xAF],
      [CHR 0xE2, CHR 0x81, CHR 0x9F], [CHR 0xE3, CHR 0x80, CHR 0x80]]"

definition is_space :: "string \<Rightarrow> bool" where
  "is_space ch \<longleftrightarrow> List.member white_space ch"

definition trim :: "string \<Rightarrow> string" where
  "trim s = concat (rev (dropWhile is_space (rev (dropWhile is_space (chars s)))))"

section \<open>Decimal integers\<close>

definition digit_char :: "nat \<Rightarrow> char" where
  "digit_char d = char_of (48 + d)"

definition is_digit :: "char \<Rightarrow> bool" where
  "is_digit c \<longleftrightarrow> 48 \<le> (of_char c :: nat) \<and> (of_char c :: nat) \<le> 57"

definition digit_value :: "char \<Rightarrow> nat" where
  "digit_value c = of_char c - 48"

fun show_nat :: "nat \<Rightarrow> string" where
  "show_nat n =
     (if n < 10 then [digit_char n] else show_nat (n div 10) @ [digit_char (n mod 10)])"

declare show_nat.simps [simp del]

definition show_int :: "int \<Rightarrow> string" where
  "show_int i = (if i < 0 then CHR ''-'' # show_nat (nat (- i)) else show_nat (nat i))"

definition digits_value :: "string \<Rightarrow> nat" where
  "digits_value s = foldl (\<lambda>v c. v * 10 + digit_value c) 0 s"

text \<open>
  \<open>FromStr\<close> of an unsigned integer whose largest value is \<open>bound\<close>: an optional plus sign, then at
  least one decimal digit, and no overflow.
\<close>

definition parse_uint :: "nat \<Rightarrow> string \<Rightarrow> nat option" where
  "parse_uint bound s =
     (let ds = (case s of c # cs \<Rightarrow> (if c = CHR ''+'' then cs else s) | [] \<Rightarrow> [])
      in if ds \<noteq> [] \<and> list_all is_digit ds \<and> digits_value ds \<le> bound
         then Some (digits_value ds) else None)"

lemma of_char_digit: "d < 10 \<Longrightarrow> of_char (digit_char d) = 48 + d"
  by (simp add: digit_char_def)

lemma digit_value_char [simp]: "d < 10 \<Longrightarrow> digit_value (digit_char d) = d"
  by (simp add: digit_value_def of_char_digit)

lemma is_digit_char [simp]: "d < 10 \<Longrightarrow> is_digit (digit_char d)"
  by (simp add: is_digit_def of_char_digit)

lemma digits_value_snoc: "digits_value (s @ [c]) = digits_value s * 10 + digit_value c"
  by (simp add: digits_value_def)

lemma digits_value_show_nat [simp]: "digits_value (show_nat n) = n"
proof (induction n rule: show_nat.induct)
  case (1 n)
  show ?case
  proof (cases "n < 10")
    case True
    then show ?thesis by (subst show_nat.simps) (simp add: digits_value_def)
  next
    case False
    with 1 show ?thesis by (subst show_nat.simps) (simp add: digits_value_snoc)
  qed
qed

lemma show_nat_digits: "list_all is_digit (show_nat n)"
proof (induction n rule: show_nat.induct)
  case (1 n)
  then show ?case by (cases "n < 10"; subst show_nat.simps) simp_all
qed

lemma show_nat_nonempty [simp]: "show_nat n \<noteq> []"
  by (subst show_nat.simps) simp

lemma show_nat_inject [simp]: "show_nat m = show_nat n \<longleftrightarrow> m = n"
  by (metis digits_value_show_nat)

lemma digit_bounds: "is_digit c \<Longrightarrow> ascii_char c \<and> c \<noteq> CHR ''+'' \<and> c \<noteq> CHR '':'' \<and> c \<noteq> CHR ''/''"
  by (auto simp: is_digit_def ascii_char_def word_less_nat_alt unat_byte)

lemma digit_ascii: "is_digit c \<Longrightarrow> ascii_char c"
  using digit_bounds by blast

lemma digits_ascii: "list_all is_digit s \<Longrightarrow> ascii_str s"
  by (auto simp: ascii_str_def list_all_iff digit_ascii)

lemma ascii_show_nat [simp]: "ascii_str (show_nat n)"
  by (rule digits_ascii [OF show_nat_digits])

lemma show_nat_no_colon [simp]: "CHR '':'' \<notin> set (show_nat n)" "CHR ''/'' \<notin> set (show_nat n)"
  using show_nat_digits [of n] digit_bounds by (auto simp: list_all_iff)

lemma parse_uint_digits:
  assumes "list_all is_digit ds" and "ds \<noteq> []"
  shows "parse_uint bound ds = (if digits_value ds \<le> bound then Some (digits_value ds) else None)"
  using assms digit_bounds by (cases ds) (auto simp: parse_uint_def Let_def)

lemma parse_uint_show_nat: "n \<le> bound \<Longrightarrow> parse_uint bound (show_nat n) = Some n"
  by (simp add: parse_uint_digits show_nat_digits)

lemma parse_uint_le: "parse_uint bound s = Some n \<Longrightarrow> n \<le> bound"
  by (auto simp: parse_uint_def Let_def split: if_splits)

end
