(* ===== verification/Messages.thy ===== *)
theory Messages
  imports Rust_Text
begin

text \<open>
  The literal fragments of the messages the source builds with \<open>format!\<close>, as UTF-8 bytes (the
  source is written in Chinese).  The comment before each gives its meaning.
\<close>

definition msg_room_code_invalid :: string where
  \<comment> \<open>invalid room code format\<close>
  "msg_room_code_invalid =
      [CHR 0xE6, CHR 0x97, CHR 0xA0, CHR 0xE6, CHR 0x95, CHR 0x88, CHR 0xE7, CHR 0x9A,
      CHR 0x84, CHR 0xE6, CHR 0x88, CHR 0xBF, CHR 0xE9, CHR 0x97, CHR 0xB4, CHR 0xE7,
      CHR 0xA0, CHR 0x81, CHR 0xE6, CHR 0xA0, CHR 0xBC, CHR 0xE5, CHR 0xBC, CHR 0x8F] @
      '': ''"

definition msg_discovery_cancelled :: string where
  \<comment> \<open>centre discovery cancelled\<close>
  "msg_discovery_cancelled =
      [CHR 0xE4, CHR 0xB8, CHR 0xAD, CHR 0xE5, CHR 0xBF, CHR 0x83, CHR 0xE5, CHR 0x8F,
      CHR 0x91, CHR 0xE7, CHR 0x8E, CHR 0xB0, CHR 0xE5, CHR 0xB7, CHR 0xB2, CHR 0xE5,
      CHR 0x8F, CHR 0x96, CHR 0xE6, CHR 0xB6, CHR 0x88]"

definition msg_center_not_found :: string where
  \<comment> \<open>no centre found in the EasyTier network (30s timeout)\<close>
  "msg_center_not_found =
      [CHR 0xE6, CHR 0x9C, CHR 0xAA, CHR 0xE5, CHR 0x9C, CHR 0xA8] @ '' EasyTier '' @
      [CHR 0xE7, CHR 0xBD, CHR 0x91, CHR 0xE7, CHR 0xBB, CHR 0x9C, CHR 0xE4, CHR 0xB8,
      CHR 0xAD, CHR 0xE5, CHR 0x8F, CHR 0x91, CHR 0xE7, CHR 0x8E, CHR 0xB0, CHR 0xE8,
      CHR 0x81, CHR 0x94, CHR 0xE6, CHR 0x9C, CHR 0xBA, CHR 0xE4, CHR 0xB8, CHR 0xAD,
      CHR 0xE5, CHR 0xBF, CHR 0x83, CHR 0xEF, CHR 0xBC, CHR 0x88, CHR 0xE8, CHR 0xB6,
      CHR 0x85, CHR 0xE6, CHR 0x97, CHR 0xB6] @ '' 30s'' @ [CHR 0xEF, CHR 0xBC, CHR 0x89]"

definition msg_eof_expected :: string where
  \<comment> \<open>stream ended early: expected\<close>
  "msg_eof_expected =
      [CHR 0xE6, CHR 0xB5, CHR 0x81, CHR 0xE6, CHR 0x8F, CHR 0x90, CHR 0xE5, CHR 0x89,
      CHR 0x8D, CHR 0xE7, CHR 0xBB, CHR 0x93, CHR 0xE6, CHR 0x9D, CHR 0x9F] @ '': '' @
      [CHR 0xE6, CHR 0x9C, CHR 0x9F, CHR 0xE6, CHR 0x9C, CHR 0x9B, CHR 0xE8, CHR 0xAF,
      CHR 0xBB, CHR 0xE5, CHR 0x8F, CHR 0x96] @ '' ''"

definition msg_eof_got :: string where
  \<comment> \<open>bytes, read\<close>
  "msg_eof_got =
      '' '' @ [CHR 0xE5, CHR 0xAD, CHR 0x97, CHR 0xE8, CHR 0x8A, CHR 0x82, CHR 0xEF,
      CHR 0xBC, CHR 0x8C, CHR 0xE5, CHR 0xAE, CHR 0x9E, CHR 0xE9, CHR 0x99, CHR 0x85,
      CHR 0xE8, CHR 0xAF, CHR 0xBB, CHR 0xE5, CHR 0x8F, CHR 0x96] @ '' ''"

definition msg_bytes :: string where
  \<comment> \<open>bytes\<close>
  "msg_bytes =
      '' '' @ [CHR 0xE5, CHR 0xAD, CHR 0x97, CHR 0xE8, CHR 0x8A, CHR 0x82]"

definition msg_bad_type :: string where
  \<comment> \<open>invalid request type format\<close>
  "msg_bad_type =
      [CHR 0xE6, CHR 0x97, CHR 0xA0, CHR 0xE6, CHR 0x95, CHR 0x88, CHR 0xE7, CHR 0x9A,
      CHR 0x84, CHR 0xE8, CHR 0xAF, CHR 0xB7, CHR 0xE6, CHR 0xB1, CHR 0x82, CHR 0xE7,
      CHR 0xB1, CHR 0xBB, CHR 0xE5, CHR 0x9E, CHR 0x8B, CHR 0xE6, CHR 0xA0, CHR 0xBC,
      CHR 0xE5, CHR 0xBC, CHR 0x8F] @ '': ''"

definition msg_read_failed :: string where
  \<comment> \<open>reading the stream failed\<close>
  "msg_read_failed =
      [CHR 0xE8, CHR 0xAF, CHR 0xBB, CHR 0xE5, CHR 0x8F, CHR 0x96, CHR 0xE6, CHR 0xB5,
      CHR 0x81, CHR 0xE5, CHR 0xA4, CHR 0xB1, CHR 0xE8, CHR 0xB4, CHR 0xA5] @ '': ''"

definition msg_kicked :: string where
  \<comment> \<open>the player was kicked by the host\<close>
  "msg_kicked =
      [CHR 0xE7, CHR 0x8E, CHR 0xA9, CHR 0xE5, CHR 0xAE, CHR 0xB6, CHR 0xE5, CHR 0xB7,
      CHR 0xB2, CHR 0xE8, CHR 0xA2, CHR 0xAB, CHR 0xE6, CHR 0x88, CHR 0xBF, CHR 0xE4,
      CHR 0xB8, CHR 0xBB, CHR 0xE8, CHR 0xB8, CHR 0xA2, CHR 0xE5, CHR 0x87, CHR 0xBA]"

definition msg_ping_parse :: string where
  \<comment> \<open>player ping could not be parsed\<close>
  "msg_ping_parse =
      [CHR 0xE7, CHR 0x8E, CHR 0xA9, CHR 0xE5, CHR 0xAE, CHR 0xB6, CHR 0xE5, CHR 0xBF,
      CHR 0x83, CHR 0xE8, CHR 0xB7, CHR 0xB3, CHR 0xE8, CHR 0xA7, CHR 0xA3, CHR 0xE6,
      CHR 0x9E, CHR 0x90, CHR 0xE5, CHR 0xA4, CHR 0xB1, CHR 0xE8, CHR 0xB4, CHR 0xA5] @
      '': ''"

definition msg_list_ser :: string where
  \<comment> \<open>player list could not be serialised\<close>
  "msg_list_ser =
      [CHR 0xE7, CHR 0x8E, CHR 0xA9, CHR 0xE5, CHR 0xAE, CHR 0xB6, CHR 0xE5, CHR 0x88,
      CHR 0x97, CHR 0xE8, CHR 0xA1, CHR 0xA8, CHR 0xE5, CHR 0xBA, CHR 0x8F, CHR 0xE5,
      CHR 0x88, CHR 0x97, CHR 0xE5, CHR 0x8C, CHR 0x96, CHR 0xE5, CHR 0xA4, CHR 0xB1,
      CHR 0xE8, CHR 0xB4, CHR 0xA5] @ '': ''"

definition msg_resp_ser :: string where
  \<comment> \<open>response could not be serialised\<close>
  "msg_resp_ser =
      [CHR 0xE5, CHR 0x93, CHR 0x8D, CHR 0xE5, CHR 0xBA, CHR 0x94, CHR 0xE5, CHR 0xBA,
      CHR 0x8F, CHR 0xE5, CHR 0x88, CHR 0x97, CHR 0xE5, CHR 0x8C, CHR 0x96, CHR 0xE5,
      CHR 0xA4, CHR 0xB1, CHR 0xE8, CHR 0xB4, CHR 0xA5] @ '': ''"

definition msg_req_de :: string where
  \<comment> \<open>request could not be deserialised\<close>
  "msg_req_de =
      [CHR 0xE8, CHR 0xAF, CHR 0xB7, CHR 0xE6, CHR 0xB1, CHR 0x82, CHR 0xE5, CHR 0x8F,
      CHR 0x8D, CHR 0xE5, CHR 0xBA, CHR 0x8F, CHR 0xE5, CHR 0x88, CHR 0x97, CHR 0xE5,
      CHR 0x8C, CHR 0x96, CHR 0xE5, CHR 0xA4, CHR 0xB1, CHR 0xE8, CHR 0xB4, CHR 0xA5] @
      '': ''"

definition msg_unknown_protocol :: string where
  \<comment> \<open>unknown protocol\<close>
  "msg_unknown_protocol =
      [CHR 0xE6, CHR 0x9C, CHR 0xAA, CHR 0xE7, CHR 0x9F, CHR 0xA5, CHR 0xE5, CHR 0x8D,
      CHR 0x8F, CHR 0xE8, CHR 0xAE, CHR 0xAE] @ '': ''"

definition msg_tcp_started :: string where
  \<comment> \<open>TCP service already started\<close>
  "msg_tcp_started =
      ''TCP '' @ [CHR 0xE6, CHR 0x9C, CHR 0x8D, CHR 0xE5, CHR 0x8A, CHR 0xA1, CHR 0xE5,
      CHR 0xB7, CHR 0xB2, CHR 0xE5, CHR 0x90, CHR 0xAF, CHR 0xE5, CHR 0x8A, CHR 0xA8]"

definition msg_tcp_port :: string where
  \<comment> \<open>TCP port\<close>
  "msg_tcp_port =
      ''TCP '' @ [CHR 0xE7, CHR 0xAB, CHR 0xAF, CHR 0xE5, CHR 0x8F, CHR 0xA3] @ '' ''"

definition msg_bind_failed :: string where
  \<comment> \<open>could not be bound\<close>
  "msg_bind_failed =
      '' '' @ [CHR 0xE7, CHR 0xBB, CHR 0x91, CHR 0xE5, CHR 0xAE, CHR 0x9A, CHR 0xE5,
      CHR 0xA4, CHR 0xB1, CHR 0xE8, CHR 0xB4, CHR 0xA5] @ '': ''"

definition msg_key_conflict :: string where
  \<comment> \<open>custom protocol key conflict\<close>
  "msg_key_conflict =
      [CHR 0xE8, CHR 0x87, CHR 0xAA, CHR 0xE5, CHR 0xAE, CHR 0x9A, CHR 0xE4, CHR 0xB9,
      CHR 0x89, CHR 0xE5, CHR 0x8D, CHR 0x8F, CHR 0xE8, CHR 0xAE, CHR 0xAE, CHR 0xE9,
      CHR 0x94, CHR 0xAE, CHR 0xE5, CHR 0x86, CHR 0xB2, CHR 0xE7, CHR 0xAA, CHR 0x81] @
      '': ''"

definition msg_connect_failed :: string where
  \<comment> \<open>cannot connect to the centre\<close>
  "msg_connect_failed =
      [CHR 0xE6, CHR 0x97, CHR 0xA0, CHR 0xE6, CHR 0xB3, CHR 0x95, CHR 0xE8, CHR 0xBF,
      CHR 0x9E, CHR 0xE6, CHR 0x8E, CHR 0xA5, CHR 0xE5, CHR 0x88, CHR 0xB0, CHR 0xE8,
      CHR 0x81, CHR 0x94, CHR 0xE6, CHR 0x9C, CHR 0xBA, CHR 0xE4, CHR 0xB8, CHR 0xAD,
      CHR 0xE5, CHR 0xBF, CHR 0x83] @ '' ''"

definition msg_not_connected :: string where
  \<comment> \<open>not connected to the centre\<close>
  "msg_not_connected =
      [CHR 0xE6, CHR 0x9C, CHR 0xAA, CHR 0xE8, CHR 0xBF, CHR 0x9E, CHR 0xE6, CHR 0x8E,
      CHR 0xA5, CHR 0xE5, CHR 0x88, CHR 0xB0, CHR 0xE8, CHR 0x81, CHR 0x94, CHR 0xE6,
      CHR 0x9C, CHR 0xBA, CHR 0xE4, CHR 0xB8, CHR 0xAD, CHR 0xE5, CHR 0xBF, CHR 0x83]"

definition msg_send_failed :: string where
  \<comment> \<open>TCP send failed\<close>
  "msg_send_failed =
      ''TCP '' @ [CHR 0xE5, CHR 0x8F, CHR 0x91, CHR 0xE9, CHR 0x80, CHR 0x81, CHR 0xE5,
      CHR 0xA4, CHR 0xB1, CHR 0xE8, CHR 0xB4, CHR 0xA5] @ '': ''"

definition msg_read_timeout :: string where
  \<comment> \<open>reading the response timed out\<close>
  "msg_read_timeout =
      [CHR 0xE8, CHR 0xAF, CHR 0xBB, CHR 0xE5, CHR 0x8F, CHR 0x96, CHR 0xE5, CHR 0x93,
      CHR 0x8D, CHR 0xE5, CHR 0xBA, CHR 0x94, CHR 0xE8, CHR 0xB6, CHR 0x85, CHR 0xE6,
      CHR 0x97, CHR 0xB6] @ '': ''"

definition msg_forward_failed :: string where
  \<comment> \<open>cannot connect to the centre (port forward failed)\<close>
  "msg_forward_failed =
      [CHR 0xE6, CHR 0x97, CHR 0xA0, CHR 0xE6, CHR 0xB3, CHR 0x95, CHR 0xE8, CHR 0xBF,
      CHR 0x9E, CHR 0xE6, CHR 0x8E, CHR 0xA5, CHR 0xE5, CHR 0x88, CHR 0xB0, CHR 0xE8,
      CHR 0x81, CHR 0x94, CHR 0xE6, CHR 0x9C, CHR 0xBA, CHR 0xE4, CHR 0xB8, CHR 0xAD,
      CHR 0xE5, CHR 0xBF, CHR 0x83, CHR 0xEF, CHR 0xBC, CHR 0x88, CHR 0xE7, CHR 0xAB,
      CHR 0xAF, CHR 0xE5, CHR 0x8F, CHR 0xA3, CHR 0xE8, CHR 0xBD, CHR 0xAC, CHR 0xE5,
      CHR 0x8F, CHR 0x91, CHR 0xE5, CHR 0xBB, CHR 0xBA, CHR 0xE7, CHR 0xAB, CHR 0x8B,
      CHR 0xE5, CHR 0xA4, CHR 0xB1, CHR 0xE8, CHR 0xB4, CHR 0xA5, CHR 0xEF, CHR 0xBC,
      CHR 0x89]"

definition msg_mc_not_started :: string where
  \<comment> \<open>MC server not started (status\<close>
  "msg_mc_not_started =
      ''MC '' @ [CHR 0xE6, CHR 0x9C, CHR 0x8D, CHR 0xE5, CHR 0x8A, CHR 0xA1, CHR 0xE5,
      CHR 0x99, CHR 0xA8, CHR 0xE6, CHR 0x9C, CHR 0xAA, CHR 0xE5, CHR 0x90, CHR 0xAF,
      CHR 0xE5, CHR 0x8A, CHR 0xA8] @ '' ('' @ [CHR 0xE7, CHR 0x8A, CHR 0xB6, CHR 0xE6,
      CHR 0x80, CHR 0x81, CHR 0xE7, CHR 0xA0, CHR 0x81] @ '': ''"

definition msg_port_failed :: string where
  \<comment> \<open>fetching the server port failed (status\<close>
  "msg_port_failed =
      [CHR 0xE8, CHR 0x8E, CHR 0xB7, CHR 0xE5, CHR 0x8F, CHR 0x96, CHR 0xE6, CHR 0x9C,
      CHR 0x8D, CHR 0xE5, CHR 0x8A, CHR 0xA1, CHR 0xE5, CHR 0x99, CHR 0xA8, CHR 0xE7,
      CHR 0xAB, CHR 0xAF, CHR 0xE5, CHR 0x8F, CHR 0xA3, CHR 0xE5, CHR 0xA4, CHR 0xB1,
      CHR 0xE8, CHR 0xB4, CHR 0xA5] @ '' ('' @ [CHR 0xE7, CHR 0x8A, CHR 0xB6, CHR 0xE6,
      CHR 0x80, CHR 0x81, CHR 0xE7, CHR 0xA0, CHR 0x81] @ '': ''"

definition msg_port_len :: string where
  \<comment> \<open>server port response has a bad length\<close>
  "msg_port_len =
      [CHR 0xE6, CHR 0x9C, CHR 0x8D, CHR 0xE5, CHR 0x8A, CHR 0xA1, CHR 0xE5, CHR 0x99,
      CHR 0xA8, CHR 0xE7, CHR 0xAB, CHR 0xAF, CHR 0xE5, CHR 0x8F, CHR 0xA3, CHR 0xE5,
      CHR 0x93, CHR 0x8D, CHR 0xE5, CHR 0xBA, CHR 0x94, CHR 0xE9, CHR 0x95, CHR 0xBF,
      CHR 0xE5, CHR 0xBA, CHR 0xA6, CHR 0xE9, CHR 0x9D, CHR 0x9E, CHR 0xE6, CHR 0xB3,
      CHR 0x95] @ '': ''"

definition msg_not_joined :: string where
  \<comment> \<open>no room joined yet\<close>
  "msg_not_joined =
      [CHR 0xE5, CHR 0xB0, CHR 0x9A, CHR 0xE6, CHR 0x9C, CHR 0xAA, CHR 0xE5, CHR 0x8A,
      CHR 0xA0, CHR 0xE5, CHR 0x85, CHR 0xA5, CHR 0xE6, CHR 0x88, CHR 0xBF, CHR 0xE9,
      CHR 0x97, CHR 0xB4]"

definition msg_protocol :: string where
  \<comment> \<open>protocol\<close>
  "msg_protocol =
      [CHR 0xE5, CHR 0x8D, CHR 0x8F, CHR 0xE8, CHR 0xAE, CHR 0xAE] @ '' ''"

definition msg_error_status :: string where
  \<comment> \<open>returned error status\<close>
  "msg_error_status =
      '' '' @ [CHR 0xE8, CHR 0xBF, CHR 0x94, CHR 0xE5, CHR 0x9B, CHR 0x9E, CHR 0xE9,
      CHR 0x94, CHR 0x99, CHR 0xE8, CHR 0xAF, CHR 0xAF, CHR 0xE7, CHR 0x8A, CHR 0xB6,
      CHR 0xE6, CHR 0x80, CHR 0x81] @ '': ''"

definition msg_unsupported :: string where
  \<comment> \<open>the host does not support protocol\<close>
  "msg_unsupported =
      [CHR 0xE6, CHR 0x88, CHR 0xBF, CHR 0xE4, CHR 0xB8, CHR 0xBB, CHR 0xE4, CHR 0xB8,
      CHR 0x8D, CHR 0xE6, CHR 0x94, CHR 0xAF, CHR 0xE6, CHR 0x8C, CHR 0x81, CHR 0xE5,
      CHR 0x8D, CHR 0x8F, CHR 0xE8, CHR 0xAE, CHR 0xAE] @ '' ''"

definition msg_negotiated :: string where
  \<comment> \<open>(negotiated:\<close>
  "msg_negotiated =
      [CHR 0xEF, CHR 0xBC, CHR 0x88, CHR 0xE5, CHR 0x8D, CHR 0x8F, CHR 0xE5, CHR 0x95,
      CHR 0x86, CHR 0xE7, CHR 0xBB, CHR 0x93, CHR 0xE6, CHR 0x9E, CHR 0x9C] @ '': ''"

definition msg_empty :: string where
  \<comment> \<open>empty\<close>
  "msg_empty =
      [CHR 0xE7, CHR 0xA9, CHR 0xBA]"

definition msg_close_paren :: string where
  \<comment> \<open>closing full-width parenthesis\<close>
  "msg_close_paren =
      [CHR 0xEF, CHR 0xBC, CHR 0x89]"

definition msg_bad_key :: string where
  \<comment> \<open>invalid protocol key format\<close>
  "msg_bad_key =
      [CHR 0xE6, CHR 0x97, CHR 0xA0, CHR 0xE6, CHR 0x95, CHR 0x88, CHR 0xE7, CHR 0x9A,
      CHR 0x84, CHR 0xE5, CHR 0x8D, CHR 0x8F, CHR 0xE8, CHR 0xAE, CHR 0xAE, CHR 0xE9,
      CHR 0x94, CHR 0xAE, CHR 0xE6, CHR 0xA0, CHR 0xBC, CHR 0xE5, CHR 0xBC, CHR 0x8F] @
      '': ''"

definition msg_bad_forward :: string where
  \<comment> \<open>invalid port forward format\<close>
  "msg_bad_forward =
      [CHR 0xE6, CHR 0x97, CHR 0xA0, CHR 0xE6, CHR 0x95, CHR 0x88, CHR 0xE7, CHR 0x9A,
      CHR 0x84, CHR 0xE7, CHR 0xAB, CHR 0xAF, CHR 0xE5, CHR 0x8F, CHR 0xA3, CHR 0xE8,
      CHR 0xBD, CHR 0xAC, CHR 0xE5, CHR 0x8F, CHR 0x91, CHR 0xE6, CHR 0xA0, CHR 0xBC,
      CHR 0xE5, CHR 0xBC, CHR 0x8F] @ '': ''"

definition msg_bad_bind :: string where
  \<comment> \<open>invalid port forward bind address\<close>
  "msg_bad_bind =
      [CHR 0xE6, CHR 0x97, CHR 0xA0, CHR 0xE6, CHR 0x95, CHR 0x88, CHR 0xE7, CHR 0x9A,
      CHR 0x84, CHR 0xE7, CHR 0xAB, CHR 0xAF, CHR 0xE5, CHR 0x8F, CHR 0xA3, CHR 0xE8,
      CHR 0xBD, CHR 0xAC, CHR 0xE5, CHR 0x8F, CHR 0x91, CHR 0xE7, CHR 0xBB, CHR 0x91,
      CHR 0xE5, CHR 0xAE, CHR 0x9A, CHR 0xE5, CHR 0x9C, CHR 0xB0, CHR 0xE5, CHR 0x9D,
      CHR 0x80] @ '': ''"

definition msg_bad_dst :: string where
  \<comment> \<open>invalid port forward target address\<close>
  "msg_bad_dst =
      [CHR 0xE6, CHR 0x97, CHR 0xA0, CHR 0xE6, CHR 0x95, CHR 0x88, CHR 0xE7, CHR 0x9A,
      CHR 0x84, CHR 0xE7, CHR 0xAB, CHR 0xAF, CHR 0xE5, CHR 0x8F, CHR 0xA3, CHR 0xE8,
      CHR 0xBD, CHR 0xAC, CHR 0xE5, CHR 0x8F, CHR 0x91, CHR 0xE7, CHR 0x9B, CHR 0xAE,
      CHR 0xE6, CHR 0xA0, CHR 0x87, CHR 0xE5, CHR 0x9C, CHR 0xB0, CHR 0xE5, CHR 0x9D,
      CHR 0x80] @ '': ''"

definition msg_et_running :: string where
  \<comment> \<open>EasyTier is already running\<close>
  "msg_et_running =
      ''EasyTier '' @ [CHR 0xE5, CHR 0xB7, CHR 0xB2, CHR 0xE5, CHR 0x9C, CHR 0xA8,
      CHR 0xE8, CHR 0xBF, CHR 0x90, CHR 0xE8, CHR 0xA1, CHR 0x8C, CHR 0xE4, CHR 0xB8,
      CHR 0xAD]"

definition msg_et_start_failed :: string where
  \<comment> \<open>starting the EasyTier instance failed\<close>
  "msg_et_start_failed =
      [CHR 0xE5, CHR 0x90, CHR 0xAF, CHR 0xE5, CHR 0x8A, CHR 0xA8] @ '' EasyTier '' @
      [CHR 0xE5, CHR 0xAE, CHR 0x9E, CHR 0xE4, CHR 0xBE, CHR 0x8B, CHR 0xE5, CHR 0xA4,
      CHR 0xB1, CHR 0xE8, CHR 0xB4, CHR 0xA5] @ '': ''"

definition msg_et_timeout :: string where
  \<comment> \<open>EasyTier start timed out (30s)\<close>
  "msg_et_timeout =
      ''EasyTier '' @ [CHR 0xE5, CHR 0x90, CHR 0xAF, CHR 0xE5, CHR 0x8A, CHR 0xA8,
      CHR 0xE8, CHR 0xB6, CHR 0x85, CHR 0xE6, CHR 0x97, CHR 0xB6] @ '' (30s)''"

definition msg_bad_peer_id :: string where
  \<comment> \<open>invalid peer id\<close>
  "msg_bad_peer_id =
      [CHR 0xE6, CHR 0x97, CHR 0xA0, CHR 0xE6, CHR 0x95, CHR 0x88, CHR 0xE7, CHR 0x9A,
      CHR 0x84] @ '' peer id: ''"

definition msg_disconnect_failed :: string where
  \<comment> \<open>disconnecting the peer failed\<close>
  "msg_disconnect_failed =
      [CHR 0xE6, CHR 0x96, CHR 0xAD, CHR 0xE5, CHR 0xBC, CHR 0x80] @ '' peer '' @
      [CHR 0xE5, CHR 0xA4, CHR 0xB1, CHR 0xE8, CHR 0xB4, CHR 0xA5] @ '': ''"

definition msg_deny_failed :: string where
  \<comment> \<open>denying the peer failed\<close>
  "msg_deny_failed =
      ''deny peer '' @ [CHR 0xE5, CHR 0xA4, CHR 0xB1, CHR 0xE8, CHR 0xB4, CHR 0xA5] @
      '': ''"

definition msg_et_not_started :: string where
  \<comment> \<open>EasyTier not started\<close>
  "msg_et_not_started =
      ''EasyTier '' @ [CHR 0xE6, CHR 0x9C, CHR 0xAA, CHR 0xE5, CHR 0x90, CHR 0xAF,
      CHR 0xE5, CHR 0x8A, CHR 0xA8]"

definition msg_no_instance :: string where
  \<comment> \<open>the instance does not exist\<close>
  "msg_no_instance =
      [CHR 0xE5, CHR 0xAE, CHR 0x9E, CHR 0xE4, CHR 0xBE, CHR 0x8B, CHR 0xE4, CHR 0xB8,
      CHR 0x8D, CHR 0xE5, CHR 0xAD, CHR 0x98, CHR 0xE5, CHR 0x9C, CHR 0xA8]"

definition msg_patch_failed :: string where
  \<comment> \<open>changing the configuration failed\<close>
  "msg_patch_failed =
      [CHR 0xE5, CHR 0x8A, CHR 0xA8, CHR 0xE6, CHR 0x80, CHR 0x81, CHR 0xE4, CHR 0xBF,
      CHR 0xAE, CHR 0xE6, CHR 0x94, CHR 0xB9, CHR 0xE9, CHR 0x85, CHR 0x8D, CHR 0xE7,
      CHR 0xBD, CHR 0xAE, CHR 0xE5, CHR 0xA4, CHR 0xB1, CHR 0xE8, CHR 0xB4, CHR 0xA5] @
      '': ''"

definition msg_bad_ipv4 :: string where
  \<comment> \<open>invalid ipv4 address\<close>
  "msg_bad_ipv4 =
      [CHR 0xE6, CHR 0x97, CHR 0xA0, CHR 0xE6, CHR 0x95, CHR 0x88, CHR 0xE7, CHR 0x9A,
      CHR 0x84] @ '' ipv4 '' @ [CHR 0xE5, CHR 0x9C, CHR 0xB0, CHR 0xE5, CHR 0x9D, CHR 0x80]
      @ '': ''"

definition msg_bad_listen :: string where
  \<comment> \<open>invalid listen address\<close>
  "msg_bad_listen =
      [CHR 0xE6, CHR 0x97, CHR 0xA0, CHR 0xE6, CHR 0x95, CHR 0x88, CHR 0xE7, CHR 0x9A,
      CHR 0x84, CHR 0xE7, CHR 0x9B, CHR 0x91, CHR 0xE5, CHR 0x90, CHR 0xAC, CHR 0xE5,
      CHR 0x9C, CHR 0xB0, CHR 0xE5, CHR 0x9D, CHR 0x80] @ '': ''"

definition msg_bad_relay :: string where
  \<comment> \<open>invalid relay node address\<close>
  "msg_bad_relay =
      [CHR 0xE6, CHR 0x97, CHR 0xA0, CHR 0xE6, CHR 0x95, CHR 0x88, CHR 0xE7, CHR 0x9A,
      CHR 0x84, CHR 0xE4, CHR 0xB8, CHR 0xAD, CHR 0xE7, CHR 0xBB, CHR 0xA7, CHR 0xE8,
      CHR 0x8A, CHR 0x82, CHR 0xE7, CHR 0x82, CHR 0xB9, CHR 0xE5, CHR 0x9C, CHR 0xB0,
      CHR 0xE5, CHR 0x9D, CHR 0x80] @ '': ''"

definition kw_ethernet_zh :: string where
  \<comment> \<open>Ethernet\<close>
  "kw_ethernet_zh =
      [CHR 0xE4, CHR 0xBB, CHR 0xA5, CHR 0xE5, CHR 0xA4, CHR 0xAA, CHR 0xE7, CHR 0xBD,
      CHR 0x91]"

definition kw_wireless_zh :: string where
  \<comment> \<open>wireless\<close>
  "kw_wireless_zh =
      [CHR 0xE6, CHR 0x97, CHR 0xA0, CHR 0xE7, CHR 0xBA, CHR 0xBF]"

definition msg_bad_port :: string where
  \<comment> \<open>invalid port\<close>
  "msg_bad_port =
      [CHR 0xE6, CHR 0x97, CHR 0xA0, CHR 0xE6, CHR 0x95, CHR 0x88, CHR 0xE7, CHR 0xAB,
      CHR 0xAF, CHR 0xE5, CHR 0x8F, CHR 0xA3]"

definition msg_error :: string where
  \<comment> \<open>error\<close>
  "msg_error =
      [CHR 0xE9, CHR 0x94, CHR 0x99, CHR 0xE8, CHR 0xAF, CHR 0xAF] @ '': ''"

definition msg_relay_starting :: string where
  \<comment> \<open>starting the local relay, listening on\<close>
  "msg_relay_starting =
      [CHR 0xE5, CHR 0x90, CHR 0xAF, CHR 0xE5, CHR 0x8A, CHR 0xA8, CHR 0xE6, CHR 0x9C,
      CHR 0xAC, CHR 0xE5, CHR 0x9C, CHR 0xB0, CHR 0xE4, CHR 0xB8, CHR 0xAD, CHR 0xE7,
      CHR 0xBB, CHR 0xA7, CHR 0xEF, CHR 0xBC, CHR 0x8C, CHR 0xE7, CHR 0x9B, CHR 0x91,
      CHR 0xE5, CHR 0x90, CHR 0xAC] @ '' ''"

definition msg_relay_ready :: string where
  \<comment> \<open>the relay is ready, leave with Ctrl+C\<close>
  "msg_relay_ready =
      [CHR 0xE4, CHR 0xB8, CHR 0xAD, CHR 0xE7, CHR 0xBB, CHR 0xA7, CHR 0xE5, CHR 0xB7,
      CHR 0xB2, CHR 0xE5, CHR 0xB0, CHR 0xB1, CHR 0xE7, CHR 0xBB, CHR 0xAA, CHR 0xEF,
      CHR 0xBC, CHR 0x8C, CHR 0xE6, CHR 0x8C, CHR 0x89] @ '' Ctrl+C '' @ [CHR 0xE9,
      CHR 0x80, CHR 0x80, CHR 0xE5, CHR 0x87, CHR 0xBA]"

definition msg_relay_stopped :: string where
  \<comment> \<open>the relay has stopped\<close>
  "msg_relay_stopped =
      [CHR 0xE4, CHR 0xB8, CHR 0xAD, CHR 0xE7, CHR 0xBB, CHR 0xA7, CHR 0xE5, CHR 0xB7,
      CHR 0xB2, CHR 0xE5, CHR 0x81, CHR 0x9C, CHR 0xE6, CHR 0xAD, CHR 0xA2]"

definition msg_creating_room :: string where
  \<comment> \<open>creating the room\<close>
  "msg_creating_room =
      [CHR 0xE5, CHR 0x88, CHR 0x9B, CHR 0xE5, CHR 0xBB, CHR 0xBA, CHR 0xE6, CHR 0x88,
      CHR 0xBF, CHR 0xE9, CHR 0x97, CHR 0xB4] @ ''...''"

definition msg_room_code :: string where
  \<comment> \<open>room code\<close>
  "msg_room_code =
      [CHR 0xE6, CHR 0x88, CHR 0xBF, CHR 0xE9, CHR 0x97, CHR 0xB4, CHR 0xE7, CHR 0xA0,
      CHR 0x81] @ '': ''"

definition msg_press_ctrl_c :: string where
  \<comment> \<open>leave with Ctrl+C\<close>
  "msg_press_ctrl_c =
      [CHR 0xE6, CHR 0x8C, CHR 0x89] @ '' Ctrl+C '' @ [CHR 0xE9, CHR 0x80, CHR 0x80,
      CHR 0xE5, CHR 0x87, CHR 0xBA]"

definition msg_joining_room :: string where
  \<comment> \<open>joining the room\<close>
  "msg_joining_room =
      [CHR 0xE5, CHR 0x8A, CHR 0xA0, CHR 0xE5, CHR 0x85, CHR 0xA5, CHR 0xE6, CHR 0x88,
      CHR 0xBF, CHR 0xE9, CHR 0x97, CHR 0xB4] @ '' ''"

definition msg_joined :: string where
  \<comment> \<open>joined\<close>
  "msg_joined =
      [CHR 0xE5, CHR 0xB7, CHR 0xB2, CHR 0xE5, CHR 0x8A, CHR 0xA0, CHR 0xE5, CHR 0x85,
      CHR 0xA5] @ ''!''"

definition msg_mc_address :: string where
  \<comment> \<open>address of the MC server\<close>
  "msg_mc_address =
      ''MC '' @ [CHR 0xE6, CHR 0x9C, CHR 0x8D, CHR 0xE5, CHR 0x8A, CHR 0xA1, CHR 0xE5,
      CHR 0x99, CHR 0xA8, CHR 0xE5, CHR 0x9C, CHR 0xB0, CHR 0xE5, CHR 0x9D, CHR 0x80] @
      '': ''"

definition msg_players :: string where
  \<comment> \<open>players\<close>
  "msg_players =
      [CHR 0xE7, CHR 0x8E, CHR 0xA9, CHR 0xE5, CHR 0xAE, CHR 0xB6] @ '' (''"

end
