(* ===== verification/Scaffolding_Error.thy ===== *)
theory Scaffolding_Error
  imports Messages
begin

text \<open>
  The error type of the library (\<open>error.rs\<close>): every fallible operation returns one of these
  constructors with its message.
\<close>

datatype scaffolding_error =
    RoomCodeInvalid string
  | EasyTierStart string
  | EasyTierTimeout string
  | CenterNotFound string
  | CenterConnection string
  | Protocol string
  | ProtocolNotNegotiated string
  | HeartbeatTimeout string

text \<open>\<open>Display\<close>: the message it carries.\<close>

fun error_display :: "scaffolding_error \<Rightarrow> string" where
  "error_display (RoomCodeInvalid msg) = msg"
| "error_display (EasyTierStart msg) = msg"
| "error_display (EasyTierTimeout msg) = msg"
| "error_display (CenterNotFound msg) = msg"
| "error_display (CenterConnection msg) = msg"
| "error_display (Protocol msg) = msg"
| "error_display (ProtocolNotNegotiated msg) = msg"
| "error_display (HeartbeatTimeout msg) = msg"

type_synonym 'a res = "scaffolding_error + 'a"

end
