(* ===== verification/Models.thy ===== *)
theory Models
  imports Scaffolding_Error
begin

text \<open>
  The data of \<open>models/\<close>: protocol frames, players and their JSON profile, EasyTier nodes and the
  network configuration.  A field carries a prefix where two structs of the source share its name.
\<close>

section \<open>Protocol frames\<close>

record protocol_request =
  namespace :: string
  request_type :: string
  req_body :: "u8 list"

record protocol_response =
  status :: u8
  resp_body :: "u8 list"

definition is_success :: "protocol_response \<Rightarrow> bool" where
  "is_success r \<longleftrightarrow> status r = 0"

text \<open>The protocol key of a request, \<open>{namespace}:{request_type}\<close>.\<close>

definition request_key :: "protocol_request \<Rightarrow> string" where
  "request_key r = namespace r @ '':'' @ request_type r"

section \<open>Players\<close>

datatype player_kind = Host | Guest

definition default_player_kind :: player_kind where
  "default_player_kind = Host"

record player_info =
  pi_name :: string
  pi_machine_id :: string
  pi_easytier_id :: "string option"
  pi_vendor :: string
  pi_kind :: player_kind

record player_profile_entry =
  pe_name :: string
  pe_machine_id :: string
  pe_easytier_id :: "string option"
  pe_vendor :: string
  pe_kind :: "string option"

section \<open>EasyTier\<close>

record easy_tier_node =
  node_virtual_ip :: string
  node_hostname :: string
  node_node_id :: string

record network_config =
  network_name :: string
  network_secret :: string
  nc_hostname :: string
  no_tun :: bool
  use_smoltcp :: bool
  dhcp :: bool
  ipv4 :: "string option"
  listen_random_ports :: bool
  bind_ip :: "string option"
  tcp_whitelist :: "string list"
  port_forwards :: "string list"
  relay_nodes :: "string list option"

definition default_network_config :: network_config where
  "default_network_config =
     \<lparr> network_name = [], network_secret = [], nc_hostname = [],
       no_tun = True, use_smoltcp = False, dhcp = True, ipv4 = None,
       listen_random_ports = True, bind_ip = None,
       tcp_whitelist = [], port_forwards = [], relay_nodes = None \<rparr>"

end
