(* ===== verification/Frame_Codec.thy ===== *)
theory Frame_Codec
  imports Models
begin

text \<open>
  The wire format (\<open>core/protocol_serializer.rs\<close>): a request is
  \<open>[1B typeLen][type ASCII][4B BE bodyLen][body]\<close>, a response \<open>[1B status][4B BE bodyLen][body]\<close>.
  Both parsers of the source are here: the one over a complete buffer with a cursor, and the one
  that reads from an asynchronous stream.  The locale \<open>wire_format\<close> states what a self-delimiting
  format promises its clients; requests and responses interpret it.
\<close>

section \<open>Serialising\<close>

text \<open>Each character of the string is one byte, a question mark where it is not ASCII.\<close>

definition ascii_bytes :: "string \<Rightarrow> u8 list" where
  "ascii_bytes s =
     map (\<lambda>ch. if length ch = 1 \<and> ascii_char (hd ch) then byte (hd ch) else byte CHR ''?'') (chars s)"

definition serialize_request :: "protocol_request \<Rightarrow> u8 list" where
  "serialize_request req =
     (let type_bytes = ascii_bytes (namespace req @ '':'' @ request_type req)
      in [word_of_nat (length type_bytes)] @ type_bytes
           @ be32 (word_of_nat (length (req_body req))) @ req_body req)"

definition serialize_response :: "protocol_response \<Rightarrow> u8 list" where
  "serialize_response resp =
     [status resp] @ be32 (word_of_nat (length (resp_body resp))) @ resp_body resp"

section \<open>Parsing a complete buffer\<close>

text \<open>\<open>read_exact\<close>: the bytes read and the advanced cursor, or the early-end error.\<close>

definition read_exact :: "u8 list \<Rightarrow> nat \<Rightarrow> nat \<Rightarrow> (u8 list \<times> nat) res" where
  "read_exact bytes offset count =
     (if count = 0 then Inr ([], offset)
      else let remaining = length bytes - offset
           in if remaining < count
              then Inl (Protocol (msg_eof_expected @ show_nat count @ msg_eof_got
                          @ show_nat remaining @ msg_bytes))
              else Inr (take count (drop offset bytes), offset + count))"

definition split_type_str :: "string \<Rightarrow> (string \<times> string) res" where
  "split_type_str type_str =
     (case split_once CHR '':'' type_str of
        Some (ns, ty) \<Rightarrow> Inr (ns, ty)
      | None \<Rightarrow> Inl (Protocol (msg_bad_type @ type_str)))"

definition body_len :: "u8 list \<Rightarrow> nat" where
  "body_len len_buf = unat (from_be32 (len_buf ! 0) (len_buf ! 1) (len_buf ! 2) (len_buf ! 3))"

definition parse_request :: "u8 list \<Rightarrow> protocol_request res" where
  "parse_request bytes =
     rbind (read_exact bytes 0 1) (\<lambda>(b, offset).
     let type_len = unat (b ! 0) in
     rbind (read_exact bytes offset type_len) (\<lambda>(tb, offset).
     let type_str = from_utf8_lossy tb in
     rbind (read_exact bytes offset 4) (\<lambda>(len_buf, offset).
     rbind (read_exact bytes offset (body_len len_buf)) (\<lambda>(body, offset).
     rbind (split_type_str type_str) (\<lambda>(ns, ty).
       Inr \<lparr> namespace = ns, request_type = ty, req_body = body \<rparr>)))))"

definition parse_response :: "u8 list \<Rightarrow> protocol_response res" where
  "parse_response bytes =
     rbind (read_exact bytes 0 1) (\<lambda>(b, offset).
     let st = b ! 0 in
     rbind (read_exact bytes offset 4) (\<lambda>(len_buf, offset).
     rbind (read_exact bytes offset (body_len len_buf)) (\<lambda>(body, offset).
       Inr \<lparr> status = st, resp_body = body \<rparr>)))"

section \<open>Parsing from a stream\<close>

text \<open>
  A stream is the bytes it still delivers and how it ends after them: closed by the peer, or an
  I/O error with its message.  A short read consumes what there is.
\<close>

datatype stream_end = Closed | Failed string

record stream =
  incoming :: "u8 list"
  stream_end :: stream_end

definition read_exact_async :: "stream \<Rightarrow> nat \<Rightarrow> u8 list res \<times> stream" where
  "read_exact_async r count =
     (if count = 0 then (Inr [], r)
      else if count \<le> length (incoming r)
      then (Inr (take count (incoming r)), r\<lparr>incoming := drop count (incoming r)\<rparr>)
      else (Inl (Protocol (case stream_end r of
                   Closed \<Rightarrow> msg_eof_expected @ show_nat count @ msg_bytes
                 | Failed e \<Rightarrow> msg_read_failed @ e)),
            r\<lparr>incoming := []\<rparr>))"

text \<open>Sequencing of stream operations with the question mark operator.\<close>

definition sbind ::
  "'a res \<times> stream \<Rightarrow> ('a \<Rightarrow> stream \<Rightarrow> 'b res \<times> stream) \<Rightarrow> 'b res \<times> stream" where
  "sbind m f = (case m of (Inl e, r) \<Rightarrow> (Inl e, r) | (Inr a, r) \<Rightarrow> f a r)"

definition deserialize_request_async :: "stream \<Rightarrow> protocol_request res \<times> stream" where
  "deserialize_request_async r =
     sbind (read_exact_async r 1) (\<lambda>b r.
     let type_len = unat (b ! 0) in
     sbind (read_exact_async r type_len) (\<lambda>tb r.
     let type_str = from_utf8_lossy tb in
     sbind (read_exact_async r 4) (\<lambda>len_buf r.
     sbind (read_exact_async r (body_len len_buf)) (\<lambda>body r.
     (rbind (split_type_str type_str) (\<lambda>(ns, ty).
        Inr \<lparr> namespace = ns, request_type = ty, req_body = body \<rparr>), r)))))"

definition deserialize_response_async :: "stream \<Rightarrow> protocol_response res \<times> stream" where
  "deserialize_response_async r =
     sbind (read_exact_async r 1) (\<lambda>b r.
     let st = b ! 0 in
     sbind (read_exact_async r 4) (\<lambda>len_buf r.
     sbind (read_exact_async r (body_len len_buf)) (\<lambda>body r.
     (Inr \<lparr> status = st, resp_body = body \<rparr>, r))))"

section \<open>Self-delimiting wire formats\<close>

text \<open>Reading a number of messages one after the other, as a connection does.\<close>

fun decode_many :: "(stream \<Rightarrow> 'm res \<times> stream) \<Rightarrow> nat \<Rightarrow> stream \<Rightarrow> 'm list res \<times> stream" where
  "decode_many dec 0 r = (Inr [], r)"
| "decode_many dec (Suc n) r =
     sbind (dec r) (\<lambda>m r. sbind (decode_many dec n r) (\<lambda>ms r. (Inr (m # ms), r)))"

lemma sbind_simps [simp]:
  "sbind (Inl e, r) f = (Inl e, r)"
  "sbind (Inr a, r) f = f a r"
  by (simp_all add: sbind_def)

lemma sbind_eq_Inr:
  "sbind m f = (Inr b, r') \<longleftrightarrow> (\<exists>a r. m = (Inr a, r) \<and> f a r = (Inr b, r'))"
  by (cases m; cases "fst m") auto

text \<open>
  What the TCP server and the TCP client rely on: decoding the encoding of a well-formed message
  gives the message (up to \<open>norm\<close>, what the format makes of it) and leaves exactly the bytes after
  it; and a successful read does not depend on what the peer sends later.
\<close>

locale wire_format =
  fixes encode :: "'m \<Rightarrow> u8 list"
    and decode :: "stream \<Rightarrow> 'm res \<times> stream"
    and norm :: "'m \<Rightarrow> 'm"
    and wf :: "'m \<Rightarrow> bool"
  assumes decode_encode:
      "wf m \<Longrightarrow> decode \<lparr>incoming = encode m @ rest, stream_end = e\<rparr>
         = (Inr (norm m), \<lparr>incoming = rest, stream_end = e\<rparr>)"
    and decode_extend:
      "decode \<lparr>incoming = bs, stream_end = e\<rparr> = (Inr m, r) \<Longrightarrow>
       decode \<lparr>incoming = bs @ extra, stream_end = e'\<rparr>
         = (Inr m, \<lparr>incoming = incoming r @ extra, stream_end = e'\<rparr>)"
begin

lemma encode_norm_inject:
  assumes "wf m" and "wf m'" and "encode m @ r = encode m' @ r'"
  shows "norm m = norm m' \<and> r = r'"
  using decode_encode [OF assms(1), of r Closed] decode_encode [OF assms(2), of r' Closed] assms(3)
  by simp

lemma decode_many_encode:
  "\<forall>m \<in> set ms. wf m \<Longrightarrow>
   decode_many decode (length ms) \<lparr>incoming = concat (map encode ms) @ rest, stream_end = e\<rparr>
     = (Inr (map norm ms), \<lparr>incoming = rest, stream_end = e\<rparr>)"
  by (induction ms) (simp_all add: decode_encode)

text \<open>A frame cut short is never read as a message.\<close>

lemma decode_prefix_fails:
  assumes "wf m" and "encode m = p @ q" and "q \<noteq> []"
  shows "\<exists>err r. decode \<lparr>incoming = p, stream_end = e\<rparr> = (Inl err, r)"
proof (rule ccontr)
  assume "\<not> ?thesis"
  then obtain m' r where "decode \<lparr>incoming = p, stream_end = e\<rparr> = (Inr m', r)"
    by (metis obj_sumE surj_pair)
  then have "decode \<lparr>incoming = p @ q, stream_end = e\<rparr>
      = (Inr m', \<lparr>incoming = incoming r @ q, stream_end = e\<rparr>)"
    by (rule decode_extend)
  moreover have "decode \<lparr>incoming = p @ q, stream_end = e\<rparr>
      = (Inr (norm m), \<lparr>incoming = [], stream_end = e\<rparr>)"
    using decode_encode [OF assms(1), of "[]" e] assms(2) by simp
  ultimately show False using assms(3) by simp
qed

end

section \<open>Reading exactly\<close>

lemma read_exact_async_append [simp, wire_simps]:
  "length bs = n \<Longrightarrow> read_exact_async \<lparr>incoming = bs @ rest, stream_end = e\<rparr> n
     = (Inr bs, \<lparr>incoming = rest, stream_end = e\<rparr>)"
  by (auto simp: read_exact_async_def)

lemma read_exact_async_Cons [simp, wire_simps]:
  "read_exact_async \<lparr>incoming = b # rest, stream_end = e\<rparr> (Suc 0)
     = (Inr [b], \<lparr>incoming = rest, stream_end = e\<rparr>)"
  by (simp add: read_exact_async_def)

lemma read_exact_async_Inr:
  "read_exact_async r n = (Inr bs, r') \<longleftrightarrow>
     incoming r = bs @ incoming r' \<and> length bs = n \<and> stream_end r' = stream_end r"
  by (cases r; cases r') (auto simp: read_exact_async_def)

lemma read_exact_async_Inl:
  "read_exact_async r n = (Inl err, r') \<Longrightarrow>
     length (incoming r) < n \<and> incoming r' = [] \<and> (\<exists>msg. err = Protocol msg)"
  by (auto simp: read_exact_async_def split: if_splits)

section \<open>Requests\<close>

text \<open>What the wire makes of a string: every character that is not ASCII becomes a question mark.\<close>

definition ascii_fold :: "string \<Rightarrow> string" where
  "ascii_fold s = of_bytes (ascii_bytes s)"

definition wire_request :: "protocol_request \<Rightarrow> protocol_request" where
  "wire_request r =
     r\<lparr>namespace := ascii_fold (namespace r), request_type := ascii_fold (request_type r)\<rparr>"

text \<open>A request the format can carry.\<close>

definition wf_request :: "protocol_request \<Rightarrow> bool" where
  "wf_request r \<longleftrightarrow>
     valid_str (request_type r) \<and> CHR '':'' \<notin> set (namespace r)
   \<and> length (ascii_bytes (request_key r)) < 256 \<and> length (req_body r) < 2 ^ 32"

lemma byte_colon [simp]: "byte CHR '':'' = 58"
  by (simp add: byte_def)

lemma byte_question [simp]: "byte CHR ''?'' = 63"
  by (simp add: byte_def)

lemma chr_colon [simp]: "chr 58 = CHR '':''"
  by (metis byte_colon chr_byte)

lemma chr_question [simp]: "chr 63 = CHR ''?''"
  by (metis byte_question chr_byte)

lemma not_cont_colon [simp]: "\<not> cont_char CHR '':''"
  by (rule ascii_not_cont) (simp add: ascii_char_def)

lemma ascii_bytes_colon:
  "valid_str ty \<Longrightarrow> ascii_bytes (ns @ CHR '':'' # ty) = ascii_bytes ns @ byte CHR '':'' # ascii_bytes ty"
  by (simp add: ascii_bytes_def chars_append chars_ascii_Cons del: chars.simps)

lemma ascii_bytes_ascii: "list_all (\<lambda>b. b < 128) (ascii_bytes s)"
  by (auto simp: ascii_bytes_def list_all_iff ascii_char_def)

lemma ascii_bytes_id: "ascii_str s \<Longrightarrow> ascii_bytes s = into_bytes s"
  by (auto simp: ascii_bytes_def chars_ascii into_bytes_def ascii_str_def list_all_iff)

lemma ascii_fold_id [simp]: "ascii_str s \<Longrightarrow> ascii_fold s = s"
  by (simp add: ascii_fold_def ascii_bytes_id)

lemma set_chars_single: "[c] \<in> set (chars s) \<Longrightarrow> c \<in> set s"
  by (metis concat_chars in_set_conv_decomp concat_append concat.simps(2) in_set_conv_decomp
      append_Cons append_Nil)

lemma ascii_fold_no_colon:
  assumes "CHR '':'' \<notin> set s" shows "CHR '':'' \<notin> set (ascii_fold s)"
proof
  assume "CHR '':'' \<in> set (ascii_fold s)"
  then obtain ch where ch: "ch \<in> set (chars s)" and
    eq: "CHR '':'' = chr (if length ch = 1 \<and> ascii_char (hd ch) then byte (hd ch) else byte CHR ''?'')"
    by (auto simp: ascii_fold_def of_bytes_def ascii_bytes_def)
  from eq have "length ch = 1" and "hd ch = CHR '':''"
    by (auto split: if_splits)
  then have "ch = [CHR '':'']" by (cases ch) auto
  with ch assms show False by (auto dest: set_chars_single)
qed

lemma from_utf8_lossy_ascii: "list_all (\<lambda>b. b < 128) bs \<Longrightarrow> from_utf8_lossy bs = of_bytes bs"
  by (simp add: from_utf8_lossy_valid valid_utf8_ascii)

lemma body_len_be32 [simp]:
  "n < 2 ^ 32 \<Longrightarrow> body_len (be32 (word_of_nat n)) = n"
  by (simp add: body_len_def unat_of_nat_small)

lemma split_type_str_key:
  assumes "CHR '':'' \<notin> set (namespace r)" and "valid_str (request_type r)"
  shows "split_type_str (from_utf8_lossy (ascii_bytes (request_key r)))
    = Inr (ascii_fold (namespace r), ascii_fold (request_type r))"
proof -
  have "from_utf8_lossy (ascii_bytes (request_key r))
      = of_bytes (ascii_bytes (request_key r))"
    by (simp add: from_utf8_lossy_ascii ascii_bytes_ascii)
  also have "\<dots> = ascii_fold (namespace r) @ CHR '':'' # ascii_fold (request_type r)"
    using assms(2) by (simp add: request_key_def ascii_bytes_colon ascii_fold_def of_bytes_def)
  finally show ?thesis
    using assms(1) by (simp add: split_type_str_def split_once_append ascii_fold_no_colon)
qed

lemma deserialize_request_Inr:
  "deserialize_request_async r = (Inr m, r') \<longleftrightarrow>
     (\<exists>l tb lb. incoming r = l # tb @ lb @ req_body m @ incoming r'
        \<and> length tb = unat l \<and> length lb = 4 \<and> length (req_body m) = body_len lb
        \<and> split_type_str (from_utf8_lossy tb) = Inr (namespace m, request_type m)
        \<and> stream_end r' = stream_end r)"
    (is "?lhs \<longleftrightarrow> ?rhs")
proof
  assume ?lhs
  then show ?rhs
    by (clarsimp simp: deserialize_request_async_def sbind_eq_Inr rbind_eq_Inr
        read_exact_async_Inr length_Suc_conv) blast
next
  assume ?rhs
  then obtain l tb lb where
    "r = \<lparr>incoming = l # tb @ lb @ req_body m @ incoming r', stream_end = stream_end r'\<rparr>"
    and len: "length tb = unat l" "length lb = 4" "length (req_body m) = body_len lb"
    and split: "split_type_str (from_utf8_lossy tb) = Inr (namespace m, request_type m)"
    by (cases r) auto
  then show ?lhs by (simp add: deserialize_request_async_def)
qed

lemma serialize_request_alt:
  "serialize_request r = word_of_nat (length (ascii_bytes (request_key r)))
     # ascii_bytes (request_key r) @ be32 (word_of_nat (length (req_body r))) @ req_body r"
  by (simp add: serialize_request_def request_key_def Let_def)

lemma wire_request_sel [simp]:
  "namespace (wire_request r) = ascii_fold (namespace r)"
  "request_type (wire_request r) = ascii_fold (request_type r)"
  "req_body (wire_request r) = req_body r"
  by (simp_all add: wire_request_def)

lemma wire_request_id [simp]:
  "ascii_str (namespace r) \<Longrightarrow> ascii_str (request_type r) \<Longrightarrow> wire_request r = r"
  by (simp add: wire_request_def)

interpretation request_frames: wire_format
  serialize_request deserialize_request_async wire_request wf_request
proof unfold_locales
  fix m rest e
  assume "wf_request m"
  then show "deserialize_request_async \<lparr>incoming = serialize_request m @ rest, stream_end = e\<rparr>
      = (Inr (wire_request m), \<lparr>incoming = rest, stream_end = e\<rparr>)"
    unfolding deserialize_request_Inr wf_request_def serialize_request_alt
    by (intro exI) (auto simp: split_type_str_key unat_of_nat_small)
next
  fix bs e m r extra e'
  assume "deserialize_request_async \<lparr>incoming = bs, stream_end = e\<rparr> = (Inr m, r)"
  then show "deserialize_request_async \<lparr>incoming = bs @ extra, stream_end = e'\<rparr>
      = (Inr m, \<lparr>incoming = incoming r @ extra, stream_end = e'\<rparr>)"
    unfolding deserialize_request_Inr by auto
qed

section \<open>Responses\<close>

definition wf_response :: "protocol_response \<Rightarrow> bool" where
  "wf_response r \<longleftrightarrow> length (resp_body r) < 2 ^ 32"

lemma deserialize_response_Inr:
  "deserialize_response_async r = (Inr m, r') \<longleftrightarrow>
     (\<exists>lb. incoming r = status m # lb @ resp_body m @ incoming r'
        \<and> length lb = 4 \<and> length (resp_body m) = body_len lb \<and> stream_end r' = stream_end r)"
    (is "?lhs \<longleftrightarrow> ?rhs")
proof
  assume ?lhs
  then show ?rhs
    by (clarsimp simp: deserialize_response_async_def sbind_eq_Inr
        read_exact_async_Inr length_Suc_conv)
next
  assume ?rhs
  then obtain lb where
    "r = \<lparr>incoming = status m # lb @ resp_body m @ incoming r', stream_end = stream_end r'\<rparr>"
    and "length lb = 4" "length (resp_body m) = body_len lb"
    by (cases r) auto
  then show ?lhs by (simp add: deserialize_response_async_def)
qed

interpretation response_frames: wire_format
  serialize_response deserialize_response_async "\<lambda>m. m" wf_response
proof unfold_locales
  fix m rest e
  assume "wf_response m"
  then show "deserialize_response_async \<lparr>incoming = serialize_response m @ rest, stream_end = e\<rparr>
      = (Inr m, \<lparr>incoming = rest, stream_end = e\<rparr>)"
    unfolding deserialize_response_Inr wf_response_def serialize_response_def
    by (intro exI) auto
next
  fix bs e m r extra e'
  assume "deserialize_response_async \<lparr>incoming = bs, stream_end = e\<rparr> = (Inr m, r)"
  then show "deserialize_response_async \<lparr>incoming = bs @ extra, stream_end = e'\<rparr>
      = (Inr m, \<lparr>incoming = incoming r @ extra, stream_end = e'\<rparr>)"
    unfolding deserialize_response_Inr by auto
qed

section \<open>The two parsers agree\<close>

text \<open>
  The same value, or a protocol error on both sides: the two readers word the early end of the
  input differently (the asynchronous one cannot count the bytes it got).
\<close>

definition same_outcome :: "'a res \<Rightarrow> 'a res \<Rightarrow> bool" where
  "same_outcome a b \<longleftrightarrow>
     (case a of
        Inr x \<Rightarrow> b = Inr x
      | Inl e \<Rightarrow> (\<exists>msg msg'. e = Protocol msg \<and> b = Inl (Protocol msg')))"

lemma same_outcome_refl:
  "(\<And>e. a = Inl e \<Longrightarrow> \<exists>msg. e = Protocol msg) \<Longrightarrow> same_outcome a a"
  by (cases a) (auto simp: same_outcome_def)

lemma same_outcome_bind:
  assumes "offset \<le> length bytes"
    and "\<And>b offset'. length b = count \<Longrightarrow> offset' \<le> length bytes \<Longrightarrow>
           same_outcome (f (b, offset')) (fst (g b \<lparr>incoming = drop offset' bytes, stream_end = e\<rparr>))"
  shows "same_outcome (rbind (read_exact bytes offset count) f)
           (fst (sbind (read_exact_async \<lparr>incoming = drop offset bytes, stream_end = e\<rparr> count) g))"
proof (cases "count \<le> length bytes - offset")
  case True
  with assms(1) show ?thesis
    using assms(2) [of "take count (drop offset bytes)" "offset + count"]
    by (auto simp: read_exact_def read_exact_async_def add.commute)
next
  case False
  then show ?thesis
    by (auto simp: read_exact_def read_exact_async_def Let_def same_outcome_def split: stream_end.splits)
qed

lemma same_outcome_split:
  "same_outcome (rbind (split_type_str s) (\<lambda>(ns, ty). Inr (f ns ty)))
                (rbind (split_type_str s) (\<lambda>(ns, ty). Inr (f ns ty)))"
  by (rule same_outcome_refl)
    (auto simp: split_type_str_def rbind_eq_Inl split: option.splits)

lemma same_outcome_value [simp]: "same_outcome (Inr x) (Inr x)"
  by (simp add: same_outcome_def)

lemma parse_request_agrees:
  "same_outcome (parse_request bytes)
     (fst (deserialize_request_async \<lparr>incoming = bytes, stream_end = e\<rparr>))"
  by (auto simp: parse_request_def deserialize_request_async_def Let_def
      intro!: same_outcome_bind [of 0, simplified] same_outcome_bind same_outcome_split)

lemma parse_response_agrees:
  "same_outcome (parse_response bytes)
     (fst (deserialize_response_async \<lparr>incoming = bytes, stream_end = e\<rparr>))"
  by (auto simp: parse_response_def deserialize_response_async_def Let_def
      intro!: same_outcome_bind [of 0, simplified] same_outcome_bind)

lemma same_outcome_Inr: "same_outcome a b \<Longrightarrow> b = Inr x \<longleftrightarrow> a = Inr x"
  by (cases a) (auto simp: same_outcome_def)

lemma parse_request_Inr:
  "parse_request bytes = Inr m \<longleftrightarrow>
     (\<exists>r. deserialize_request_async \<lparr>incoming = bytes, stream_end = Closed\<rparr> = (Inr m, r))"
  using same_outcome_Inr [OF parse_request_agrees, of bytes Closed m]
  by (metis fst_conv surj_pair)

section \<open>Properties\<close>

text \<open>
  C11: any number of requests that the format can carry (a key of less than 256 characters, no colon
  in the namespace, a body of less than 2^32 bytes), written back to back on one connection, are
  read back in order, each with its non-ASCII characters replaced by question marks and its body
  unchanged, and the bytes after them stay in the stream.
\<close>

theorem request_pipeline_roundtrip:
  assumes "\<forall>r \<in> set reqs. wf_request r"
  shows "decode_many deserialize_request_async (length reqs)
      \<lparr>incoming = concat (map serialize_request reqs) @ rest, stream_end = e\<rparr>
    = (Inr (map wire_request reqs), \<lparr>incoming = rest, stream_end = e\<rparr>)"
  using assms by (rule request_frames.decode_many_encode)

definition sample_request :: protocol_request where
  "sample_request = \<lparr> namespace = ''c'', request_type = ''ping'', req_body = [1, 2, 3] \<rparr>"

lemma sample_request_wf: "wf_request sample_request"
  by (simp add: wf_request_def sample_request_def request_key_def valid_str_ascii ascii_bytes_id)

theorem request_pipeline_roundtrip_witness:
  "decode_many deserialize_request_async 2
      \<lparr>incoming = serialize_request sample_request @ serialize_request sample_request @ [7],
       stream_end = Closed\<rparr>
    = (Inr [sample_request, sample_request], \<lparr>incoming = [7], stream_end = Closed\<rparr>)"
  using request_pipeline_roundtrip [of "[sample_request, sample_request]" "[7]" Closed]
  by (simp add: sample_request_wf numeral_2_eq_2 del: decode_many.simps)
    (simp add: sample_request_def)

text \<open>
  Any number of responses written back to back are read back in order and unchanged, for every
  status byte and every body shorter than 2 to the 32.
\<close>

lemma response_pipeline_roundtrip:
  assumes "\<forall>r \<in> set resps. wf_response r"
  shows "decode_many deserialize_response_async (length resps)
      \<lparr>incoming = concat (map serialize_response resps) @ rest, stream_end = e\<rparr>
    = (Inr resps, \<lparr>incoming = rest, stream_end = e\<rparr>)"
  using response_frames.decode_many_encode [OF assms] by simp

text \<open>
  C39: Whatever bytes a peer sends, a request that is read is well typed: its namespace and its type
  are valid UTF-8 strings, the namespace has no colon, the body is shorter than 2 to the 32; and the
  reader has consumed a frame of at least six bytes besides the body, so it always makes progress.
\<close>

theorem read_requests_are_typed:
  assumes "deserialize_request_async r = (Inr q, r')"
  shows "valid_str (namespace q) \<and> valid_str (request_type q) \<and> CHR '':'' \<notin> set (namespace q)
    \<and> length (req_body q) < 2 ^ 32 \<and> length (incoming r') + length (req_body q) + 6 \<le> length (incoming r)"
proof -
  obtain l tb lb where bytes: "incoming r = l # tb @ lb @ req_body q @ incoming r'" "length lb = 4"
    and len: "length (req_body q) = body_len lb"
    and "split_type_str (from_utf8_lossy tb) = Inr (namespace q, request_type q)"
    using assms by (auto simp: deserialize_request_Inr)
  then have split: "split_once CHR '':'' (from_utf8_lossy tb) = Some (namespace q, request_type q)"
    by (auto simp: split_type_str_def split: option.splits prod.splits)
  then have "tb \<noteq> []" by auto
  with bytes have "length (incoming r') + length (req_body q) + 6 \<le> length (incoming r)" by (cases tb) auto
  moreover have "length (req_body q) < 2 ^ 32"
    unfolding len body_len_def using unsigned_less [where 'a = nat and 'b = 32] by simp
  ultimately show ?thesis
    using valid_str_split_once [OF valid_str_from_utf8_lossy split] split by (simp add: split_once_Some)
qed

theorem read_requests_are_typed_witness:
  "valid_str (namespace sample_request) \<and> CHR '':'' \<notin> set (namespace sample_request)"
proof -
  have "deserialize_request_async \<lparr>incoming = serialize_request sample_request @ [], stream_end = Closed\<rparr>
      = (Inr (wire_request sample_request), \<lparr>incoming = [], stream_end = Closed\<rparr>)"
    by (rule request_frames.decode_encode [OF sample_request_wf])
  from read_requests_are_typed [OF this] show ?thesis by (simp add: sample_request_def)
qed

text \<open>
  A request whose bytes stop before the end of its frame is never taken for a request, however
  the connection ends, neither by the stream reader nor by the buffer reader.
\<close>

lemma request_truncated_rejected:
  assumes "wf_request r" and "serialize_request r = p @ q" and "q \<noteq> []"
  shows "\<not> is_ok (fst (deserialize_request_async \<lparr>incoming = p, stream_end = e\<rparr>))
       \<and> \<not> is_ok (parse_request p)"
proof -
  have "\<not> is_ok (fst (deserialize_request_async \<lparr>incoming = p, stream_end = e'\<rparr>))" for e'
    using request_frames.decode_prefix_fails [OF assms, of e'] by auto
  moreover from this [of Closed] have "\<not> is_ok (parse_request p)"
    by (auto simp: is_ok_iff parse_request_Inr)
  ultimately show ?thesis by blast
qed

text \<open>
  C38: the reader over a complete buffer and the reader over a stream are equivalent: on the same
  bytes they return the same request or response, or both report a protocol error.
\<close>

theorem parsers_agree:
  "same_outcome (parse_request bytes)
     (fst (deserialize_request_async \<lparr>incoming = bytes, stream_end = e\<rparr>))
 \<and> same_outcome (parse_response bytes)
     (fst (deserialize_response_async \<lparr>incoming = bytes, stream_end = e\<rparr>))"
  by (simp add: parse_request_agrees parse_response_agrees)

text \<open>
  The length byte is truncated without a check, so a request whose key is 256 characters or
  longer is never read back as itself: the reader sees another key or fails.
\<close>

lemma long_key_lost:
  assumes "256 \<le> length (ascii_bytes (request_key r))"
  shows "map_sum id request_key (parse_request (serialize_request r))
    \<noteq> Inr (ascii_fold (request_key r))"
proof
  let ?k = "ascii_bytes (request_key r)"
  assume "map_sum id request_key (parse_request (serialize_request r)) = Inr (ascii_fold (request_key r))"
  then obtain m where ok: "parse_request (serialize_request r) = Inr m"
    and key: "request_key m = ascii_fold (request_key r)"
    by (cases "parse_request (serialize_request r)") auto
  from ok obtain l tb lb rest where
    frame: "serialize_request r = l # tb @ lb @ rest" and len: "length tb = unat l"
    and split: "split_type_str (from_utf8_lossy tb) = Inr (namespace m, request_type m)"
    unfolding parse_request_Inr deserialize_request_Inr by auto
  have "l = word_of_nat (length ?k)"
    using frame by (simp add: serialize_request_alt)
  then have l: "unat l = length ?k mod 256"
    by (simp add: unat_of_nat take_bit_eq_mod)
  have "tb @ lb @ rest = ?k @ be32 (word_of_nat (length (req_body r))) @ req_body r"
    using frame by (simp add: serialize_request_alt)
  moreover have "length tb \<le> length ?k" using l len by simp
  ultimately have "tb = take (length tb) ?k"
    by (auto simp: append_eq_append_conv_if split: if_splits)
  then have "list_all (\<lambda>b. b < 128) tb"
    using ascii_bytes_ascii [of "request_key r"]
    by (metis in_set_takeD list_all_iff)
  with split have "request_key m = of_bytes tb"
    by (auto simp: from_utf8_lossy_ascii split_type_str_def split_once_Some request_key_def
        split: option.splits)
  then have "length (request_key m) < length (ascii_fold (request_key r))"
    using assms l len by (simp add: of_bytes_def ascii_fold_def)
  with key show False by simp
qed

end
