(* ===== verification/External.thy ===== *)
theory External
  imports Models
begin

text \<open>
  Interfaces of code that is not part of the repository.  The crates \<open>regex\<close> and \<open>serde_json\<close>
  appear in the model as values of the types below, passed as arguments to the definitions that
  use them; what a theorem relies on is a named predicate over such a value, stating documented
  behaviour of the crate.
\<close>

section \<open>The crate regex\<close>

text \<open>
  \<open>Regex::new(pattern).captures(text)\<close>: the texts of the capture groups 1, 2, \<open>\<dots>\<close> of the match,
  if there is one.
\<close>

type_synonym regex_engine = "string \<Rightarrow> string \<Rightarrow> string list option"

section \<open>The crate serde\_json\<close>

text \<open>
  \<open>'v\<close> is \<open>serde_json::Value\<close>.  \<open>sj_from_slice\<close> parses a buffer (an error shows as its text),
  \<open>sj_get\<close> is \<open>Value::get\<close> with a string index, \<open>sj_as_str\<close>, \<open>sj_as_i64\<close>, \<open>sj_as_u64\<close>, \<open>sj_as_array\<close>
  and \<open>sj_as_object\<close> are the accessors (an object given by its lookup), \<open>sj_f64_text\<close> is \<open>as_f64\<close>
  followed by the \<open>Display\<close> of the number, and the last two are \<open>to_vec\<close> of one profile entry and
  of a list of them.
\<close>

record 'v serde_json =
  sj_from_slice :: "u8 list \<Rightarrow> string + 'v"
  sj_get :: "'v \<Rightarrow> string \<Rightarrow> 'v option"
  sj_as_str :: "'v \<Rightarrow> string option"
  sj_as_i64 :: "'v \<Rightarrow> int option"
  sj_as_u64 :: "'v \<Rightarrow> nat option"
  sj_f64_text :: "'v \<Rightarrow> string option"
  sj_as_array :: "'v \<Rightarrow> 'v list option"
  sj_as_object :: "'v \<Rightarrow> (string \<rightharpoonup> 'v) option"
  sj_entry_to_vec :: "player_profile_entry \<Rightarrow> string + u8 list"
  sj_entries_to_vec :: "player_profile_entry list \<Rightarrow> string + u8 list"

text \<open>For the concrete instances: a reader of JSON bodies that takes the whole body as the machine id.\<close>

definition body_json :: "string serde_json" where
  "body_json =
     \<lparr> sj_from_slice = (\<lambda>bs. Inr (of_bytes bs)),
       sj_get = (\<lambda>v key. if key = ''machine_id'' then Some v else None),
       sj_as_str = Some, sj_as_i64 = (\<lambda>_. None), sj_as_u64 = (\<lambda>_. None),
       sj_f64_text = (\<lambda>_. None), sj_as_array = (\<lambda>_. None), sj_as_object = (\<lambda>_. None),
       sj_entry_to_vec = (\<lambda>_. Inl []), sj_entries_to_vec = (\<lambda>_. Inl []) \<rparr>"

end
