(* ===== verification/Regex_Syntax.thy ===== *)
theory Regex_Syntax
  imports External
begin

text \<open>
  The documented reading of the patterns the repository gives to the crate \<open>regex\<close>, as far as room
  codes need it: between \<open>^\<close> and \<open>$\<close>, literal characters and capture groups \<open>([class]{n})\<close>.  The
  pattern text is parsed here, and a text is matched against what was parsed; an engine is assumed to
  agree with this on every pattern of the form.
\<close>

section \<open>Patterns\<close>

datatype rx_item =
    Lit char
  | Counted "(char \<times> char) list" nat

definition in_span :: "char \<Rightarrow> char \<Rightarrow> char \<Rightarrow> bool" where
  "in_span lo hi c \<longleftrightarrow> (of_char lo :: nat) \<le> of_char c \<and> (of_char c :: nat) \<le> of_char hi"

text \<open>Characters without a meaning of their own, in a class and outside of one.\<close>

definition rx_plain :: "char \<Rightarrow> bool" where
  "rx_plain c \<longleftrightarrow> in_span CHR ''A'' CHR ''Z'' c \<or> in_span CHR ''a'' CHR ''z'' c \<or> in_span CHR ''0'' CHR ''9'' c"

definition rx_literal :: "char \<Rightarrow> bool" where
  "rx_literal c \<longleftrightarrow> rx_plain c \<or> c = CHR ''/'' \<or> c = CHR ''-''"

text \<open>The members of a class up to its closing bracket: single characters and spans.\<close>

fun rx_class :: "string \<Rightarrow> ((char \<times> char) list \<times> string) option" where
  "rx_class [] = None"
| "rx_class [c] = (if c = CHR '']'' then Some ([], []) else None)"
| "rx_class (c # d # s) =
     (if c = CHR '']'' then Some ([], d # s)
      else if \<not> rx_plain c then None
      else if d = CHR ''-'' then
        (case s of
           [] \<Rightarrow> None
         | b # s' \<Rightarrow>
             if rx_plain b \<and> (of_char c :: nat) \<le> of_char b
             then map_option (apfst (Cons (c, b))) (rx_class s') else None)
      else map_option (apfst (Cons (c, c))) (rx_class (d # s)))"

lemma rx_class_shorter: "rx_class s = Some (ranges, rest) \<Longrightarrow> length rest < length s"
proof (induction s arbitrary: ranges rest rule: rx_class.induct)
  case (3 c d s)
  then show ?case by (force split: if_splits list.splits)
qed (auto split: if_splits)

text \<open>A capture group, after its opening parenthesis.\<close>

definition rx_group :: "string \<Rightarrow> (rx_item \<times> string) option" where
  "rx_group s =
     (case s of
        [] \<Rightarrow> None
      | c # s \<Rightarrow>
          if c \<noteq> CHR ''['' then None
          else (case rx_class s of
                  Some (ranges, b # n # e # f # rest) \<Rightarrow>
                    if ranges \<noteq> [] \<and> b = CHR ''{'' \<and> in_span CHR ''0'' CHR ''9'' n \<and> e = CHR ''}'' \<and> f = CHR '')''
                    then Some (Counted ranges (of_char n - of_char CHR ''0''), rest) else None
                | _ \<Rightarrow> None))"

lemma rx_group_shorter: "rx_group s = Some (g, rest) \<Longrightarrow> length rest < length s"
  by (auto simp: rx_group_def split: list.splits if_splits option.splits prod.splits dest!: rx_class_shorter)

function rx_items :: "string \<Rightarrow> rx_item list option" where
  "rx_items s =
     (case s of
        [] \<Rightarrow> None
      | c # s \<Rightarrow>
          if c = CHR ''$'' then (if s = [] then Some [] else None)
          else if c = CHR ''('' then
            (case rx_group s of
               None \<Rightarrow> None
             | Some (g, rest) \<Rightarrow> map_option (Cons g) (rx_items rest))
          else if rx_literal c then map_option (Cons (Lit c)) (rx_items s) else None)"
  by pat_completeness auto

termination
  by (relation "measure length") (auto dest: rx_group_shorter)

declare rx_items.simps [simp del]

definition rx_parse :: "string \<Rightarrow> rx_item list option" where
  "rx_parse pat = (case pat of [] \<Rightarrow> None | c # s \<Rightarrow> if c = CHR ''^'' then rx_items s else None)"

section \<open>Matching\<close>

text \<open>The whole text against the items; the result is the texts of the groups.\<close>

fun rx_match :: "rx_item list \<Rightarrow> string \<Rightarrow> string list option" where
  "rx_match [] s = (if s = [] then Some [] else None)"
| "rx_match (Lit c # items) s =
     (case s of [] \<Rightarrow> None | d # s' \<Rightarrow> if d = c then rx_match items s' else None)"
| "rx_match (Counted ranges n # items) s =
     (if n \<le> length s \<and> list_all (\<lambda>c. list_ex (\<lambda>(lo, hi). in_span lo hi c) ranges) (take n s)
      then map_option (Cons (take n s)) (rx_match items (drop n s)) else None)"

text \<open>Documented behaviour of \<open>Regex::captures\<close> on patterns of this form.\<close>

definition engine_reads_patterns :: "regex_engine \<Rightarrow> bool" where
  "engine_reads_patterns rx \<longleftrightarrow> (\<forall>pat items s. rx_parse pat = Some items \<longrightarrow> rx pat s = rx_match items s)"

text \<open>For the concrete instances: an engine that knows these patterns and no others.\<close>

definition pattern_engine :: regex_engine where
  "pattern_engine pat s = (case rx_parse pat of Some items \<Rightarrow> rx_match items s | None \<Rightarrow> None)"

lemma pattern_engine_reads [simp]: "engine_reads_patterns pattern_engine"
  by (simp add: engine_reads_patterns_def pattern_engine_def)

end
