(* ===== verification/Room_Code.thy ===== *)
theory Room_Code
  imports Regex_Syntax
begin

text \<open>
  Room codes (\<open>models/room_code.rs\<close>): the pattern, parsing, the base-34 encoding of random bytes,
  the checksum, and the generator, whose two rejection loops draw from a random source and may in
  principle not end (\<open>partial_function\<close>).  The regex engine and the random source are parameters.
\<close>

section \<open>The pattern and the alphabet\<close>

definition prefix_U :: string where
  "prefix_U = ''U/''"

definition room_chars :: string where
  "room_chars = ''0123456789ABCDEFGHJKLMNPQRSTUVWXYZ''"

definition room_pattern :: string where
  "room_pattern = ''^U/([A-HJ-NP-Z0-9]{4})-([A-HJ-NP-Z0-9]{4})-([A-HJ-NP-Z0-9]{4})-([A-HJ-NP-Z0-9]{4})$''"

text \<open>The text of a code from its four groups.\<close>

definition room_text :: "string \<Rightarrow> string \<Rightarrow> string \<Rightarrow> string \<Rightarrow> string" where
  "room_text a b c d = prefix_U @ a @ ''-'' @ b @ ''-'' @ c @ ''-'' @ d"

text \<open>
  What the pattern means: the class, and the anchored match with its groups.  That an engine which
  reads patterns as documented reads this one so is \<open>room_pattern_meaning\<close> below.
\<close>

definition in_room_class :: "char \<Rightarrow> bool" where
  "in_room_class c \<longleftrightarrow>
     (let n = (of_char c :: nat)
      in (65 \<le> n \<and> n \<le> 72) \<or> (74 \<le> n \<and> n \<le> 78) \<or> (80 \<le> n \<and> n \<le> 90) \<or> (48 \<le> n \<and> n \<le> 57))"

definition room_group :: "string \<Rightarrow> bool" where
  "room_group g \<longleftrightarrow> length g = 4 \<and> list_all in_room_class g"

definition room_groups :: "string \<Rightarrow> string list option" where
  "room_groups s =
     (let a = take 4 (drop 2 s); b = take 4 (drop 7 s);
          c = take 4 (drop 12 s); d = take 4 (drop 17 s)
      in if s = room_text a b c d
            \<and> room_group a \<and> room_group b \<and> room_group c \<and> room_group d
         then Some [a, b, c, d] else None)"

definition engine_reads_room_pattern :: "regex_engine \<Rightarrow> bool" where
  "engine_reads_room_pattern rx \<longleftrightarrow> (\<forall>s. rx room_pattern s = room_groups s)"

section \<open>Parsing\<close>

record room_code =
  raw :: string
  network_name_part :: string
  secret_part :: string

definition easy_tier_network_name :: "room_code \<Rightarrow> string" where
  "easy_tier_network_name rc = ''scaffolding-mc-'' @ network_name_part rc"

definition easy_tier_network_secret :: "room_code \<Rightarrow> string" where
  "easy_tier_network_secret rc = secret_part rc"

definition parse :: "regex_engine \<Rightarrow> string \<Rightarrow> room_code res" where
  "parse rx code =
     rbind (ok_or (RoomCodeInvalid (msg_room_code_invalid @ code)) (rx room_pattern code)) (\<lambda>caps.
       let network_part = caps ! 0 @ ''-'' @ caps ! 1;
           secret_part = caps ! 2 @ ''-'' @ caps ! 3
       in Inr \<lparr> raw = code, network_name_part = network_part, secret_part = secret_part \<rparr>)"

section \<open>Generating\<close>

definition encode8 :: "u8 list \<Rightarrow> string" where
  "encode8 bytes = map (\<lambda>b. room_chars ! (unat b mod length room_chars)) bytes"

text \<open>
  The loop of \<open>validate_checksum\<close>: \<open>i\<close> is the index of the character, \<open>value\<close> the alternating sum.
  Rust's \<open>%\<close> truncates towards zero; it is zero exactly when \<open>mod\<close> is.
\<close>

fun checksum_from :: "nat \<Rightarrow> int \<Rightarrow> string list \<Rightarrow> int option" where
  "checksum_from i value [] = Some value"
| "checksum_from i value (ch # rest) =
     (case position (\<lambda>x. [x] = ch) room_chars of
        None \<Rightarrow> None
      | Some digit \<Rightarrow>
          checksum_from (Suc i) (value + (if i mod 2 = 0 then int digit else - int digit)) rest)"

definition validate_checksum :: "string \<Rightarrow> bool" where
  "validate_checksum s =
     (case checksum_from 0 0 (chars s) of None \<Rightarrow> False | Some value \<Rightarrow> value mod 7 = 0)"

text \<open>
  \<open>rng k\<close> is the \<open>k\<close>-th buffer the random source fills.  One rejection loop, started at the buffer
  \<open>k\<close>: the first encoded buffer whose checksum passes, and the number of the next buffer.
\<close>

partial_function (option) draw_part :: "(nat \<Rightarrow> u8 list) \<Rightarrow> nat \<Rightarrow> (string \<times> nat) option" where
  "draw_part rng k =
     (let part = encode8 (rng k)
      in if validate_checksum part then Some (part, Suc k) else draw_part rng (Suc k))"

text \<open>The generator: \<open>None\<close> if a loop never ends, \<open>Inl\<close> where the final \<open>expect\<close> panics.\<close>

definition generate :: "regex_engine \<Rightarrow> (nat \<Rightarrow> u8 list) \<Rightarrow> nat \<Rightarrow> (room_code res \<times> nat) option" where
  "generate rx rng k =
     Option.bind (draw_part rng k) (\<lambda>(part1, k).
     Option.bind (draw_part rng k) (\<lambda>(part2, k).
       let raw = room_text (take 4 part1) (drop 4 part1) (take 4 part2) (drop 4 part2)
       in Some (parse rx raw, k)))"

text \<open>Documented behaviour of \<open>fill\<close> on an array of eight bytes: all eight are written.\<close>

definition fills_eight :: "(nat \<Rightarrow> u8 list) \<Rightarrow> bool" where
  "fills_eight rng \<longleftrightarrow> (\<forall>k. length (rng k) = 8)"

section \<open>The alphabet and the pattern agree\<close>

lemma length_room_chars [simp]: "length room_chars = 34"
  by (simp add: room_chars_def)

lemma room_chars_in_class: "list_all in_room_class room_chars"
  by (simp add: room_chars_def in_room_class_def)

text \<open>The class of the pattern has exactly the characters of the alphabet.\<close>

lemma in_room_class_chars: "in_room_class c \<longleftrightarrow> c \<in> set room_chars"
proof
  have codes: "map of_char room_chars = [48 ..< 58] @ [65 ..< 73] @ [74 ..< 79] @ [80 ..< 91 :: nat]"
    by (simp add: room_chars_def upt_conv_Cons)
  show "c \<in> set room_chars" if "in_room_class c"
  proof -
    have "(of_char c :: nat) \<in> set ([48 ..< 58] @ [65 ..< 73] @ [74 ..< 79] @ [80 ..< 91])"
      using that unfolding in_room_class_def Let_def set_append set_upt Un_iff atLeastLessThan_iff by linarith
    then have "(of_char c :: nat) \<in> of_char ` set room_chars" unfolding codes [symmetric] by simp
    then show ?thesis by (auto simp: image_iff)
  qed
  show "in_room_class c" if "c \<in> set room_chars"
    using that room_chars_in_class by (simp add: list_all_iff)
qed

lemma room_group_chars: "room_group g \<longleftrightarrow> length g = 4 \<and> set g \<subseteq> set room_chars"
  by (auto simp: room_group_def list_all_iff in_room_class_chars)

lemma encode8_in_class: "list_all in_room_class (encode8 bytes)"
proof -
  have "room_chars ! (unat b mod 34) \<in> set room_chars" for b :: u8
    by (rule nth_mem) simp
  then show ?thesis
    using room_chars_in_class by (auto simp: encode8_def list_all_iff)
qed

lemma room_groups_Some:
  "room_groups s = Some gs \<longleftrightarrow>
     (\<exists>a b c d. gs = [a, b, c, d] \<and> s = room_text a b c d
        \<and> room_group a \<and> room_group b \<and> room_group c \<and> room_group d)"
    (is "_ \<longleftrightarrow> ?rhs")
proof
  assume "room_groups s = Some gs"
  then show ?rhs by (auto simp: room_groups_def Let_def split: if_splits)
next
  assume ?rhs
  then obtain a b c d where gs: "gs = [a, b, c, d]"
    and s: "s = room_text a b c d"
    and g: "room_group a" "room_group b" "room_group c" "room_group d" by blast
  then have "length a = 4" "length b = 4" "length c = 4" "length d = 4"
    by (simp_all add: room_group_def)
  then have "take 4 (drop 2 s) = a" "take 4 (drop 7 s) = b" "take 4 (drop 12 s) = c"
    "take 4 (drop 17 s) = d"
    by (simp_all add: s room_text_def prefix_U_def drop_Cons' numeral_eq_Suc)
  with gs s g show "room_groups s = Some gs"
    by (simp add: room_groups_def)
qed

text \<open>The pattern text, read.\<close>

definition room_items :: "rx_item list" where
  "room_items =
     (let group = Counted [(CHR ''A'', CHR ''H''), (CHR ''J'', CHR ''N''), (CHR ''P'', CHR ''Z''), (CHR ''0'', CHR ''9'')] 4
      in [Lit CHR ''U'', Lit CHR ''/'', group, Lit CHR ''-'', group, Lit CHR ''-'', group, Lit CHR ''-'', group])"

lemma rx_parse_room_pattern: "rx_parse room_pattern = Some room_items"
  by code_simp

lemma room_class_ranges:
  "list_ex (\<lambda>(lo, hi). in_span lo hi c)
     [(CHR ''A'', CHR ''H''), (CHR ''J'', CHR ''N''), (CHR ''P'', CHR ''Z''), (CHR ''0'', CHR ''9'')]
   \<longleftrightarrow> in_room_class c"
  by (simp add: in_span_def in_room_class_def Let_def)

lemma rx_match_group:
  "rx_match (Counted ranges n # items) s = Some gs \<longleftrightarrow>
     (\<exists>a rest hs. s = a @ rest \<and> length a = n \<and> list_all (\<lambda>c. list_ex (\<lambda>(lo, hi). in_span lo hi c) ranges) a
        \<and> rx_match items rest = Some hs \<and> gs = a # hs)"
proof
  assume "rx_match (Counted ranges n # items) s = Some gs"
  then show "\<exists>a rest hs. s = a @ rest \<and> length a = n \<and> list_all (\<lambda>c. list_ex (\<lambda>(lo, hi). in_span lo hi c) ranges) a
        \<and> rx_match items rest = Some hs \<and> gs = a # hs"
    by (intro exI [of _ "take n s"] exI [of _ "drop n s"]) (auto split: if_splits)
qed auto

lemma rx_match_literal:
  "rx_match (Lit c # items) s = Some gs \<longleftrightarrow> (\<exists>rest. s = c # rest \<and> rx_match items rest = Some gs)"
  by (cases s) auto

lemma rx_match_end: "rx_match [] s = Some gs \<longleftrightarrow> s = [] \<and> gs = []"
  by auto

lemma rx_match_room_items: "rx_match room_items s = room_groups s"
proof -
  have "rx_match room_items s = Some gs \<longleftrightarrow> room_groups s = Some gs" for gs
    unfolding room_items_def Let_def room_groups_Some rx_match_literal rx_match_group rx_match_end
      room_class_ranges room_group_def room_text_def prefix_U_def
    by auto
  then show ?thesis by (metis option.exhaust)
qed

lemma room_pattern_meaning: "engine_reads_patterns rx \<Longrightarrow> engine_reads_room_pattern rx"
  using rx_parse_room_pattern rx_match_room_items
  by (simp add: engine_reads_patterns_def engine_reads_room_pattern_def)

section \<open>The rejection loops\<close>

lemma draw_part_Some:
  assumes "draw_part rng k = Some (p, j)"
  shows "\<exists>i \<ge> k. p = encode8 (rng i) \<and> validate_checksum p \<and> j = Suc i"
proof -
  have "case r of (p, j) \<Rightarrow> \<exists>i \<ge> k. p = encode8 (rng i) \<and> validate_checksum p \<and> j = Suc i"
    if ret: "draw_part rng k = Some r" for r
  proof (rule draw_part.raw_induct [where P = "\<lambda>rng k r. case r of (p, j) \<Rightarrow>
        \<exists>i \<ge> k. p = encode8 (rng i) \<and> validate_checksum p \<and> j = Suc i", OF _ ret])
    fix f rng k r
    assume IH: "\<And>rng k r. f rng k = Some r \<Longrightarrow> case r of (p, j) \<Rightarrow>
        \<exists>i \<ge> k. p = encode8 (rng i) \<and> validate_checksum p \<and> j = Suc i"
      and eq: "(let part = encode8 (rng k) in
        if validate_checksum part then Some (part, Suc k) else f rng (Suc k)) = Some r"
    show "case r of (p, j) \<Rightarrow> \<exists>i \<ge> k. p = encode8 (rng i) \<and> validate_checksum p \<and> j = Suc i"
    proof (cases "validate_checksum (encode8 (rng k))")
      case True
      with eq show ?thesis by auto
    next
      case False
      with eq have "f rng (Suc k) = Some r" by simp
      from IH [OF this] obtain p j i where "r = (p, j)" "Suc k \<le> i" "p = encode8 (rng i)"
        "validate_checksum p" "j = Suc i" by auto
      then show ?thesis using Suc_leD by auto
    qed
  qed
  with assms show ?thesis by fastforce
qed

lemma draw_part_returns:
  assumes "validate_checksum (encode8 (rng i))" and "k \<le> i"
  shows "\<exists>p j. draw_part rng k = Some (p, j)"
  using assms
proof (induction "i - k" arbitrary: k)
  case 0
  then show ?case by (simp add: draw_part.simps [of rng k])
next
  case (Suc n)
  show ?case
  proof (cases "validate_checksum (encode8 (rng k))")
    case True
    then show ?thesis by (simp add: draw_part.simps [of rng k])
  next
    case False
    with Suc have "\<exists>p j. draw_part rng (Suc k) = Some (p, j)" by simp
    with False show ?thesis by (simp add: draw_part.simps [of rng k])
  qed
qed

lemma room_group_take_drop:
  assumes "length (rng i) = 8"
  shows "room_group (take 4 (encode8 (rng i)))" "room_group (drop 4 (encode8 (rng i)))"
proof -
  have "length (encode8 (rng i)) = 8" using assms by (simp add: encode8_def)
  with encode8_in_class [of "rng i"]
  show "room_group (take 4 (encode8 (rng i)))" "room_group (drop 4 (encode8 (rng i)))"
    by (auto simp: room_group_def list_all_iff dest: in_set_takeD in_set_dropD)
qed

lemma parse_room_text:
  assumes "engine_reads_room_pattern rx"
    and "room_group a" "room_group b" "room_group c" "room_group d"
  shows "parse rx (room_text a b c d) =
    Inr \<lparr> raw = room_text a b c d, network_name_part = a @ ''-'' @ b, secret_part = c @ ''-'' @ d \<rparr>"
proof -
  have "room_groups (room_text a b c d) = Some [a, b, c, d]"
    using assms(2-) by (auto simp: room_groups_Some)
  with assms(1) show ?thesis
    by (simp add: parse_def engine_reads_room_pattern_def)
qed

lemma parse_other:
  assumes "engine_reads_room_pattern rx"
    and "\<not> (\<exists>a b c d. code = room_text a b c d
          \<and> room_group a \<and> room_group b \<and> room_group c \<and> room_group d)"
  shows "parse rx code = Inl (RoomCodeInvalid (msg_room_code_invalid @ code))"
proof -
  have "room_groups code = None"
    using assms(2) room_groups_Some [of code] by (metis not_None_eq)
  with assms(1) show ?thesis
    by (simp add: parse_def engine_reads_room_pattern_def)
qed

lemma room_text_slices:
  assumes "room_group a" "room_group b" "room_group c" "room_group d"
  shows "take 9 (drop 2 (room_text a b c d)) = a @ ''-'' @ b"
    and "take 9 (drop 12 (room_text a b c d)) = c @ ''-'' @ d"
proof -
  have "length a = 4" "length b = 4" "length c = 4" "length d = 4"
    using assms by (simp_all add: room_group_def)
  then show "take 9 (drop 2 (room_text a b c d)) = a @ ''-'' @ b"
    and "take 9 (drop 12 (room_text a b c d)) = c @ ''-'' @ d"
    by (simp_all add: room_text_def prefix_U_def drop_Cons' take_Cons' numeral_eq_Suc)
qed

section \<open>Properties\<close>

text \<open>
  C18: given a regex engine that reads patterns as documented, parsing accepts exactly the codes
  \<open>U/XXXX-XXXX-XXXX-XXXX\<close> over the alphabet of the generator (34 characters: digits and upper-case
  letters without I and O), splits them into network name and secret, and reports every other string
  as an invalid room code that carries the string.  The checksum plays no part in it.
\<close>

theorem parse_accepts_exactly_room_codes:
  assumes "engine_reads_patterns rx"
  shows "parse rx code =
    (if \<exists>a b c d. code = room_text a b c d \<and> (\<forall>g \<in> {a, b, c, d}. length g = 4 \<and> set g \<subseteq> set room_chars)
     then Inr \<lparr> raw = code, network_name_part = take 9 (drop 2 code),
                secret_part = take 9 (drop 12 code) \<rparr>
     else Inl (RoomCodeInvalid (msg_room_code_invalid @ code)))"
proof -
  note engine = room_pattern_meaning [OF assms]
  have groups: "(\<forall>g \<in> {a, b, c, d}. length g = 4 \<and> set g \<subseteq> set room_chars)
      \<longleftrightarrow> room_group a \<and> room_group b \<and> room_group c \<and> room_group d" for a b c d
    by (simp only: ball_simps room_group_chars simp_thms)
  show ?thesis
  proof (cases "\<exists>a b c d. code = room_text a b c d
      \<and> room_group a \<and> room_group b \<and> room_group c \<and> room_group d")
    case True
    then obtain a b c d where code: "code = room_text a b c d"
      and g: "room_group a" "room_group b" "room_group c" "room_group d" by blast
    have "parse rx code = Inr \<lparr> raw = code, network_name_part = take 9 (drop 2 code),
        secret_part = take 9 (drop 12 code) \<rparr>"
      using parse_room_text [OF engine g] room_text_slices [OF g] by (simp only: code)
    with True show ?thesis by (simp only: groups if_True)
  next
    case False
    from parse_other [OF engine False] show ?thesis unfolding groups if_not_P [OF False] .
  qed
qed

theorem parse_accepts_exactly_room_codes_witness:
  "parse pattern_engine ''U/G4J1-JZUE-TVUE-XBUB''
     = Inr \<lparr> raw = ''U/G4J1-JZUE-TVUE-XBUB'', network_name_part = ''G4J1-JZUE'',
             secret_part = ''TVUE-XBUB'' \<rparr>"
proof -
  have "\<exists>a b c d. ''U/G4J1-JZUE-TVUE-XBUB'' = room_text a b c d
      \<and> (\<forall>g \<in> {a, b, c, d}. length g = 4 \<and> set g \<subseteq> set room_chars)"
    by (rule exI [of _ "''G4J1''"], rule exI [of _ "''JZUE''"], rule exI [of _ "''TVUE''"],
        rule exI [of _ "''XBUB''"]) (simp add: room_text_def prefix_U_def room_chars_def)
  then show ?thesis
    using parse_accepts_exactly_room_codes [OF pattern_engine_reads, of "''U/G4J1-JZUE-TVUE-XBUB''"]
    by simp
qed

text \<open>A regex engine restricted to the one pattern, for the concrete instances below.\<close>

definition room_engine :: regex_engine where
  "room_engine pat s = (if pat = room_pattern then room_groups s else None)"

lemma room_engine_reads [simp]: "engine_reads_room_pattern room_engine"
  by (simp add: engine_reads_room_pattern_def room_engine_def)

text \<open>What the generator does with the buffers it gets.\<close>

lemma generate_outcome:
  assumes "engine_reads_room_pattern rx" and "fills_eight rng"
    and "\<forall>n. \<exists>i \<ge> n. validate_checksum (encode8 (rng i))"
  shows "\<exists>rc j i1 i2. generate rx rng k = Some (Inr rc, j)
      \<and> parse rx (raw rc) = Inr rc
      \<and> k \<le> i1 \<and> i1 < i2 \<and> j = Suc i2
      \<and> filter (\<lambda>c. c \<noteq> CHR ''-'') (network_name_part rc) = encode8 (rng i1)
      \<and> filter (\<lambda>c. c \<noteq> CHR ''-'') (secret_part rc) = encode8 (rng i2)
      \<and> validate_checksum (encode8 (rng i1)) \<and> validate_checksum (encode8 (rng i2))"
proof -
  obtain p1 k1 where d1: "draw_part rng k = Some (p1, k1)"
    using assms(3) draw_part_returns by metis
  obtain p2 k2 where d2: "draw_part rng k1 = Some (p2, k2)"
    using assms(3) draw_part_returns by metis
  obtain i1 where i1: "k \<le> i1" "p1 = encode8 (rng i1)" "validate_checksum p1" "k1 = Suc i1"
    using draw_part_Some [OF d1] by auto
  obtain i2 where i2: "k1 \<le> i2" "p2 = encode8 (rng i2)" "validate_checksum p2" "k2 = Suc i2"
    using draw_part_Some [OF d2] by auto
  let ?raw = "room_text (take 4 p1) (drop 4 p1) (take 4 p2) (drop 4 p2)"
  let ?rc = "\<lparr>raw = ?raw, network_name_part = take 4 p1 @ ''-'' @ drop 4 p1,
                secret_part = take 4 p2 @ ''-'' @ drop 4 p2\<rparr>"
  have len: "length (rng i) = 8" for i using assms(2) by (simp add: fills_eight_def)
  have parse: "parse rx ?raw = Inr ?rc"
    unfolding i1(2) i2(2) by (intro parse_room_text assms(1) room_group_take_drop len)
  then have "generate rx rng k = Some (Inr ?rc, k2)"
    by (simp add: generate_def d1 d2 Let_def)
  moreover have "filter (\<lambda>c. c \<noteq> CHR ''-'') (take 4 p @ ''-'' @ drop 4 p) = p"
    if "p = encode8 bs" for p bs
  proof -
    have "\<forall>c \<in> set p. c \<noteq> CHR ''-''"
      using encode8_in_class [of bs] that by (auto simp: list_all_iff in_room_class_def)
    then have "filter (\<lambda>c. c \<noteq> CHR ''-'') (take 4 p) = take 4 p"
      "filter (\<lambda>c. c \<noteq> CHR ''-'') (drop 4 p) = drop 4 p"
      by (meson filter_True in_set_takeD, meson filter_True in_set_dropD)
    then show ?thesis by simp
  qed
  ultimately show ?thesis
    using i1 i2 parse by (intro exI [of _ ?rc] exI [of _ k2] exI [of _ i1] exI [of _ i2]) simp
qed

text \<open>
  C17: given a random source that fills eight bytes at a time and never runs out of buffers whose
  checksum passes, the generator returns, its final \<open>expect\<close> does not panic, the code it returns
  parses back to itself, and both halves of it, from two different buffers, pass the checksum.
\<close>

theorem generate_returns_valid_code:
  assumes "engine_reads_room_pattern rx" and "fills_eight rng"
    and "\<forall>n. \<exists>i \<ge> n. validate_checksum (encode8 (rng i))"
  shows "\<exists>rc j i1 i2. generate rx rng k = Some (Inr rc, j)
      \<and> parse rx (raw rc) = Inr rc
      \<and> k \<le> i1 \<and> i1 < i2 \<and> j = Suc i2
      \<and> filter (\<lambda>c. c \<noteq> CHR ''-'') (network_name_part rc) = encode8 (rng i1)
      \<and> filter (\<lambda>c. c \<noteq> CHR ''-'') (secret_part rc) = encode8 (rng i2)
      \<and> validate_checksum (encode8 (rng i1)) \<and> validate_checksum (encode8 (rng i2))"
  by (rule generate_outcome [OF assms])

lemma validate_checksum_zeros: "validate_checksum (encode8 (replicate 8 0))"
proof -
  have "encode8 (replicate 8 0) = replicate 8 CHR ''0''"
    by (simp add: encode8_def room_chars_def)
  also have "\<dots> = ''00000000''" by (simp add: numeral_eq_Suc)
  finally have enc: "encode8 (replicate 8 0) = ''00000000''" .
  have "chars ''00000000'' = replicate 8 ''0''"
    by (simp add: chars_ascii ascii_str_def numeral_eq_Suc del: chars.simps)
  moreover have "position (\<lambda>x. [x] = ''0'') room_chars = Some 0"
    by (simp add: room_chars_def)
  ultimately show ?thesis
    unfolding enc validate_checksum_def by (simp add: numeral_eq_Suc)
qed

theorem generate_returns_valid_code_witness:
  "\<exists>rc j i1 i2. generate room_engine (\<lambda>_. replicate 8 0) 0 = Some (Inr rc, j)
      \<and> parse room_engine (raw rc) = Inr rc
      \<and> 0 \<le> i1 \<and> i1 < i2 \<and> j = Suc i2
      \<and> filter (\<lambda>c. c \<noteq> CHR ''-'') (network_name_part rc) = encode8 (replicate 8 0)
      \<and> filter (\<lambda>c. c \<noteq> CHR ''-'') (secret_part rc) = encode8 (replicate 8 0)
      \<and> validate_checksum (encode8 (replicate 8 0)) \<and> validate_checksum (encode8 (replicate 8 0))"
proof (rule generate_returns_valid_code [OF room_engine_reads, where rng = "\<lambda>_. replicate 8 0"])
  show "fills_eight (\<lambda>_. replicate 8 0)" by (simp add: fills_eight_def)
  show "\<forall>n::nat. \<exists>i \<ge> n. validate_checksum (encode8 (replicate 8 0))"
    using validate_checksum_zeros by auto
qed

text \<open>
  Parsing does not check the checksum the generator enforces: the code
  \<open>U/1000-0000-0000-0000\<close> is accepted although its first half fails it.
\<close>

lemma parse_ignores_checksum:
  "\<exists>rc. parse room_engine ''U/1000-0000-0000-0000'' = Inr rc
      \<and> network_name_part rc = ''1000-0000'' \<and> \<not> validate_checksum ''10000000''"
proof -
  have "parse room_engine (room_text ''1000'' ''0000'' ''0000'' ''0000'') =
      Inr \<lparr>raw = room_text ''1000'' ''0000'' ''0000'' ''0000'',
           network_name_part = ''1000'' @ ''-'' @ ''0000'', secret_part = ''0000'' @ ''-'' @ ''0000''\<rparr>"
    by (rule parse_room_text) (simp_all add: room_group_def in_room_class_def)
  moreover have "\<not> validate_checksum ''10000000''"
    by (simp add: validate_checksum_def chars_ascii room_chars_def)
  ultimately show ?thesis by (simp add: room_text_def prefix_U_def)
qed

text \<open>
  Two parsed codes that give the same EasyTier network name and secret are the same code, so
  rooms with different codes never share a virtual network.
\<close>

lemma room_network_injective:
  assumes "engine_reads_room_pattern rx"
    and "parse rx code1 = Inr rc1" and "parse rx code2 = Inr rc2"
    and "easy_tier_network_name rc1 = easy_tier_network_name rc2"
    and "easy_tier_network_secret rc1 = easy_tier_network_secret rc2"
  shows "code1 = code2"
proof -
  obtain a b c d where 1: "code1 = room_text a b c d" "room_group a" "room_group b"
      "room_group c" "room_group d"
    using parse_other [OF assms(1), of code1] assms(2) by auto
  obtain a' b' c' d' where 2: "code2 = room_text a' b' c' d'" "room_group a'" "room_group b'"
      "room_group c'" "room_group d'"
    using parse_other [OF assms(1), of code2] assms(3) by auto
  have "a @ ''-'' @ b = a' @ ''-'' @ b'" "c @ ''-'' @ d = c' @ ''-'' @ d'"
    using assms(2-5) parse_room_text [OF assms(1)] 1 2
    by (auto simp: easy_tier_network_name_def easy_tier_network_secret_def)
  then show ?thesis
    using 1 2 by (simp add: room_group_def)
qed

end
