(* ===== verification/Negotiator.thy ===== *)
theory Negotiator
  imports Models
begin

text \<open>
  Protocol negotiation (\<open>core/protocol_negotiator.rs\<close>): the protocols of this side that the centre
  offers too, in the order of this side.
\<close>

definition negotiate :: "string list \<Rightarrow> string list \<Rightarrow> string list" where
  "negotiate my center = (let center_set = set center in filter (\<lambda>p. p \<in> center_set) my)"

lemma set_negotiate [simp]: "set (negotiate my center) = set my \<inter> set center"
  by (auto simp: negotiate_def)

lemma negotiate_Nil [simp]: "negotiate [] center = []" "negotiate my [] = []"
  by (simp_all add: negotiate_def)

lemma negotiate_order:
  "negotiate (xs @ p # ys) center =
     negotiate xs center @ (if p \<in> set center then [p] else []) @ negotiate ys center"
  by (simp add: negotiate_def Let_def)

lemma negotiate_idem: "negotiate (negotiate my center) center = negotiate my center"
  by (simp add: negotiate_def Let_def)

end
