(* ===== verification/Systems.thy ===== *)
theory Systems
  imports Prelude
begin

text \<open>
  What the stateful components share: loops with a bounded number of attempts, and transition
  systems with their reachable states, invariants and refinement.  The two contracts are locales;
  the components interpret them on their own step relations.
\<close>

section \<open>Bounded attempts\<close>

text \<open>
  \<open>for i in 0..n\<close> around a body that returns from the function (\<open>Some\<close>) or goes on (\<open>None\<close>): the
  attempts are numbered from \<open>i\<close> and \<open>n\<close> of them are left.
\<close>

fun attempts :: "(nat \<Rightarrow> 'r option) \<Rightarrow> nat \<Rightarrow> nat \<Rightarrow> 'r option" where
  "attempts body i 0 = None"
| "attempts body i (Suc n) =
     (case body i of Some r \<Rightarrow> Some r | None \<Rightarrow> attempts body (Suc i) n)"

lemma attempts_None: "attempts body i n = None \<longleftrightarrow> (\<forall>j < n. body (i + j) = None)"
proof (induction n arbitrary: i)
  case 0
  then show ?case by simp
next
  case (Suc n)
  have "(\<forall>j < Suc n. body (i + j) = None) \<longleftrightarrow> body i = None \<and> (\<forall>j < n. body (Suc i + j) = None)"
    by (auto simp: less_Suc_eq_0_disj)
  with Suc.IH [of "Suc i"] show ?case by (auto split: option.splits)
qed

lemma attempts_Some:
  "attempts body i n = Some r \<longleftrightarrow>
     (\<exists>j < n. body (i + j) = Some r \<and> (\<forall>k < j. body (i + k) = None))"
proof (induction n arbitrary: i)
  case 0
  then show ?case by simp
next
  case (Suc n)
  show ?case
  proof (cases "body i")
    case None
    have "(\<exists>j < Suc n. body (i + j) = Some r \<and> (\<forall>k < j. body (i + k) = None))
        \<longleftrightarrow> (\<exists>j < n. body (Suc i + j) = Some r \<and> (\<forall>k < j. body (Suc i + k) = None))"
      (is "?L \<longleftrightarrow> ?R")
    proof
      assume ?L
      then obtain j where j: "j < Suc n" "body (i + j) = Some r" "\<forall>k < j. body (i + k) = None" by blast
      with None obtain j' where "j = Suc j'" by (cases j) auto
      with j show ?R by (intro exI [of _ j']) (auto dest: spec [of _ "Suc _"])
    next
      assume ?R
      then obtain j where j: "j < n" "body (Suc i + j) = Some r" "\<forall>k < j. body (Suc i + k) = None" by blast
      have "body (i + k) = None" if "k < Suc j" for k
        using that j(3) None by (cases k) auto
      with j show ?L by (intro exI [of _ "Suc j"]) auto
    qed
    with None Suc.IH [of "Suc i"] show ?thesis by simp
  next
    case (Some x)
    show ?thesis
    proof
      assume "attempts body i (Suc n) = Some r"
      with Some show "\<exists>j < Suc n. body (i + j) = Some r \<and> (\<forall>k < j. body (i + k) = None)"
        by (intro exI [of _ 0]) simp
    next
      assume "\<exists>j < Suc n. body (i + j) = Some r \<and> (\<forall>k < j. body (i + k) = None)"
      then obtain j where j: "body (i + j) = Some r" "\<forall>k < j. body (i + k) = None" by blast
      have "j = 0"
      proof (rule ccontr)
        assume "j \<noteq> 0"
        with j(2) have "body (i + 0) = None" by blast
        with Some show False by simp
      qed
      with j Some show "attempts body i (Suc n) = Some r" by simp
    qed
  qed
qed

text \<open>The first successful attempt decides, and the attempts after it do not run.\<close>

lemma attempts_first:
  assumes "body j = Some r" and "j < n" and "\<forall>k < j. body k = None"
  shows "attempts body 0 n = Some r"
  using assms by (auto simp: attempts_Some)

section \<open>Transition systems\<close>

text \<open>The states a system reaches from an initial one by labelled steps.\<close>

inductive reach :: "('s \<Rightarrow> bool) \<Rightarrow> ('s \<Rightarrow> 'l \<Rightarrow> 's \<Rightarrow> bool) \<Rightarrow> 's \<Rightarrow> bool"
  for init step where
  reach_init: "init s \<Longrightarrow> reach init step s"
| reach_step: "reach init step s \<Longrightarrow> step s l s' \<Longrightarrow> reach init step s'"

text \<open>Runs: the states after a list of labels.\<close>

inductive run :: "('s \<Rightarrow> 'l \<Rightarrow> 's \<Rightarrow> bool) \<Rightarrow> 's \<Rightarrow> 'l list \<Rightarrow> 's \<Rightarrow> bool"
  for step where
  run_Nil: "run step s [] s"
| run_Cons: "step s l s' \<Longrightarrow> run step s' ls s'' \<Longrightarrow> run step s (l # ls) s''"

inductive_cases run_NilE: "run step s [] s'"
inductive_cases run_ConsE: "run step s (l # ls) s'"

lemma reach_run: "run step s ls s' \<Longrightarrow> reach init step s \<Longrightarrow> reach init step s'"
  by (induction rule: run.induct) (auto intro: reach_step)

lemma run_append: "run step s ls s' \<Longrightarrow> run step s' ls' s'' \<Longrightarrow> run step s (ls @ ls') s''"
  by (induction rule: run.induct) (auto intro: run_Cons [where step = step])

text \<open>An inductive invariant: every step that starts in it ends in it.\<close>

locale invariant_system =
  fixes init :: "'s \<Rightarrow> bool" and step :: "'s \<Rightarrow> 'l \<Rightarrow> 's \<Rightarrow> bool" and inv :: "'s \<Rightarrow> bool"
  assumes inv_init: "init s \<Longrightarrow> inv s"
    and inv_step: "inv s \<Longrightarrow> step s l s' \<Longrightarrow> inv s'"
begin

lemma inv_reach: "reach init step s \<Longrightarrow> inv s"
  by (induction rule: reach.induct) (auto intro: inv_init inv_step)

lemma inv_run: "run step s ls s' \<Longrightarrow> inv s \<Longrightarrow> inv s'"
  by (induction rule: run.induct) (auto intro: inv_step)

end

text \<open>
  Refinement: every step of the detailed system, taken in a state that satisfies its invariant, is
  a step of the abstract one or leaves the abstract state as it is.
\<close>

locale refinement_system = invariant_system init step inv
  for init :: "'s \<Rightarrow> bool" and step :: "'s \<Rightarrow> 'l \<Rightarrow> 's \<Rightarrow> bool" and inv :: "'s \<Rightarrow> bool" +
  fixes abs :: "'s \<Rightarrow> 'a" and ainit :: "'a \<Rightarrow> bool" and astep :: "'a \<Rightarrow> 'b \<Rightarrow> 'a \<Rightarrow> bool"
  assumes abs_init: "init s \<Longrightarrow> ainit (abs s)"
    and abs_step: "inv s \<Longrightarrow> step s l s' \<Longrightarrow> abs s' = abs s \<or> (\<exists>b. astep (abs s) b (abs s'))"
begin

lemma abs_reach: "reach init step s \<Longrightarrow> reach ainit astep (abs s)"
proof (induction rule: reach.induct)
  case (reach_init s)
  then show ?case by (intro reach.reach_init abs_init)
next
  case (reach_step s l s')
  from inv_reach [OF reach_step(1)] reach_step(2) abs_step consider "abs s' = abs s"
    | b where "astep (abs s) b (abs s')" by blast
  then show ?case
    by cases (use reach_step.IH in \<open>auto intro: reach.reach_step\<close>)
qed

lemma abs_run: "run step s ls s' \<Longrightarrow> inv s \<Longrightarrow> \<exists>bs. run astep (abs s) bs (abs s')"
proof (induction rule: run.induct)
  case (run_Nil s)
  show ?case by (blast intro: run.run_Nil)
next
  case (run_Cons s l s' ls s'')
  then obtain bs where rest: "run astep (abs s') bs (abs s'')" using inv_step by blast
  from abs_step [OF run_Cons.prems run_Cons.hyps(1)] show ?case
    using rest by (metis run.run_Cons)
qed

end

text \<open>A system whose steps are a function of the state and the label.\<close>

definition det_step :: "('l \<Rightarrow> 's \<Rightarrow> 's) \<Rightarrow> 's \<Rightarrow> 'l \<Rightarrow> 's \<Rightarrow> bool" where
  "det_step f s l s' \<longleftrightarrow> s' = f l s"

lemma run_det_step: "run (det_step f) s ls s' \<longleftrightarrow> s' = fold f ls s"
proof (induction ls arbitrary: s)
  case Nil
  then show ?case by (auto intro: run_Nil elim: run_NilE)
next
  case (Cons l ls)
  then show ?case
    by (auto simp: det_step_def elim!: run_ConsE intro!: run_Cons [of _ _ _ "f l s"])
qed

text \<open>
  Refinement with the steps matched: a step of the detailed system is a run of the abstract one that
  \<open>matches\<close> its label, so that a run shows which abstract steps happened when.
\<close>

locale matched_system = invariant_system init step inv
  for init :: "'s \<Rightarrow> bool" and step :: "'s \<Rightarrow> 'l \<Rightarrow> 's \<Rightarrow> bool" and inv :: "'s \<Rightarrow> bool" +
  fixes view :: "'s \<Rightarrow> 'a" and ainit :: "'a \<Rightarrow> bool" and astep :: "'a \<Rightarrow> 'b \<Rightarrow> 'a \<Rightarrow> bool"
    and matches :: "'l \<Rightarrow> 'b list \<Rightarrow> bool"
  assumes view_init: "init s \<Longrightarrow> ainit (view s)"
    and view_step: "inv s \<Longrightarrow> step s l s' \<Longrightarrow> \<exists>bs. matches l bs \<and> run astep (view s) bs (view s')"
begin

lemma view_run:
  "run step s ls s' \<Longrightarrow> inv s \<Longrightarrow> \<exists>bss. list_all2 matches ls bss \<and> run astep (view s) (concat bss) (view s')"
proof (induction rule: run.induct)
  case (run_Nil s)
  show ?case by (auto intro: exI [of _ "[]"] run.run_Nil)
next
  case (run_Cons s l s' ls s'')
  from view_step [OF run_Cons.prems run_Cons.hyps(1)]
  obtain bs where bs: "matches l bs" "run astep (view s) bs (view s')" by blast
  from run_Cons.IH [OF inv_step [OF run_Cons.prems run_Cons.hyps(1)]]
  obtain bss where "list_all2 matches ls bss" "run astep (view s') (concat bss) (view s'')" by blast
  with bs run_append [of astep] show ?case by (intro exI [of _ "bs # bss"]) auto
qed

lemma view_reach: "reach init step s \<Longrightarrow> reach ainit astep (view s)"
proof (induction rule: reach.induct)
  case (reach_init s)
  then show ?case by (intro reach.reach_init view_init)
next
  case (reach_step s l s')
  from view_step [OF inv_reach [OF reach_step(1)] reach_step(2)] reach_step.IH show ?case
    by (auto intro: reach_run)
qed

end

end
