(* ===== verification/Discovery.thy ===== *)
theory Discovery
  imports External Systems
begin

text \<open>
  Finding the centre (\<open>core/center_discovery.rs\<close>): the centre advertises its port in its EasyTier
  host name, and a guest polls the node list until a host name matches, at most 60 times.
\<close>

section \<open>The host name\<close>

definition hostname_prefix :: string where
  "hostname_prefix = ''scaffolding-mc-server-''"

definition hostname_pattern :: string where
  "hostname_pattern = ''^scaffolding-mc-server-('' @ [CHR 0x5C] @ ''d+)$''"

text \<open>
  Documented behaviour of the engine on this pattern.  Its digit class is the Unicode one, so a match
  may hold other digits than the ASCII ones; the model relies on no more than this: a host name that
  ends in ASCII digits matches with them as its group, and a match has one nonempty group that
  follows the prefix and whose ASCII characters are digits.
\<close>

definition engine_reads_hostname_pattern :: "regex_engine \<Rightarrow> bool" where
  "engine_reads_hostname_pattern rx \<longleftrightarrow>
     (\<forall>d. d \<noteq> [] \<and> list_all is_digit d \<longrightarrow> rx hostname_pattern (hostname_prefix @ d) = Some [d])
   \<and> (\<forall>s caps. rx hostname_pattern s = Some caps \<longrightarrow>
        (\<exists>d. caps = [d] \<and> s = hostname_prefix @ d \<and> d \<noteq> []
           \<and> (\<forall>c \<in> set d. ascii_char c \<longrightarrow> is_digit c)))"

section \<open>Parsing the node list\<close>

record center_discovery_result =
  cd_virtual_ip :: string
  cd_port :: u16

fun try_parse_center :: "regex_engine \<Rightarrow> easy_tier_node list \<Rightarrow> center_discovery_result option" where
  "try_parse_center rx [] = None"
| "try_parse_center rx (node # rest) =
     (case rx hostname_pattern (node_hostname node) of
        None \<Rightarrow> try_parse_center rx rest
      | Some caps \<Rightarrow>
          (case parse_uint (2 ^ 32 - 1) (caps ! 0) of
             None \<Rightarrow> try_parse_center rx rest
           | Some port \<Rightarrow>
               if port > 1024 \<and> port \<le> 65535
               then Some \<lparr> cd_virtual_ip = node_virtual_ip node, cd_port = word_of_nat port \<rparr>
               else try_parse_center rx rest))"

text \<open>
  One round of the polling loop: the node list it got, and whether the cancellation won the wait
  after it.
\<close>

definition discover_round ::
  "regex_engine \<Rightarrow> (nat \<Rightarrow> easy_tier_node list) \<Rightarrow> (nat \<Rightarrow> bool) \<Rightarrow> nat \<Rightarrow> center_discovery_result res option" where
  "discover_round rx get_nodes cancelled attempt =
     (case try_parse_center rx (get_nodes attempt) of
        Some result \<Rightarrow> Some (Inr result)
      | None \<Rightarrow>
          if cancelled attempt then Some (Inl (CenterNotFound msg_discovery_cancelled)) else None)"

definition discover ::
  "regex_engine \<Rightarrow> (nat \<Rightarrow> easy_tier_node list) \<Rightarrow> (nat \<Rightarrow> bool) \<Rightarrow> center_discovery_result res" where
  "discover rx get_nodes cancelled =
     (case attempts (discover_round rx get_nodes cancelled) 0 60 of
        Some result \<Rightarrow> result
      | None \<Rightarrow> Inl (CenterNotFound msg_center_not_found))"

section \<open>What a centre host name is\<close>

text \<open>A reading of host names without a regex engine: the port, in range, behind the prefix.\<close>

definition center_port :: "string \<Rightarrow> nat option" where
  "center_port h =
     (let d = drop (length hostname_prefix) h
      in if take (length hostname_prefix) h = hostname_prefix \<and> d \<noteq> [] \<and> list_all is_digit d
            \<and> 1024 < digits_value d \<and> digits_value d \<le> 65535
         then Some (digits_value d) else None)"

definition center_of_node :: "easy_tier_node \<Rightarrow> center_discovery_result option" where
  "center_of_node node =
     map_option (\<lambda>p. \<lparr> cd_virtual_ip = node_virtual_ip node, cd_port = word_of_nat p \<rparr>)
       (center_port (node_hostname node))"

text \<open>The first node that names a centre.\<close>

fun first_center :: "easy_tier_node list \<Rightarrow> center_discovery_result option" where
  "first_center [] = None"
| "first_center (n # ns) = (case center_of_node n of None \<Rightarrow> first_center ns | Some r \<Rightarrow> Some r)"

lemma parse_uint_not_digits:
  assumes "\<forall>c \<in> set d. ascii_char c \<longrightarrow> is_digit c" and "\<not> list_all is_digit d"
  shows "parse_uint bound d = None"
proof -
  have "CHR ''+'' \<notin> set d"
    using assms(1) digit_bounds [of "CHR ''+''"] by (auto simp: is_digit_def)
  with assms(2) show ?thesis
    by (cases d) (auto simp: parse_uint_def Let_def)
qed

lemma try_parse_center_cons:
  assumes "engine_reads_hostname_pattern rx"
  shows "try_parse_center rx (node # rest) =
    (case center_of_node node of None \<Rightarrow> try_parse_center rx rest | Some r \<Rightarrow> Some r)"
proof (cases "rx hostname_pattern (node_hostname node)")
  case None
  then have "center_port (node_hostname node) = None"
    using assms unfolding engine_reads_hostname_pattern_def center_port_def Let_def
    by (metis append_take_drop_id option.distinct(1))
  with None show ?thesis by (simp add: center_of_node_def)
next
  case (Some caps)
  then obtain d where caps: "caps = [d]" and h: "node_hostname node = hostname_prefix @ d"
    and d: "d \<noteq> []" "\<forall>c \<in> set d. ascii_char c \<longrightarrow> is_digit c"
    using assms unfolding engine_reads_hostname_pattern_def by blast
  have port: "center_port (node_hostname node) =
      (if list_all is_digit d \<and> 1024 < digits_value d \<and> digits_value d \<le> 65535
       then Some (digits_value d) else None)"
    using d(1) by (simp add: h center_port_def)
  show ?thesis
  proof (cases "list_all is_digit d")
    case True
    with d(1) Some port show ?thesis
      by (simp add: caps center_of_node_def parse_uint_digits)
  next
    case False
    with Some port parse_uint_not_digits [OF d(2) False] show ?thesis
      by (simp add: caps center_of_node_def)
  qed
qed

lemma try_parse_center_first:
  assumes "engine_reads_hostname_pattern rx"
  shows "try_parse_center rx nodes = first_center nodes"
  by (induction nodes)
    (simp_all add: try_parse_center_cons [OF assms] del: try_parse_center.simps(2) split: option.split)

lemma first_center_append:
  "first_center (xs @ ys) = (case first_center xs of None \<Rightarrow> first_center ys | Some r \<Rightarrow> Some r)"
  by (induction xs) (auto split: option.splits)

text \<open>The host name a centre gives its own EasyTier node.\<close>

definition advertised_hostname :: "u16 \<Rightarrow> string" where
  "advertised_hostname port = ''scaffolding-mc-server-'' @ show_nat (unat port)"

lemma center_port_advertised:
  "1024 < port \<Longrightarrow> center_port (advertised_hostname port) = Some (unat port)"
  by (simp add: center_port_def advertised_hostname_def hostname_prefix_def show_nat_digits
      word_less_nat_alt)

section \<open>Properties\<close>

text \<open>
  Parsing a node list is the same as taking the first node whose host name is the centre prefix
  followed by a decimal port above 1024 and at most 65535; every other node is skipped.
\<close>

lemma try_parse_center_is_first_center:
  assumes "engine_reads_hostname_pattern rx"
  shows "try_parse_center rx nodes = first_center nodes"
  by (rule try_parse_center_first [OF assms])

text \<open>A regex engine restricted to this pattern, for the concrete instances.\<close>

definition hostname_engine :: regex_engine where
  "hostname_engine pat s =
     (let d = drop (length hostname_prefix) s
      in if pat = hostname_pattern \<and> take (length hostname_prefix) s = hostname_prefix
            \<and> d \<noteq> [] \<and> list_all is_digit d
         then Some [d] else None)"

lemma hostname_engine_reads: "engine_reads_hostname_pattern hostname_engine"
  unfolding engine_reads_hostname_pattern_def
proof (intro conjI allI impI)
  fix d assume "d \<noteq> [] \<and> list_all is_digit d"
  then show "hostname_engine hostname_pattern (hostname_prefix @ d) = Some [d]"
    by (simp add: hostname_engine_def)
next
  fix s caps assume "hostname_engine hostname_pattern s = Some caps"
  then have caps: "caps = [drop (length hostname_prefix) s]"
    and pre: "take (length hostname_prefix) s = hostname_prefix"
    and d: "drop (length hostname_prefix) s \<noteq> []" "list_all is_digit (drop (length hostname_prefix) s)"
    by (auto simp: hostname_engine_def Let_def split: if_splits)
  moreover from pre have "s = hostname_prefix @ drop (length hostname_prefix) s"
    by (metis append_take_drop_id)
  ultimately show "\<exists>d. caps = [d] \<and> s = hostname_prefix @ d \<and> d \<noteq> [] \<and> (\<forall>c \<in> set d. ascii_char c \<longrightarrow> is_digit c)"
    by (intro exI [of _ "drop (length hostname_prefix) s"]) (simp add: list_all_iff)
qed

text \<open>
  C19: if before any cancellation, and within the 60 polls, a node list shows a centre's advertised
  host name with a port above 1024 and no centre host name before it, discovery returns exactly that
  centre's address and port, whatever the later polls would show.
\<close>

theorem discover_finds_advertised_center:
  assumes "engine_reads_hostname_pattern rx" and "1024 < port"
    and "k < 60" and "\<forall>i < k. first_center (get_nodes i) = None \<and> \<not> cancelled i"
    and "get_nodes k = before @ host # after" and "first_center before = None"
    and "node_hostname host = advertised_hostname port"
  shows "discover rx get_nodes cancelled
    = Inr \<lparr>cd_virtual_ip = node_virtual_ip host, cd_port = port\<rparr>"
proof -
  have "first_center (get_nodes k) = Some \<lparr>cd_virtual_ip = node_virtual_ip host, cd_port = port\<rparr>"
    using assms(2,5,6,7)
    by (simp add: first_center_append center_of_node_def center_port_advertised)
  then have "attempts (discover_round rx get_nodes cancelled) 0 60
      = Some (Inr \<lparr>cd_virtual_ip = node_virtual_ip host, cd_port = port\<rparr>)"
    using assms(3,4)
    by (intro attempts_first [of _ k]) (auto simp: discover_round_def try_parse_center_first [OF assms(1)])
  then show ?thesis by (simp add: discover_def)
qed

theorem discover_finds_advertised_center_witness:
  "discover hostname_engine
     (\<lambda>i. if i = 0 then []
          else [\<lparr>node_virtual_ip = ''10.0.0.2'', node_hostname = advertised_hostname 25565, node_node_id = ''2''\<rparr>])
     (\<lambda>_. False)
   = Inr \<lparr>cd_virtual_ip = ''10.0.0.2'', cd_port = 25565\<rparr>"
  using discover_finds_advertised_center [OF hostname_engine_reads, of 25565 1
      "\<lambda>i. if i = 0 then []
          else [\<lparr>node_virtual_ip = ''10.0.0.2'', node_hostname = advertised_hostname 25565, node_node_id = ''2''\<rparr>]"
      "\<lambda>_. False" "[]" _ "[]"]
  by simp

text \<open>
  Discovery always ends, after at most 60 polls, and it errs only with the not-found error:
  with the cancellation message exactly when a cancellation came first, with the timeout message
  exactly when none of the 60 polls showed a centre and none was cancelled.
\<close>

lemma discover_error_cases:
  assumes "engine_reads_hostname_pattern rx"
  shows "(discover rx get_nodes cancelled = Inl e \<longrightarrow>
            e = CenterNotFound msg_discovery_cancelled \<or> e = CenterNotFound msg_center_not_found)
    \<and> (discover rx get_nodes cancelled = Inl (CenterNotFound msg_center_not_found) \<longleftrightarrow>
         (\<forall>i < 60. first_center (get_nodes i) = None \<and> \<not> cancelled i))
    \<and> (discover rx get_nodes cancelled = Inl (CenterNotFound msg_discovery_cancelled) \<longleftrightarrow>
         (\<exists>k < 60. cancelled k \<and> first_center (get_nodes k) = None
            \<and> (\<forall>i < k. first_center (get_nodes i) = None \<and> \<not> cancelled i)))"
proof -
  let ?round = "discover_round rx get_nodes cancelled"
  have neq: "msg_center_not_found \<noteq> msg_discovery_cancelled"
    by (simp add: msg_center_not_found_def msg_discovery_cancelled_def)
  have go_on: "?round i = None \<longleftrightarrow> first_center (get_nodes i) = None \<and> \<not> cancelled i" for i
    by (simp add: discover_round_def try_parse_center_first [OF assms] split: option.split)
  have stop: "?round i = Some (Inl e) \<longleftrightarrow>
      e = CenterNotFound msg_discovery_cancelled \<and> cancelled i \<and> first_center (get_nodes i) = None" for i e
    by (auto simp: discover_round_def try_parse_center_first [OF assms] split: option.split)
  show ?thesis
  proof (cases "attempts ?round 0 60")
    case None
    then have "\<forall>i < 60. ?round i = None" by (simp add: attempts_None)
    with None neq show ?thesis by (auto simp: discover_def go_on)
  next
    case (Some r)
    then obtain k where k: "k < 60" "?round k = Some r" "\<forall>i < k. ?round i = None"
      by (auto simp: attempts_Some)
    have "\<not> (\<forall>i < 60. ?round i = None)" using k(1,2) by auto
    moreover have "r = Inl (CenterNotFound msg_discovery_cancelled) \<longleftrightarrow>
        attempts ?round 0 60 = Some (Inl (CenterNotFound msg_discovery_cancelled))"
      by (simp add: Some)
    then have "r = Inl (CenterNotFound msg_discovery_cancelled) \<longleftrightarrow>
        (\<exists>j < 60. ?round j = Some (Inl (CenterNotFound msg_discovery_cancelled))
           \<and> (\<forall>i < j. ?round i = None))"
      by (simp only: attempts_Some add_0)
    moreover have "discover rx get_nodes cancelled = r" by (simp add: discover_def Some)
    moreover have "r = Inl e \<longrightarrow> e = CenterNotFound msg_discovery_cancelled" for e
      using k(2) stop by auto
    ultimately show ?thesis using neq by (auto simp: go_on stop)
  qed
qed

end
