(* ===== verification/Player_List.thy ===== *)
theory Player_List
  imports Models Systems
begin

text \<open>
  The player list of the centre (the free functions at the end of \<open>center/scaffolding_center.rs\<close>):
  updates by pings, removal on disconnection, and the notification of subscribers.  The list is
  behind a lock that is tried a bounded number of times; whether a try succeeds is an argument.
\<close>

section \<open>The lock\<close>

definition lock_retry_limit :: nat where
  "lock_retry_limit = 10000"

text \<open>\<open>lock i\<close> tells whether the \<open>i\<close>-th \<open>try_write\<close> or \<open>try_read\<close> of the call gets the lock.\<close>

type_synonym lock_tries = "nat \<Rightarrow> bool"

definition obtains_lock :: "lock_tries \<Rightarrow> bool" where
  "obtains_lock lock \<longleftrightarrow>
     attempts (\<lambda>i. if lock i then Some () else None) 0 lock_retry_limit \<noteq> None"

definition with_players_write ::
  "lock_tries \<Rightarrow> (player_info list \<Rightarrow> player_info list) \<Rightarrow> player_info list \<Rightarrow> player_info list" where
  "with_players_write lock f list =
     (case attempts (\<lambda>i. if lock i then Some (f list) else None) 0 lock_retry_limit of
        Some list' \<Rightarrow> list' | None \<Rightarrow> list)"

definition with_players_read :: "lock_tries \<Rightarrow> (player_info list \<Rightarrow> 'r) \<Rightarrow> player_info list \<Rightarrow> 'r option" where
  "with_players_read lock f list =
     attempts (\<lambda>i. if lock i then Some (f list) else None) 0 lock_retry_limit"

section \<open>The operations\<close>

text \<open>The critical section of \<open>on_player_ping_impl\<close>.\<close>

definition refresh_player :: "player_info \<Rightarrow> player_info \<Rightarrow> player_info" where
  "refresh_player info existing =
     existing\<lparr> pi_name := pi_name info,
               pi_easytier_id := (if pi_easytier_id info \<noteq> None then pi_easytier_id info
                                  else pi_easytier_id existing),
               pi_vendor := pi_vendor info \<rparr>"

definition ping_section :: "player_info \<Rightarrow> player_info list \<Rightarrow> player_info list" where
  "ping_section info list =
     (case position (\<lambda>p. pi_machine_id p = pi_machine_id info) list of
        Some i \<Rightarrow> list[i := refresh_player info (list ! i)]
      | None \<Rightarrow> list @ [info\<lparr>pi_kind := Guest\<rparr>])"

text \<open>The critical section of \<open>on_client_disconnected_impl\<close>.\<close>

definition leave_section :: "string \<Rightarrow> player_info list \<Rightarrow> player_info list" where
  "leave_section mid list =
     (case position (\<lambda>p. pi_machine_id p = mid) list of
        Some idx \<Rightarrow> if pi_kind (list ! idx) \<noteq> Host then remove_at idx list else list
      | None \<Rightarrow> list)"

text \<open>The list and what went through the watch channel, the newest value last.\<close>

record roster_state =
  players :: "player_info list"
  players_changed :: "player_info list list"

definition notify_players_changed :: "lock_tries \<Rightarrow> roster_state \<Rightarrow> roster_state" where
  "notify_players_changed rd s =
     s\<lparr> players_changed := players_changed s @ [unwrap_or [] (with_players_read rd (\<lambda>l. l) (players s))] \<rparr>"

definition on_player_ping_impl ::
  "lock_tries \<Rightarrow> lock_tries \<Rightarrow> player_info \<Rightarrow> roster_state \<Rightarrow> roster_state" where
  "on_player_ping_impl wr rd info s =
     notify_players_changed rd (s\<lparr> players := with_players_write wr (ping_section info) (players s) \<rparr>)"

definition on_client_disconnected_impl ::
  "lock_tries \<Rightarrow> lock_tries \<Rightarrow> string option \<Rightarrow> roster_state \<Rightarrow> roster_state" where
  "on_client_disconnected_impl wr rd machine_id s =
     notify_players_changed rd
       (case machine_id of
          Some mid \<Rightarrow> s\<lparr> players := with_players_write wr (leave_section mid) (players s) \<rparr>
        | None \<Rightarrow> s)"

text \<open>\<open>get_players\<close>, and the same expression in the handler of \<open>c:player_profiles_list\<close>.\<close>

definition get_players :: "lock_tries \<Rightarrow> roster_state \<Rightarrow> player_info list" where
  "get_players rd s = unwrap_or [] (with_players_read rd (\<lambda>l. l) (players s))"

text \<open>A call of the two operations with the outcomes of its lock attempts.\<close>

datatype roster_op =
    Player_ping lock_tries lock_tries player_info
  | Player_gone lock_tries lock_tries "string option"

fun roster_step :: "roster_op \<Rightarrow> roster_state \<Rightarrow> roster_state" where
  "roster_step (Player_ping wr rd info) s = on_player_ping_impl wr rd info s"
| "roster_step (Player_gone wr rd mid) s = on_client_disconnected_impl wr rd mid s"

section \<open>The abstract roster\<close>

text \<open>
  What the list stands for: a map from machine ids to players.  A ping merges into it, a departure
  removes a guest.
\<close>

definition roster_of :: "player_info list \<Rightarrow> string \<rightharpoonup> player_info" where
  "roster_of list = map_of (map (\<lambda>p. (pi_machine_id p, p)) list)"

definition roster_ping :: "player_info \<Rightarrow> (string \<rightharpoonup> player_info) \<Rightarrow> string \<rightharpoonup> player_info" where
  "roster_ping info m =
     m(pi_machine_id info \<mapsto> (case m (pi_machine_id info) of
         Some existing \<Rightarrow> refresh_player info existing
       | None \<Rightarrow> info\<lparr>pi_kind := Guest\<rparr>))"

definition roster_leave :: "string \<Rightarrow> (string \<rightharpoonup> player_info) \<Rightarrow> string \<rightharpoonup> player_info" where
  "roster_leave mid m =
     (case m mid of
        Some p \<Rightarrow> if pi_kind p \<noteq> Host then m(mid := None) else m
      | None \<Rightarrow> m)"

lemma roster_leave_host:
  "m mid = Some p \<Longrightarrow> pi_kind p = Host \<Longrightarrow> roster_leave k m mid = Some p"
  by (auto simp: roster_leave_def split: option.split)

lemma roster_ping_host:
  "m mid = Some p \<Longrightarrow> pi_kind p = Host \<Longrightarrow>
     \<exists>p'. roster_ping info m mid = Some p' \<and> pi_kind p' = Host"
  by (auto simp: roster_ping_def refresh_player_def)

definition unique_ids :: "player_info list \<Rightarrow> bool" where
  "unique_ids list \<longleftrightarrow> distinct (map pi_machine_id list)"

section \<open>Locks\<close>

lemma obtains_lock_iff: "obtains_lock lock \<longleftrightarrow> (\<exists>i < lock_retry_limit. lock i)"
  by (auto simp: obtains_lock_def attempts_None)

lemma locked_attempts:
  "attempts (\<lambda>i. if lock i then Some r else None) 0 n = (if \<exists>i < n. lock i then Some r else None)"
proof (cases "attempts (\<lambda>i. if lock i then Some r else None) 0 n")
  case None
  then show ?thesis by (auto simp: attempts_None split: if_splits)
next
  case (Some x)
  then show ?thesis by (auto simp: attempts_Some split: if_splits)
qed

lemma with_players_write_eq [simp]:
  "with_players_write lock f list = (if obtains_lock lock then f list else list)"
  unfolding with_players_write_def locked_attempts obtains_lock_iff by auto

lemma with_players_read_eq [simp]:
  "with_players_read lock f list = (if obtains_lock lock then Some (f list) else None)"
  by (simp add: with_players_read_def locked_attempts obtains_lock_iff)

lemma players_notify [simp]: "players (notify_players_changed rd s) = players s"
  by (simp add: notify_players_changed_def)

lemma players_ping:
  "players (on_player_ping_impl wr rd info s) =
     (if obtains_lock wr then ping_section info (players s) else players s)"
  by (simp add: on_player_ping_impl_def)

lemma players_disconnected:
  "players (on_client_disconnected_impl wr rd mid s) =
     (case mid of Some m \<Rightarrow> if obtains_lock wr then leave_section m (players s) else players s
      | None \<Rightarrow> players s)"
  by (simp add: on_client_disconnected_impl_def split: option.split)

section \<open>The sections and the roster\<close>

lemma refresh_player_sel [simp]:
  "pi_machine_id (refresh_player info p) = pi_machine_id p"
  "pi_kind (refresh_player info p) = pi_kind p"
  "pi_name (refresh_player info p) = pi_name info"
  "pi_vendor (refresh_player info p) = pi_vendor info"
  by (simp_all add: refresh_player_def)

lemma refresh_player_easytier:
  "pi_easytier_id (refresh_player info p) =
     (if pi_easytier_id info \<noteq> None then pi_easytier_id info else pi_easytier_id p)"
  by (simp add: refresh_player_def)

lemma roster_of_None: "roster_of list mid = None \<longleftrightarrow> (\<forall>p \<in> set list. pi_machine_id p \<noteq> mid)"
  by (auto simp: roster_of_def map_of_eq_None_iff image_image)

lemma roster_of_position:
  "position (\<lambda>p. pi_machine_id p = mid) list = Some i \<Longrightarrow> roster_of list mid = Some (list ! i)"
proof (induction list arbitrary: i)
  case Nil
  then show ?case by simp
next
  case (Cons p list)
  then show ?case by (auto simp: roster_of_def split: if_splits)
qed

lemma roster_of_update:
  assumes "i < length list" and "pi_machine_id q = pi_machine_id (list ! i)" and "unique_ids list"
  shows "roster_of (list[i := q]) = (roster_of list)(pi_machine_id q \<mapsto> q)"
  using assms
proof (induction list arbitrary: i)
  case Nil
  then show ?case by simp
next
  case (Cons p list)
  show ?case
  proof (cases i)
    case 0
    with Cons.prems show ?thesis by (simp add: roster_of_def fun_eq_iff)
  next
    case (Suc k)
    with Cons.prems have "pi_machine_id p \<noteq> pi_machine_id q"
      by (auto simp: unique_ids_def)
    with Suc Cons show ?thesis
      by (auto simp: roster_of_def unique_ids_def fun_upd_twist)
  qed
qed

lemma roster_of_remove:
  assumes "i < length list" and "unique_ids list"
  shows "roster_of (remove_at i list) = (roster_of list)(pi_machine_id (list ! i) := None)"
  using assms
proof (induction list arbitrary: i)
  case Nil
  then show ?case by simp
next
  case (Cons p list)
  show ?case
  proof (cases i)
    case 0
    with Cons.prems have "roster_of list (pi_machine_id p) = None"
      unfolding roster_of_None unique_ids_def by (metis distinct.simps(2) image_eqI list.map(2) set_map)
    with 0 show ?thesis by (auto simp: remove_at_def roster_of_def fun_eq_iff)
  next
    case (Suc k)
    with Cons.prems have "pi_machine_id p \<noteq> pi_machine_id (list ! k)"
      by (auto simp: unique_ids_def)
    with Suc Cons show ?thesis
      by (auto simp: roster_of_def unique_ids_def remove_at_def fun_upd_twist)
  qed
qed

lemma ids_ping_section:
  "map pi_machine_id (ping_section info list) =
     map pi_machine_id list @
     (if position (\<lambda>p. pi_machine_id p = pi_machine_id info) list = None
      then [pi_machine_id info] else [])"
proof (cases "position (\<lambda>p. pi_machine_id p = pi_machine_id info) list")
  case None
  then show ?thesis by (simp add: ping_section_def)
next
  case (Some i)
  have "(map pi_machine_id list)[i := pi_machine_id (list ! i)] = map pi_machine_id list"
    by (metis list_update_beyond list_update_id not_le_imp_less nth_map length_map)
  with Some show ?thesis by (simp add: ping_section_def map_update)
qed

lemma unique_ids_ping: "unique_ids list \<Longrightarrow> unique_ids (ping_section info list)"
  by (auto simp: unique_ids_def ids_ping_section position_None)

lemma unique_ids_leave: "unique_ids list \<Longrightarrow> unique_ids (leave_section mid list)"
  by (auto simp: unique_ids_def leave_section_def map_remove_at distinct_remove_at split: option.split)

lemma roster_of_ping:
  assumes "unique_ids list"
  shows "roster_of (ping_section info list) = roster_ping info (roster_of list)"
proof (cases "position (\<lambda>p. pi_machine_id p = pi_machine_id info) list")
  case None
  then have "roster_of list (pi_machine_id info) = None"
    by (simp add: position_None roster_of_None)
  with None show ?thesis
    by (auto simp: ping_section_def roster_ping_def roster_of_def map_add_def fun_eq_iff split: option.split)
next
  case (Some i)
  then have i: "i < length list" "pi_machine_id (list ! i) = pi_machine_id info"
    by (simp_all add: position_Some)
  with Some assms show ?thesis
    by (simp add: ping_section_def roster_ping_def roster_of_position roster_of_update)
qed

lemma roster_of_leave:
  assumes "unique_ids list"
  shows "roster_of (leave_section mid list) = roster_leave mid (roster_of list)"
proof (cases "position (\<lambda>p. pi_machine_id p = mid) list")
  case None
  then have "roster_of list mid = None"
    by (simp add: position_None roster_of_None)
  with None show ?thesis by (simp add: leave_section_def roster_leave_def)
next
  case (Some i)
  then have i: "i < length list" "pi_machine_id (list ! i) = mid"
    by (simp_all add: position_Some)
  with Some assms show ?thesis
    using roster_of_remove [OF i(1) assms]
    by (simp add: leave_section_def roster_leave_def roster_of_position)
qed

section \<open>Rosters as an interface\<close>

text \<open>
  What the centre relies on: pings and departures act on the abstract roster through the
  abstraction, in every state that satisfies the invariant.
\<close>

locale roster =
  fixes ping :: "player_info \<Rightarrow> 's \<Rightarrow> 's" and leave :: "string \<Rightarrow> 's \<Rightarrow> 's"
    and \<alpha> :: "'s \<Rightarrow> string \<rightharpoonup> player_info" and invar :: "'s \<Rightarrow> bool"
  assumes ping_invar: "invar s \<Longrightarrow> invar (ping info s)"
    and leave_invar: "invar s \<Longrightarrow> invar (leave mid s)"
    and ping_abs: "invar s \<Longrightarrow> \<alpha> (ping info s) = roster_ping info (\<alpha> s)"
    and leave_abs: "invar s \<Longrightarrow> \<alpha> (leave mid s) = roster_leave mid (\<alpha> s)"
begin

lemma host_stays:
  assumes "invar s" and "\<alpha> s mid = Some p" and "pi_kind p = Host"
  shows "\<exists>p'. \<alpha> (ping info s) mid = Some p' \<and> pi_kind p' = Host"
    and "\<alpha> (leave m s) mid = Some p"
  using assms by (simp_all add: ping_abs leave_abs roster_ping_host roster_leave_host)

lemma guest_leaves:
  assumes "invar s" and "\<alpha> s mid = Some p" and "pi_kind p = Guest"
  shows "\<alpha> (leave mid s) mid = None"
  using assms by (simp add: leave_abs roster_leave_def)

lemma ping_registers:
  assumes "invar s"
  shows "\<exists>p. \<alpha> (ping info s) (pi_machine_id info) = Some p
       \<and> pi_name p = pi_name info \<and> pi_vendor p = pi_vendor info"
  using assms by (auto simp: ping_abs roster_ping_def split: option.split)

lemma ping_keeps_easytier_id:
  assumes "invar s" and "\<alpha> s mid = Some p" and "pi_easytier_id p \<noteq> None"
  shows "\<exists>p'. \<alpha> (ping info s) mid = Some p' \<and> pi_easytier_id p' \<noteq> None"
  using assms by (auto simp: ping_abs roster_ping_def refresh_player_easytier)

lemma others_unchanged:
  assumes "invar s"
  shows "m \<noteq> pi_machine_id info \<Longrightarrow> \<alpha> (ping info s) m = \<alpha> s m"
    and "m \<noteq> mid \<Longrightarrow> \<alpha> (leave mid s) m = \<alpha> s m"
  using assms by (auto simp: ping_abs leave_abs roster_ping_def roster_leave_def split: option.split)

end

interpretation player_list: roster ping_section leave_section roster_of unique_ids
  by unfold_locales (simp_all add: unique_ids_ping unique_ids_leave roster_of_ping roster_of_leave)

section \<open>Histories\<close>

text \<open>The abstract effect of a call: nothing when it did not get the write lock.\<close>

fun roster_effect :: "roster_op \<Rightarrow> (string \<rightharpoonup> player_info) \<Rightarrow> string \<rightharpoonup> player_info" where
  "roster_effect (Player_ping wr rd info) m = (if obtains_lock wr then roster_ping info m else m)"
| "roster_effect (Player_gone wr rd (Some mid)) m = (if obtains_lock wr then roster_leave mid m else m)"
| "roster_effect (Player_gone wr rd None) m = m"

lemma roster_step_abs:
  assumes "unique_ids (players s)"
  shows "unique_ids (players (roster_step op s))
       \<and> roster_of (players (roster_step op s)) = roster_effect op (roster_of (players s))"
  using assms
  by (cases op; cases "case op of Player_gone _ _ mid \<Rightarrow> mid | _ \<Rightarrow> None")
    (auto simp: players_ping players_disconnected unique_ids_ping unique_ids_leave
      roster_of_ping roster_of_leave)

lemma roster_history_abs:
  assumes "unique_ids (players s)"
  shows "unique_ids (players (fold roster_step ops s))
       \<and> roster_of (players (fold roster_step ops s)) = fold roster_effect ops (roster_of (players s))"
  using assms by (induction ops arbitrary: s) (auto simp: roster_step_abs)

lemma roster_effect_host:
  assumes "m mid = Some p" and "pi_kind p = Host"
  shows "\<exists>p'. roster_effect op m mid = Some p' \<and> pi_kind p' = Host"
  using assms
  by (cases op; cases "case op of Player_gone _ _ k \<Rightarrow> k | _ \<Rightarrow> None")
    (auto simp: roster_ping_host roster_leave_host)

lemma roster_effects_host:
  assumes "m mid = Some p" and "pi_kind p = Host"
  shows "\<exists>p'. fold roster_effect ops m mid = Some p' \<and> pi_kind p' = Host"
  using assms
proof (induction ops arbitrary: m p)
  case Nil
  then show ?case by simp
next
  case (Cons op ops)
  from roster_effect_host [where m = m, OF Cons.prems] show ?case using Cons.IH by auto
qed

section \<open>Properties\<close>

text \<open>
  C1: for every history of pings and disconnections, whatever their lock attempts do, the list keeps
  one entry per machine id and represents exactly the abstract roster: a ping that gets the lock
  merges into the entry of its machine or adds a guest, a disconnection that gets it removes the
  guest, one that does not changes nothing.
\<close>

theorem player_list_refines_roster:
  assumes "unique_ids (players s)"
  shows "unique_ids (players (fold roster_step ops s))
       \<and> roster_of (players (fold roster_step ops s)) = fold roster_effect ops (roster_of (players s))"
  by (rule roster_history_abs [OF assms])

definition sample_player :: "string \<Rightarrow> string \<Rightarrow> player_kind \<Rightarrow> player_info" where
  "sample_player name mid kind =
     \<lparr> pi_name = name, pi_machine_id = mid, pi_easytier_id = None, pi_vendor = ''v'', pi_kind = kind \<rparr>"

theorem player_list_refines_roster_witness:
  "roster_of (players (fold roster_step
      [Player_ping (\<lambda>_. True) (\<lambda>_. True) (sample_player ''B'' ''m2'' Host)]
      \<lparr>players = [sample_player ''A'' ''m1'' Host], players_changed = []\<rparr>)) ''m2''
   = Some (sample_player ''B'' ''m2'' Guest)"
proof -
  have "unique_ids (players \<lparr>players = [sample_player ''A'' ''m1'' Host], players_changed = []\<rparr>)"
    by (simp add: unique_ids_def)
  from player_list_refines_roster [OF this,
      of "[Player_ping (\<lambda>_. True) (\<lambda>_. True) (sample_player ''B'' ''m2'' Host)]"]
  have eff: "roster_of (players (fold roster_step
        [Player_ping (\<lambda>_. True) (\<lambda>_. True) (sample_player ''B'' ''m2'' Host)]
        \<lparr>players = [sample_player ''A'' ''m1'' Host], players_changed = []\<rparr>))
      = roster_effect (Player_ping (\<lambda>_. True) (\<lambda>_. True) (sample_player ''B'' ''m2'' Host))
          (roster_of [sample_player ''A'' ''m1'' Host])"
    by simp
  have "\<exists>i. i < lock_retry_limit" by (rule exI [of _ 0]) (simp add: lock_retry_limit_def)
  then show ?thesis
    unfolding eff by (simp add: obtains_lock_iff roster_ping_def roster_of_def sample_player_def)
qed

text \<open>
  The host is never removed from the list and never becomes a guest, whatever players ping and
  whatever machine ids are reported as disconnected, its own included.
\<close>

lemma host_never_removed:
  assumes "unique_ids (players s)"
    and "roster_of (players s) mid = Some host" and "pi_kind host = Host"
  shows "\<exists>p. roster_of (players (fold roster_step ops s)) mid = Some p \<and> pi_kind p = Host"
  using roster_history_abs [OF assms(1), of ops] roster_effects_host [where m = "roster_of (players s)", OF assms(2,3), of ops] by simp

text \<open>
  After each call whose read attempts get the lock, subscribers last received exactly the
  current list; a call whose reads all fail tells them that the list is empty, whatever it holds.
\<close>

lemma notification_shows_list:
  "players_changed (roster_step op s) =
     players_changed s @ [if obtains_lock (case op of Player_ping _ rd _ \<Rightarrow> rd | Player_gone _ rd _ \<Rightarrow> rd)
                          then players (roster_step op s) else []]"
  by (cases op)
    (auto simp: on_player_ping_impl_def on_client_disconnected_impl_def notify_players_changed_def
      split: option.split)

section \<open>Concurrent calls\<close>

text \<open>
  The calls run on several threads.  Each takes the lock twice, for the update and for the snapshot
  it sends, and holds none while it sends: three steps, which other calls interleave.
\<close>

datatype call_pc = At_update | At_snapshot | At_send "player_info list" | Returned

fun call_step :: "roster_op \<Rightarrow> call_pc \<Rightarrow> roster_state \<Rightarrow> call_pc \<times> roster_state" where
  "call_step (Player_ping wr rd info) At_update s =
     (At_snapshot, s\<lparr> players := with_players_write wr (ping_section info) (players s) \<rparr>)"
| "call_step (Player_gone wr rd (Some mid)) At_update s =
     (At_snapshot, s\<lparr> players := with_players_write wr (leave_section mid) (players s) \<rparr>)"
| "call_step (Player_gone wr rd None) At_update s = (At_snapshot, s)"
| "call_step (Player_ping wr rd info) At_snapshot s = (At_send (get_players rd s), s)"
| "call_step (Player_gone wr rd mid) At_snapshot s = (At_send (get_players rd s), s)"
| "call_step op (At_send l) s = (Returned, s\<lparr> players_changed := players_changed s @ [l] \<rparr>)"
| "call_step op Returned s = (Returned, s)"

text \<open>Alone, a call does what the sequential operation does.\<close>

lemma call_alone:
  "(let (pc1, s1) = call_step op At_update s; (pc2, s2) = call_step op pc1 s1 in call_step op pc2 s2)
     = (Returned, roster_step op s)"
  by (cases op; cases "case op of Player_gone _ _ k \<Rightarrow> k | _ \<Rightarrow> None")
    (auto simp: on_player_ping_impl_def on_client_disconnected_impl_def notify_players_changed_def
      get_players_def)

text \<open>
  A schedule names the call that takes the next step; \<open>ops ! i\<close> is call \<open>i\<close>.  The third component
  collects the numbers of the calls whose update has happened, in that order.
\<close>

fun interleave ::
  "roster_op list \<Rightarrow> nat list \<Rightarrow> call_pc list \<times> roster_state \<times> nat list
     \<Rightarrow> call_pc list \<times> roster_state \<times> nat list" where
  "interleave ops [] c = c"
| "interleave ops (i # sched) (pcs, s, acted) =
     (if i < length ops \<and> i < length pcs
      then let (pc, s') = call_step (ops ! i) (pcs ! i) s
           in interleave ops sched
                (pcs[i := pc], s', if pcs ! i = At_update then acted @ [i] else acted)
      else interleave ops sched (pcs, s, acted))"

definition all_calls :: "roster_op list \<Rightarrow> call_pc list" where
  "all_calls ops = replicate (length ops) At_update"

lemma interleave_append: "interleave ops (sched1 @ sched2) c = interleave ops sched2 (interleave ops sched1 c)"
  by (induction ops sched1 c rule: interleave.induct) (simp_all add: Let_def case_prod_beta)

lemma interleave_grows: "interleave ops sched (pcs, s, acted) = (pcs', s', acted') \<Longrightarrow> \<exists>later. acted' = acted @ later"
proof (induction ops sched "(pcs, s, acted)" arbitrary: pcs s acted rule: interleave.induct)
  case (2 ops i sched pcs s acted)
  then show ?case by (force simp: Let_def split: if_splits prod.splits)
qed simp

text \<open>What a call does to the list when it gets its turn, and whether it can read the list afterwards.\<close>

fun update_of :: "roster_op \<Rightarrow> player_info list \<Rightarrow> player_info list" where
  "update_of (Player_ping wr rd info) l = (if obtains_lock wr then ping_section info l else l)"
| "update_of (Player_gone wr rd (Some mid)) l = (if obtains_lock wr then leave_section mid l else l)"
| "update_of (Player_gone wr rd None) l = l"

fun can_read :: "roster_op \<Rightarrow> bool" where
  "can_read (Player_ping wr rd info) = obtains_lock rd"
| "can_read (Player_gone wr rd mid) = obtains_lock rd"

lemma unique_ids_update_of: "unique_ids l \<Longrightarrow> unique_ids (update_of op l)"
  by (cases op; cases "case op of Player_gone _ _ k \<Rightarrow> k | _ \<Rightarrow> None")
    (auto simp: unique_ids_ping unique_ids_leave)

text \<open>The list that the calls numbered \<open>is\<close> build one after the other.\<close>

definition sequential :: "roster_op list \<Rightarrow> nat list \<Rightarrow> player_info list \<Rightarrow> player_info list" where
  "sequential ops is l = fold (\<lambda>i. update_of (ops ! i)) is l"

text \<open>Call \<open>i\<close> saw the list as it was after its own update and perhaps later ones; or it could not read it.\<close>

definition saw :: "roster_op list \<Rightarrow> player_info list \<Rightarrow> nat list \<Rightarrow> nat \<Rightarrow> player_info list \<Rightarrow> bool" where
  "saw ops l0 acted i l \<longleftrightarrow>
     (\<exists>k \<le> length acted. i \<in> set (take k acted)
        \<and> l = (if can_read (ops ! i) then sequential ops (take k acted) l0 else []))"

lemma saw_later: "saw ops l0 acted i l \<Longrightarrow> saw ops l0 (acted @ later) i l"
  unfolding saw_def by (elim exE conjE, rule_tac x = k in exI) simp

lemma saw_now: "i \<in> set acted \<Longrightarrow> l = (if can_read (ops ! i) then sequential ops acted l0 else []) \<Longrightarrow> saw ops l0 acted i l"
  unfolding saw_def by (rule exI [of _ "length acted"]) simp

lemma call_step_at_update:
  "call_step op At_update s = (At_snapshot, s\<lparr>players := update_of op (players s)\<rparr>)"
  by (cases op; cases "case op of Player_gone _ _ k \<Rightarrow> k | _ \<Rightarrow> None") auto

lemma call_step_at_snapshot:
  "call_step op At_snapshot s = (At_send (if can_read op then players s else []), s)"
  by (cases op) (auto simp: get_players_def)

text \<open>Every call that returned has sent one list that it saw.\<close>

definition notified ::
  "roster_op list \<Rightarrow> roster_state \<Rightarrow> call_pc list \<Rightarrow> roster_state \<Rightarrow> nat list \<Rightarrow> bool" where
  "notified ops s0 pcs s acted \<longleftrightarrow>
     (\<exists>sent. players_changed s = players_changed s0 @ sent \<and> length sent = count_list pcs Returned
        \<and> (\<forall>l \<in> set sent. \<exists>i \<in> set acted. saw ops (players s0) acted i l))"

lemma notified_later:
  assumes "notified ops s0 pcs s acted" and "players_changed s' = players_changed s"
    and "count_list pcs' Returned = count_list pcs Returned"
  shows "notified ops s0 pcs' s' (acted @ later)"
proof -
  obtain sent where "players_changed s = players_changed s0 @ sent" "length sent = count_list pcs Returned"
    and seen: "\<forall>l \<in> set sent. \<exists>i \<in> set acted. saw ops (players s0) acted i l"
    using assms(1) by (auto simp: notified_def)
  moreover from seen have "\<forall>l \<in> set sent. \<exists>i \<in> set (acted @ later). saw ops (players s0) (acted @ later) i l"
    using saw_later by fastforce
  ultimately show ?thesis using assms(2,3) by (auto simp: notified_def)
qed

lemma notified_sent:
  assumes "notified ops s0 pcs s acted" and "i \<in> set acted" and "saw ops (players s0) acted i l"
    and "count_list pcs' Returned = Suc (count_list pcs Returned)"
  shows "notified ops s0 pcs' (s\<lparr>players_changed := players_changed s @ [l]\<rparr>) acted"
proof -
  obtain sent where "players_changed s = players_changed s0 @ sent" "length sent = count_list pcs Returned"
    "\<forall>l \<in> set sent. \<exists>i \<in> set acted. saw ops (players s0) acted i l"
    using assms(1) by (auto simp: notified_def)
  with assms(2-4) show ?thesis unfolding notified_def by (intro exI [of _ "sent @ [l]"]) auto
qed

text \<open>What holds while calls interleave, which started on the state \<open>s0\<close>.\<close>

fun linear_inv :: "roster_op list \<Rightarrow> roster_state \<Rightarrow> call_pc list \<times> roster_state \<times> nat list \<Rightarrow> bool" where
  "linear_inv ops s0 (pcs, s, acted) \<longleftrightarrow>
     length pcs = length ops \<and> distinct acted
   \<and> set acted = {i. i < length ops \<and> pcs ! i \<noteq> At_update}
   \<and> players s = sequential ops acted (players s0) \<and> notified ops s0 pcs s acted
   \<and> (\<forall>i l. i < length ops \<longrightarrow> pcs ! i = At_send l \<longrightarrow> saw ops (players s0) acted i l)"

lemma linear_inv_init: "linear_inv ops s (all_calls ops, s, [])"
  by (auto simp: all_calls_def sequential_def notified_def count_list_0_iff)

lemma count_list_update:
  "i < length xs \<Longrightarrow> count_list (xs[i := y]) z + (if xs ! i = z then 1 else 0) = count_list xs z + (if y = z then 1 else 0)"
proof (induction xs arbitrary: i)
  case (Cons x xs)
  then show ?case by (cases i) fastforce+
qed simp

lemma linear_inv_step:
  assumes "linear_inv ops s0 (pcs, s, acted)" and "i < length ops"
    and "call_step (ops ! i) (pcs ! i) s = (pc, s')"
  shows "linear_inv ops s0 (pcs[i := pc], s', if pcs ! i = At_update then acted @ [i] else acted)"
proof (cases "pcs ! i")
  case At_update
  have begun: "set (acted @ [i]) = {j. j < length ops \<and> pcs[i := At_snapshot] ! j \<noteq> At_update}"
    using assms(1,2) by (auto simp: nth_list_update split: if_splits)
  have "count_list (pcs[i := At_snapshot]) Returned = count_list pcs Returned"
    using count_list_update [of i pcs At_snapshot Returned] At_update assms(1,2) by simp
  with assms(1) have notified: "notified ops s0 (pcs[i := At_snapshot]) (s\<lparr>players := l\<rparr>) (acted @ [i])" for l
    by (auto intro: notified_later)
  have pending: "saw ops (players s0) (acted @ [i]) j l" if "j < length ops" "pcs[i := At_snapshot] ! j = At_send l" for j l
    using that assms(1,2) saw_later by (cases "j = i") auto
  have "pc = At_snapshot" "s' = s\<lparr>players := update_of (ops ! i) (players s)\<rparr>"
    using assms(3) At_update by (simp_all add: call_step_at_update)
  moreover have "i \<notin> set acted" using assms(1) At_update by simp
  ultimately show ?thesis
    using assms(1) begun notified pending At_update by (simp add: sequential_def)
next
  case At_snapshot
  let ?l = "if can_read (ops ! i) then players s else []"
  have step: "pc = At_send ?l" "s' = s" using assms(3) At_snapshot by (simp_all add: call_step_at_snapshot)
  have "saw ops (players s0) acted i ?l"
    using assms(1,2) At_snapshot by (intro saw_now) auto
  then have pending: "saw ops (players s0) acted j l" if "j < length ops" "pcs[i := At_send ?l] ! j = At_send l" for j l
    using that assms(1,2) by (cases "j = i") auto
  have "count_list (pcs[i := At_send ?l]) Returned = count_list pcs Returned"
    using count_list_update [of i pcs "At_send ?l" Returned] At_snapshot assms(1,2) by simp
  with assms(1) have "notified ops s0 (pcs[i := At_send ?l]) s acted"
    using notified_later [of ops s0 pcs s acted s _ "[]"] by simp
  moreover have "set acted = {j. j < length ops \<and> pcs[i := At_send ?l] ! j \<noteq> At_update}"
    using assms(1,2) At_snapshot by (auto simp: nth_list_update split: if_splits)
  ultimately show ?thesis using assms(1) At_snapshot pending unfolding step by simp
next
  case (At_send l)
  have step: "pc = Returned" "s' = s\<lparr>players_changed := players_changed s @ [l]\<rparr>"
    using assms(3) At_send by simp_all
  have "i \<in> set acted" "saw ops (players s0) acted i l" using assms(1,2) At_send by simp_all
  moreover have "count_list (pcs[i := Returned]) Returned = Suc (count_list pcs Returned)"
    using count_list_update [of i pcs Returned Returned] At_send assms(1,2) by simp
  ultimately have "notified ops s0 (pcs[i := Returned]) s' acted"
    using assms(1) unfolding step by (auto intro: notified_sent)
  moreover have "saw ops (players s0) acted j l" if "j < length ops" "pcs[i := Returned] ! j = At_send l" for j l
    using that assms(1,2) by (cases "j = i") auto
  moreover have "set acted = {j. j < length ops \<and> pcs[i := Returned] ! j \<noteq> At_update}"
    using assms(1,2) At_send by (auto simp: nth_list_update split: if_splits)
  ultimately show ?thesis using assms(1) At_send unfolding step by simp
next
  case Returned
  then have "pc = Returned" "s' = s" using assms(3) by simp_all
  moreover from Returned have "pcs[i := Returned] = pcs" using list_update_id [of pcs i] by simp
  ultimately show ?thesis using assms(1) Returned by simp
qed

lemma linear_inv_interleave:
  "linear_inv ops s0 (pcs, s, acted) \<Longrightarrow> linear_inv ops s0 (interleave ops sched (pcs, s, acted))"
proof (induction ops sched "(pcs, s, acted)" arbitrary: pcs s acted rule: interleave.induct)
  case (2 ops i sched pcs s acted)
  show ?case
  proof (cases "i < length ops \<and> i < length pcs")
    case True
    obtain pc s' where step: "call_step (ops ! i) (pcs ! i) s = (pc, s')" by fastforce
    from linear_inv_step [OF 2(3) _ step] True 2(1) [OF True step [symmetric] refl] step
    show ?thesis by (simp del: linear_inv.simps)
  next
    case False
    with 2 show ?thesis by (auto simp del: linear_inv.simps)
  qed
qed simp

text \<open>
  C26: concurrent calls are linearizable.  However their steps interleave, every call that has begun
  takes effect exactly once, and the list, order included, is the one that the calls build one
  after the other in the order of their effects; that order only grows, so a call that returned
  before another began is ahead of it.  Every call that returned has sent exactly one list to the
  subscribers: the one after its own effect and perhaps later ones, or the empty list if it could
  not read.
\<close>

theorem interleaving_linearizes:
  assumes "interleave ops sched (all_calls ops, s, []) = (pcs, s', acted)"
  shows "distinct acted \<and> set acted = {i. i < length ops \<and> pcs ! i \<noteq> At_update}
    \<and> players s' = sequential ops acted (players s)
    \<and> (\<forall>sched1 sched2. sched = sched1 @ sched2 \<longrightarrow>
         (\<exists>later. acted = snd (snd (interleave ops sched1 (all_calls ops, s, []))) @ later))
    \<and> (\<exists>sent. players_changed s' = players_changed s @ sent \<and> length sent = count_list pcs Returned
         \<and> (\<forall>l \<in> set sent. \<exists>i \<in> set acted. saw ops (players s) acted i l))"
proof -
  have "linear_inv ops s (pcs, s', acted)"
    using linear_inv_interleave [OF linear_inv_init, of ops s sched] assms by (simp del: linear_inv.simps)
  then have inv: "distinct acted" "set acted = {i. i < length ops \<and> pcs ! i \<noteq> At_update}"
    "players s' = sequential ops acted (players s)" "notified ops s pcs s' acted" by simp_all
  have "\<exists>later. acted = snd (snd (interleave ops sched1 (all_calls ops, s, []))) @ later"
    if "sched = sched1 @ sched2" for sched1 sched2
  proof -
    obtain pcs1 s1 acted1 where "interleave ops sched1 (all_calls ops, s, []) = (pcs1, s1, acted1)" by (metis prod_cases3)
    with that assms show ?thesis using interleave_grows [of ops sched2 pcs1 s1 acted1] by (simp add: interleave_append)
  qed
  then show ?thesis using inv by (intro conjI allI impI) (simp_all only: notified_def)
qed

text \<open>Two guests ping at the same time, and the first one sends its list last.\<close>

definition two_pings :: "roster_op list" where
  "two_pings = [Player_ping (\<lambda>_. True) (\<lambda>_. True) (sample_player ''B'' ''m2'' Guest),
                Player_ping (\<lambda>_. True) (\<lambda>_. True) (sample_player ''C'' ''m3'' Guest)]"

lemma obtains_free_lock [simp]: "obtains_lock (\<lambda>_. True)"
  unfolding obtains_lock_iff by (rule exI [of _ 0]) (simp add: lock_retry_limit_def)

lemma two_pings_interleaved:
  "interleave two_pings [0, 0, 1, 1, 1, 0] (all_calls two_pings, \<lparr>players = [], players_changed = []\<rparr>, [])
   = ([Returned, Returned],
      \<lparr>players = [sample_player ''B'' ''m2'' Guest, sample_player ''C'' ''m3'' Guest],
       players_changed = [[sample_player ''B'' ''m2'' Guest, sample_player ''C'' ''m3'' Guest],
                          [sample_player ''B'' ''m2'' Guest]]\<rparr>, [0, 1])"
  by (simp add: two_pings_def all_calls_def ping_section_def sample_player_def get_players_def numeral_2_eq_2)

theorem interleaving_linearizes_witness:
  "sequential two_pings [0, 1] [] = [sample_player ''B'' ''m2'' Guest, sample_player ''C'' ''m3'' Guest]
 \<and> (\<exists>i \<in> {0, 1}. saw two_pings [] [0, 1] i [sample_player ''B'' ''m2'' Guest])"
proof -
  note l = interleaving_linearizes [OF two_pings_interleaved]
  show ?thesis
  proof
    show "sequential two_pings [0, 1] [] = [sample_player ''B'' ''m2'' Guest, sample_player ''C'' ''m3'' Guest]"
      using l [THEN conjunct2, THEN conjunct2, THEN conjunct1] by simp
    show "\<exists>i \<in> {0, 1}. saw two_pings [] [0, 1] i [sample_player ''B'' ''m2'' Guest]"
      using l [THEN conjunct2, THEN conjunct2, THEN conjunct2, THEN conjunct2] by auto
  qed
qed

text \<open>
  The snapshot and the sending are not one step: two pings can return with the older snapshot
  sent last, so that subscribers are left with a list that lacks a player who is in it.
\<close>

lemma stale_notification:
  "\<exists>sched s'. interleave two_pings sched (all_calls two_pings, \<lparr>players = [], players_changed = []\<rparr>, [])
        = ([Returned, Returned], s', [0, 1])
    \<and> List.last (players_changed s') = [sample_player ''B'' ''m2'' Guest]
    \<and> players s' = [sample_player ''B'' ''m2'' Guest, sample_player ''C'' ''m3'' Guest]"
  using two_pings_interleaved by (intro exI conjI) (assumption, simp_all)

end
