(* ===== verification/Protocols.thy ===== *)
theory Protocols
  imports External Player_List
begin

text \<open>
  The protocol handlers of the centre (\<open>protocols/mod.rs\<close>).  A handler has a key and answers a
  request; what it may read and change, the player list for the two player protocols, is passed
  through as a state of type \<open>'s\<close>.
\<close>

section \<open>Handlers\<close>

record 's protocol_handler =
  handler_key :: string
  handle :: "protocol_request \<Rightarrow> 's \<Rightarrow> protocol_response \<times> 's"

definition error_response :: "string \<Rightarrow> protocol_response" where
  "error_response message = \<lparr> status = 255, resp_body = into_bytes message \<rparr>"

definition ping_protocol :: "'s protocol_handler" where
  "ping_protocol =
     \<lparr> handler_key = ''c:ping'',
       handle = (\<lambda>request s. (\<lparr> status = 0, resp_body = req_body request \<rparr>, s)) \<rparr>"

definition protocols_protocol :: "string list \<Rightarrow> 's protocol_handler" where
  "protocols_protocol supported =
     \<lparr> handler_key = ''c:protocols'',
       handle = (\<lambda>_ s. (\<lparr> status = 0, resp_body = into_bytes (join [CHR 0x00] supported) \<rparr>, s)) \<rparr>"

definition server_port_protocol :: "u16 \<Rightarrow> 's protocol_handler" where
  "server_port_protocol port =
     \<lparr> handler_key = ''c:server_port'',
       handle = (\<lambda>_ s. (\<lparr> status = 0, resp_body = be16 port \<rparr>, s)) \<rparr>"

section \<open>Player pings\<close>

text \<open>The tolerant reading of a JSON value as a string: a string, or a number printed.\<close>

definition value_to_string :: "'v serde_json \<Rightarrow> 'v \<Rightarrow> string option" where
  "value_to_string js v =
     (case sj_as_str js v of
        Some s \<Rightarrow> Some s
      | None \<Rightarrow>
     (case sj_as_i64 js v of
        Some n \<Rightarrow> Some (show_int n)
      | None \<Rightarrow>
     (case sj_as_u64 js v of
        Some n \<Rightarrow> Some (show_nat n)
      | None \<Rightarrow> sj_f64_text js v)))"

definition str_or :: "'v serde_json \<Rightarrow> 'v \<Rightarrow> string \<Rightarrow> string" where
  "str_or js root key = unwrap_or [] (Option.bind (sj_get js root key) (value_to_string js))"

definition parse_player_info :: "'v serde_json \<Rightarrow> u8 list \<Rightarrow> string + player_info" where
  "parse_player_info js body =
     rbind (sj_from_slice js body) (\<lambda>root.
       Inr \<lparr> pi_name = str_or js root ''name'',
             pi_machine_id = str_or js root ''machine_id'',
             pi_easytier_id = Option.bind (sj_get js root ''easytier_id'') (value_to_string js),
             pi_vendor = str_or js root ''vendor'',
             pi_kind = Host \<rparr>)"

definition player_ping_protocol ::
  "'v serde_json \<Rightarrow> (player_info \<Rightarrow> 's \<Rightarrow> bool \<times> 's) \<Rightarrow> 's protocol_handler" where
  "player_ping_protocol js on_player_ping =
     \<lparr> handler_key = ''c:player_ping'',
       handle = (\<lambda>request s.
         case parse_player_info js (req_body request) of
           Inr info \<Rightarrow>
             (let (accepted, s') = on_player_ping info s
              in if accepted then (\<lparr> status = 0, resp_body = [] \<rparr>, s')
                 else (\<lparr> status = 255, resp_body = into_bytes msg_kicked \<rparr>, s'))
         | Inl e \<Rightarrow> (error_response (msg_ping_parse @ e), s)) \<rparr>"

section \<open>The list of player profiles\<close>

definition player_to_entry :: "player_info \<Rightarrow> player_profile_entry" where
  "player_to_entry p =
     \<lparr> pe_name = pi_name p, pe_machine_id = pi_machine_id p, pe_easytier_id = pi_easytier_id p,
       pe_vendor = pi_vendor p,
       pe_kind = Some (case pi_kind p of Host \<Rightarrow> ''HOST'' | Guest \<Rightarrow> ''GUEST'') \<rparr>"

definition player_profiles_list_protocol ::
  "'v serde_json \<Rightarrow> ('s \<Rightarrow> player_info list \<times> 's) \<Rightarrow> 's protocol_handler" where
  "player_profiles_list_protocol js get_list =
     \<lparr> handler_key = ''c:player_profiles_list'',
       handle = (\<lambda>_ s.
         let (list, s') = get_list s
         in case sj_entries_to_vec js (map player_to_entry list) of
              Inr body \<Rightarrow> (\<lparr> status = 0, resp_body = body \<rparr>, s')
            | Inl e \<Rightarrow> (error_response (msg_list_ser @ e), s')) \<rparr>"

section \<open>Delegated protocols\<close>

text \<open>
  The four constructors of \<open>DelegateProtocol\<close>; the caller's function may use the state.  The JSON
  ones take the (de)serialiser of the caller's types.
\<close>

definition delegate_raw :: "string \<Rightarrow> (u8 list \<Rightarrow> 's \<Rightarrow> u8 list \<times> 's) \<Rightarrow> 's protocol_handler" where
  "delegate_raw key handler =
     \<lparr> handler_key = key,
       handle = (\<lambda>req s. let (body, s') = handler (req_body req) s
                          in (\<lparr> status = 0, resp_body = body \<rparr>, s')) \<rparr>"

definition delegate_new ::
  "string \<Rightarrow> (protocol_request \<Rightarrow> 's \<Rightarrow> protocol_response \<times> 's) \<Rightarrow> 's protocol_handler" where
  "delegate_new key handler = \<lparr> handler_key = key, handle = handler \<rparr>"

definition json_reply :: "('r \<Rightarrow> string + u8 list) \<Rightarrow> 'r \<times> 's \<Rightarrow> protocol_response \<times> 's" where
  "json_reply to_vec rs =
     (case to_vec (fst rs) of
        Inr body \<Rightarrow> (\<lparr> status = 0, resp_body = body \<rparr>, snd rs)
      | Inl e \<Rightarrow> (error_response (msg_resp_ser @ e), snd rs))"

definition delegate_json ::
  "('r \<Rightarrow> string + u8 list) \<Rightarrow> string \<Rightarrow> ('s \<Rightarrow> 'r \<times> 's) \<Rightarrow> 's protocol_handler" where
  "delegate_json to_vec key handler =
     \<lparr> handler_key = key, handle = (\<lambda>_ s. json_reply to_vec (handler s)) \<rparr>"

definition delegate_json_req ::
  "('q \<Rightarrow> 's \<Rightarrow> 'r \<times> 's) \<Rightarrow> 'q \<Rightarrow> (u8 list \<Rightarrow> string + 'q) \<Rightarrow> ('r \<Rightarrow> string + u8 list) \<Rightarrow> string
     \<Rightarrow> 's protocol_handler" where
  "delegate_json_req handler default_arg from_slice to_vec key =
     \<lparr> handler_key = key,
       handle = (\<lambda>req s.
         case (if req_body req = [] then Inr default_arg else from_slice (req_body req)) of
           Inr arg \<Rightarrow> json_reply to_vec (handler arg s)
         | Inl e \<Rightarrow> (error_response (msg_req_de @ e), s)) \<rparr>"

section \<open>Evaluation of the handlers\<close>

lemma handler_keys [simp]:
  "handler_key ping_protocol = ''c:ping''"
  "handler_key (protocols_protocol supported) = ''c:protocols''"
  "handler_key (server_port_protocol port) = ''c:server_port''"
  "handler_key (player_ping_protocol js f) = ''c:player_ping''"
  "handler_key (player_profiles_list_protocol js g) = ''c:player_profiles_list''"
  by (simp_all add: ping_protocol_def protocols_protocol_def server_port_protocol_def
      player_ping_protocol_def player_profiles_list_protocol_def)

lemma handle_standard [simp]:
  "handle ping_protocol request s = (\<lparr> status = 0, resp_body = req_body request \<rparr>, s)"
  "handle (protocols_protocol supported) request s =
     (\<lparr> status = 0, resp_body = into_bytes (join [CHR 0x00] supported) \<rparr>, s)"
  "handle (server_port_protocol port) request s = (\<lparr> status = 0, resp_body = be16 port \<rparr>, s)"
  by (simp_all add: ping_protocol_def protocols_protocol_def server_port_protocol_def)

lemma handle_player_ping:
  "handle (player_ping_protocol js f) request s =
     (case parse_player_info js (req_body request) of
        Inr info \<Rightarrow> (if fst (f info s) then \<lparr> status = 0, resp_body = [] \<rparr>
                      else \<lparr> status = 255, resp_body = into_bytes msg_kicked \<rparr>, snd (f info s))
      | Inl e \<Rightarrow> (error_response (msg_ping_parse @ e), s))"
  by (simp add: player_ping_protocol_def split: sum.split prod.split)

lemma handle_profiles:
  "handle (player_profiles_list_protocol js g) request s =
     (case sj_entries_to_vec js (map player_to_entry (fst (g s))) of
        Inr body \<Rightarrow> (\<lparr> status = 0, resp_body = body \<rparr>, snd (g s))
      | Inl e \<Rightarrow> (error_response (msg_list_ser @ e), snd (g s)))"
  by (cases "g s") (simp add: player_profiles_list_protocol_def split: sum.split)

text \<open>What the player a ping body describes always looks like.\<close>

lemma parse_player_info_kind: "parse_player_info js body = Inr info \<Longrightarrow> pi_kind info = Host"
  by (auto simp: parse_player_info_def rbind_eq_Inr)

end
