(* ===== verification/Client_Registry.thy ===== *)
theory Client_Registry
  imports Frame_Codec Protocols
begin

text \<open>
  The connections of the centre (\<open>center/client_conn.rs\<close>, \<open>center/tcp_server.rs\<close>): the registry with
  its four maps, the task of each connection, the heartbeat loop and the disconnection of a machine.
  A task is a program counter; between two of its steps every other task may run.  One step is one
  critical section of a lock, or one operation on the socket.
\<close>

section \<open>The registry\<close>

record registry =
  last_heartbeat :: "string \<rightharpoonup> nat"
  active_clients :: "string \<rightharpoonup> nat"
  client_machine :: "string \<rightharpoonup> string"
  client_ip :: "string \<rightharpoonup> string"

definition new_registry :: registry where
  "new_registry =
     \<lparr> last_heartbeat = Map.empty, active_clients = Map.empty,
       client_machine = Map.empty, client_ip = Map.empty \<rparr>"

text \<open>Times are in milliseconds; a token is a number, and the set of cancelled tokens is state.\<close>

definition heartbeat_timeout :: nat where
  "heartbeat_timeout = 15000"

definition heartbeat_interval :: nat where
  "heartbeat_interval = 5000"

definition server_token :: nat where
  "server_token = 0"

section \<open>The state of the server\<close>

text \<open>
  Where the task of a connection stands.  \<open>Handling\<close> holds the request that was read and the
  response that is to be written, the next two the work after a successful ping.
\<close>

datatype conn_pc =
    Register_active
  | Register_ip
  | Serving
  | Handling protocol_request protocol_response
  | Note_heartbeat protocol_request
  | Note_machine string
  | Clean_active
  | Clean_heartbeat
  | Clean_ip
  | Clean_machine
  | Notify "string option"
  | Finished

record conn =
  conn_id :: string
  conn_ip :: string
  conn_ct :: nat
  conn_pc :: conn_pc
  conn_served :: "(protocol_request \<times> protocol_response) list"

text \<open>
  The heartbeat loop: waiting until a time, about to collect with the instant it took, or working through the
  identifiers it collected; and the calls of \<open>disconnect_machine\<close> that are under way.
\<close>

datatype sweep_pc =
    Sweep_waiting nat
  | Sweep_collecting nat
  | Sweep_forgetting "string list"
  | Sweep_cancelling string "string list"
  | Sweep_stopped

datatype kick_pc = Kick_found string | Kick_taken nat

record 's server =
  registry :: registry
  conns :: "conn list"
  cancelled :: "nat \<Rightarrow> bool"
  next_token :: nat
  sweep :: sweep_pc
  kicks :: "kick_pc list"
  disconnected :: "string list"
  accepting :: bool
  now :: nat
  shared :: 's

definition new_server :: "nat \<Rightarrow> 's \<Rightarrow> 's server" where
  "new_server t s =
     \<lparr> registry = new_registry, conns = [], cancelled = (\<lambda>_. False), next_token = Suc server_token,
       sweep = Sweep_waiting (t + heartbeat_interval), kicks = [], disconnected = [], accepting = True, now = t, shared = s \<rparr>"

text \<open>\<open>TcpServer::new\<close> collects the handlers into a map: a later handler replaces an earlier one.\<close>

definition protocol_map :: "'s protocol_handler list \<Rightarrow> string \<rightharpoonup> 's protocol_handler" where
  "protocol_map protocols = map_of (rev (map (\<lambda>p. (handler_key p, p)) protocols))"

section \<open>A connection\<close>

text \<open>
  What the socket does at a step: nothing to do with it, the outcome of reading a request, the
  outcome of writing the response.
\<close>

datatype conn_io = No_io | Read "protocol_request res" | Written "string + unit"

definition set_pc :: "conn_pc \<Rightarrow> conn \<Rightarrow> conn" where
  "set_pc pc c = c\<lparr>conn_pc := pc\<rparr>"

definition update_conn :: "nat \<Rightarrow> conn \<Rightarrow> 's server \<Rightarrow> 's server" where
  "update_conn i c s = s\<lparr>conns := (conns s)[i := c]\<rparr>"

definition dispatch ::
  "(string \<rightharpoonup> 's protocol_handler) \<Rightarrow> protocol_request \<Rightarrow> 's \<Rightarrow> protocol_response \<times> 's" where
  "dispatch protocols request s =
     (let key = request_key request
      in case protocols key of
           Some handler \<Rightarrow> handle handler request s
         | None \<Rightarrow> (\<lparr> status = 255, resp_body = into_bytes (msg_unknown_protocol @ key) \<rparr>, s))"

text \<open>The machine id that a ping body carries, read again after the response was written.\<close>

definition machine_of_body :: "'v serde_json \<Rightarrow> u8 list \<Rightarrow> string option" where
  "machine_of_body js body =
     (case sj_from_slice js body of
        Inr root \<Rightarrow> map_option (\<lambda>mid. unwrap_or [] (value_to_string js mid)) (sj_get js root ''machine_id'')
      | Inl _ \<Rightarrow> None)"

text \<open>
  One step of the connection task: \<open>handle_client\<close>.  The select is biased, so a cancelled token wins
  over a request that has arrived.
\<close>

fun conn_step ::
  "'v serde_json \<Rightarrow> (string \<rightharpoonup> 's protocol_handler) \<Rightarrow> nat \<Rightarrow> conn \<Rightarrow> conn_pc \<Rightarrow> conn_io \<Rightarrow> 's server
     \<Rightarrow> 's server option" where
  "conn_step js protocols i c Register_active No_io s =
     Some (update_conn i (set_pc Register_ip c)
       (s\<lparr>registry := (registry s)\<lparr>active_clients := (active_clients (registry s))(conn_id c \<mapsto> conn_ct c)\<rparr>\<rparr>))"
| "conn_step js protocols i c Register_ip No_io s =
     Some (update_conn i (set_pc Serving c)
       (s\<lparr>registry := (registry s)\<lparr>client_ip := (client_ip (registry s))(conn_id c \<mapsto> conn_ip c)\<rparr>\<rparr>))"
| "conn_step js protocols i c Serving No_io s =
     (if cancelled s server_token \<or> cancelled s (conn_ct c)
      then Some (update_conn i (set_pc Clean_active c) s) else None)"
| "conn_step js protocols i c Serving (Read r) s =
     (if cancelled s server_token \<or> cancelled s (conn_ct c) then None
      else case r of
        Inl _ \<Rightarrow> Some (update_conn i (set_pc Clean_active c) s)
      | Inr request \<Rightarrow>
          (let (response, st) = dispatch protocols request (shared s)
           in Some (update_conn i (set_pc (Handling request response) c) (s\<lparr>shared := st\<rparr>))))"
| "conn_step js protocols i c (Handling request response) (Written w) s =
     (case w of
        Inl _ \<Rightarrow> Some (update_conn i (set_pc Clean_active c) s)
      | Inr _ \<Rightarrow>
          Some (update_conn i
            (c\<lparr>conn_served := conn_served c @ [(request, response)],
               conn_pc := (if request_key request = ''c:player_ping'' \<and> is_success response
                           then Note_heartbeat request else Serving)\<rparr>) s))"
| "conn_step js protocols i c (Note_heartbeat request) No_io s =
     Some (update_conn i
       (set_pc (case machine_of_body js (req_body request) of
                  Some mid \<Rightarrow> Note_machine mid | None \<Rightarrow> Serving) c)
       (s\<lparr>registry := (registry s)\<lparr>last_heartbeat := (last_heartbeat (registry s))(conn_id c \<mapsto> now s)\<rparr>\<rparr>))"
| "conn_step js protocols i c (Note_machine mid) No_io s =
     Some (update_conn i (set_pc Serving c)
       (s\<lparr>registry := (registry s)\<lparr>client_machine := (client_machine (registry s))(conn_id c \<mapsto> mid)\<rparr>\<rparr>))"
| "conn_step js protocols i c Clean_active No_io s =
     Some (update_conn i (set_pc Clean_heartbeat c)
       (s\<lparr>registry := (registry s)\<lparr>active_clients := (active_clients (registry s))(conn_id c := None)\<rparr>\<rparr>))"
| "conn_step js protocols i c Clean_heartbeat No_io s =
     Some (update_conn i (set_pc Clean_ip c)
       (s\<lparr>registry := (registry s)\<lparr>last_heartbeat := (last_heartbeat (registry s))(conn_id c := None)\<rparr>\<rparr>))"
| "conn_step js protocols i c Clean_ip No_io s =
     Some (update_conn i (set_pc Clean_machine c)
       (s\<lparr>registry := (registry s)\<lparr>client_ip := (client_ip (registry s))(conn_id c := None)\<rparr>\<rparr>))"
| "conn_step js protocols i c Clean_machine No_io s =
     Some (update_conn i (set_pc (Notify (client_machine (registry s) (conn_id c))) c)
       (s\<lparr>registry := (registry s)\<lparr>client_machine := (client_machine (registry s))(conn_id c := None)\<rparr>\<rparr>))"
| "conn_step js protocols i c (Notify machine_id) No_io s =
     Some (update_conn i (set_pc Finished c)
       (s\<lparr>disconnected := disconnected s @ [unwrap_or [] machine_id]\<rparr>))"
| "conn_step js protocols i c _ _ s = None"

section \<open>The other tasks\<close>

text \<open>Accepting a connection; the operating system gives live connections different addresses.\<close>

definition live :: "conn \<Rightarrow> bool" where
  "live c \<longleftrightarrow> conn_pc c \<noteq> Finished"

definition accept_client :: "string \<Rightarrow> string \<Rightarrow> 's server \<Rightarrow> 's server" where
  "accept_client cid ip s =
     s\<lparr> conns := conns s @ [\<lparr> conn_id = cid, conn_ip = ip, conn_ct = next_token s,
                              conn_pc = Register_active, conn_served = [] \<rparr>],
        next_token := Suc (next_token s) \<rparr>"

text \<open>
  One step of the heartbeat loop.  The collected identifiers come in the iteration order of the hash
  map, which \<open>order\<close> gives; the instant is taken before the lock, and \<open>duration_since\<close> is zero
  where a heartbeat is later than it, as the subtraction of natural numbers is.
\<close>

definition timed_out :: "registry \<Rightarrow> nat \<Rightarrow> string list \<Rightarrow> string list" where
  "timed_out reg instant order =
     filter (\<lambda>cid. case last_heartbeat reg cid of
                    Some beat \<Rightarrow> instant - beat > heartbeat_timeout | None \<Rightarrow> False) order"

fun sweep_step :: "sweep_pc \<Rightarrow> string list \<Rightarrow> 's server \<Rightarrow> 's server" where
  "sweep_step (Sweep_waiting due) order s = s\<lparr>sweep := Sweep_collecting (now s)\<rparr>"
| "sweep_step (Sweep_collecting instant) order s =
     s\<lparr>sweep := Sweep_forgetting (timed_out (registry s) instant order)\<rparr>"
| "sweep_step (Sweep_forgetting []) order s = s\<lparr>sweep := Sweep_waiting (now s + heartbeat_interval)\<rparr>"
| "sweep_step (Sweep_forgetting (cid # cids)) order s =
     s\<lparr>sweep := Sweep_cancelling cid cids,
       registry := (registry s)\<lparr>last_heartbeat := (last_heartbeat (registry s))(cid := None)\<rparr>\<rparr>"
| "sweep_step (Sweep_cancelling cid cids) order s =
     (case active_clients (registry s) cid of
        Some ct \<Rightarrow>
          s\<lparr>sweep := Sweep_forgetting cids,
            registry := (registry s)\<lparr>active_clients := (active_clients (registry s))(cid := None)\<rparr>,
            cancelled := (cancelled s)(ct := True)\<rparr>
      | None \<Rightarrow> s\<lparr>sweep := Sweep_forgetting cids\<rparr>)"
| "sweep_step Sweep_stopped order s = s"

text \<open>
  \<open>disconnect_machine\<close>: finding the client under the lock of the machines, in the iteration order
  of the map; taking its token out of the active clients; cancelling it.
\<close>

definition find_client :: "registry \<Rightarrow> string list \<Rightarrow> string \<Rightarrow> string option" where
  "find_client reg order machine_id = find (\<lambda>cid. client_machine reg cid = Some machine_id) order"

definition kick_find :: "string list \<Rightarrow> string \<Rightarrow> 's server \<Rightarrow> 's server" where
  "kick_find order machine_id s =
     (case find_client (registry s) order machine_id of
        Some cid \<Rightarrow> s\<lparr>kicks := Kick_found cid # kicks s\<rparr>
      | None \<Rightarrow> s)"

fun kick_step :: "nat \<Rightarrow> kick_pc \<Rightarrow> 's server \<Rightarrow> 's server" where
  "kick_step k (Kick_found cid) s =
     (case active_clients (registry s) cid of
        Some ct \<Rightarrow>
          s\<lparr>kicks := (kicks s)[k := Kick_taken ct],
            registry := (registry s)\<lparr>active_clients := (active_clients (registry s))(cid := None)\<rparr>\<rparr>
      | None \<Rightarrow> s\<lparr>kicks := remove_at k (kicks s)\<rparr>)"
| "kick_step k (Kick_taken ct) s =
     s\<lparr>kicks := remove_at k (kicks s), cancelled := (cancelled s)(ct := True)\<rparr>"

definition machine_source_ip :: "registry \<Rightarrow> string list \<Rightarrow> string \<Rightarrow> string option" where
  "machine_source_ip reg order machine_id =
     Option.bind (find_client reg order machine_id) (client_ip reg)"

text \<open>\<open>stop\<close>, the cancellation of the server token by its owner, and the end of the accept loop.\<close>

definition cancel_server :: "'s server \<Rightarrow> 's server" where
  "cancel_server s = s\<lparr>cancelled := (cancelled s)(server_token := True)\<rparr>"

section \<open>Interleaving\<close>

text \<open>The heartbeat loop can go on: its sleep has elapsed, or it is not asleep.\<close>

definition sweep_ready :: "'s server \<Rightarrow> bool" where
  "sweep_ready s =
     (case sweep s of Sweep_waiting due \<Rightarrow> due \<le> now s | Sweep_stopped \<Rightarrow> False | _ \<Rightarrow> True)"

datatype server_label =
    Accept string string
  | Conn nat conn_io
  | Sweep "string list"
  | Sweep_stop
  | Kick_request "string list" string
  | Kick nat
  | Cancel_server
  | Stop_accepting
  | Tick nat
  | Shared_change

inductive server_step ::
  "'v serde_json \<Rightarrow> (string \<rightharpoonup> 's protocol_handler) \<Rightarrow> 's server \<Rightarrow> server_label \<Rightarrow> 's server \<Rightarrow> bool"
  for js protocols where
  accept: "accepting s \<Longrightarrow> \<forall>c \<in> set (conns s). live c \<longrightarrow> conn_id c \<noteq> cid \<Longrightarrow>
     server_step js protocols s (Accept cid ip) (accept_client cid ip s)"
| conn: "i < length (conns s) \<Longrightarrow>
     conn_step js protocols i (conns s ! i) (conn_pc (conns s ! i)) io s = Some s' \<Longrightarrow>
     server_step js protocols s (Conn i io) s'"
| sweep: "sweep_ready s \<Longrightarrow> iterates order (last_heartbeat (registry s)) \<Longrightarrow>
     server_step js protocols s (Sweep order) (sweep_step (sweep s) order s)"
| sweep_stop: "sweep s = Sweep_waiting due \<Longrightarrow> cancelled s server_token \<Longrightarrow>
     server_step js protocols s Sweep_stop (s\<lparr>sweep := Sweep_stopped\<rparr>)"
| kick_request: "iterates order (client_machine (registry s)) \<Longrightarrow>
     server_step js protocols s (Kick_request order mid) (kick_find order mid s)"
| kick: "k < length (kicks s) \<Longrightarrow>
     server_step js protocols s (Kick k) (kick_step k (kicks s ! k) s)"
| cancel_server: "server_step js protocols s Cancel_server (cancel_server s)"
| stop_accepting: "cancelled s server_token \<Longrightarrow>
     server_step js protocols s Stop_accepting (s\<lparr>accepting := False\<rparr>)"
| tick: "server_step js protocols s (Tick d) (s\<lparr>now := now s + d\<rparr>)"
| shared_change: "server_step js protocols s Shared_change (s\<lparr>shared := st\<rparr>)"

inductive_cases conn_stepE: "server_step js protocols s (Conn i io) s'"
inductive_cases sweepE: "server_step js protocols s (Sweep order) s'"
inductive_simps server_step_conn: "server_step js protocols s (Conn i io) s'"

definition server_init :: "'s server \<Rightarrow> bool" where
  "server_init s \<longleftrightarrow> (\<exists>t st. s = new_server t st)"

end
