(* ===== verification/Registry_Invariants.thy ===== *)
theory Registry_Invariants
  imports Client_Registry Systems
begin

text \<open>
  The invariant of the server of \<open>Client_Registry\<close> and what follows from it: which connection may
  hold an entry of which map at which stage of its life, who holds a token, and how many
  disconnection events have been sent.
\<close>

section \<open>The stages of a connection\<close>

fun stage :: "conn_pc \<Rightarrow> nat" where
  "stage Register_active = 0"
| "stage Register_ip = 1"
| "stage Serving = 2"
| "stage (Handling _ _) = 2"
| "stage (Note_heartbeat _) = 2"
| "stage (Note_machine _) = 2"
| "stage Clean_active = 3"
| "stage Clean_heartbeat = 4"
| "stage Clean_ip = 5"
| "stage Clean_machine = 6"
| "stage (Notify _) = 7"
| "stage Finished = 8"

lemma live_stage: "live c \<longleftrightarrow> stage (conn_pc c) < 8"
  unfolding live_def by (cases "conn_pc c") auto

lemma set_pc_sel [simp]:
  "conn_id (set_pc pc c) = conn_id c" "conn_ip (set_pc pc c) = conn_ip c"
  "conn_ct (set_pc pc c) = conn_ct c" "conn_pc (set_pc pc c) = pc"
  "conn_served (set_pc pc c) = conn_served c"
  by (simp_all add: set_pc_def)

lemma update_conn_sel [simp]:
  "registry (update_conn i c s) = registry s"
  "conns (update_conn i c s) = (conns s)[i := c]"
  "cancelled (update_conn i c s) = cancelled s"
  "next_token (update_conn i c s) = next_token s"
  "sweep (update_conn i c s) = sweep s"
  "kicks (update_conn i c s) = kicks s"
  "disconnected (update_conn i c s) = disconnected s"
  "accepting (update_conn i c s) = accepting s"
  "now (update_conn i c s) = now s"
  "shared (update_conn i c s) = shared s"
  by (simp_all add: update_conn_def)

section \<open>Maps whose entries belong to connections\<close>

text \<open>Every entry belongs to a connection with that identifier that satisfies \<open>P\<close>.\<close>

definition claims :: "('v \<Rightarrow> conn \<Rightarrow> bool) \<Rightarrow> conn list \<Rightarrow> (string \<rightharpoonup> 'v) \<Rightarrow> bool" where
  "claims P cs m \<longleftrightarrow>
     (\<forall>cid v. m cid = Some v \<longrightarrow> (\<exists>i < length cs. conn_id (cs ! i) = cid \<and> P v (cs ! i)))"

text \<open>Live connections have different identifiers, all connections different tokens.\<close>

definition unique_conns :: "conn list \<Rightarrow> bool" where
  "unique_conns cs \<longleftrightarrow>
     (\<forall>i < length cs. \<forall>j < length cs. i \<noteq> j \<longrightarrow>
        conn_ct (cs ! i) \<noteq> conn_ct (cs ! j)
      \<and> (live (cs ! i) \<and> live (cs ! j) \<longrightarrow> conn_id (cs ! i) \<noteq> conn_id (cs ! j)))"

lemma claims_empty: "claims P cs Map.empty"
  by (simp add: claims_def)

lemma claims_update:
  assumes "claims P cs m" and "i < length cs" and "conn_id c = conn_id (cs ! i)"
    and "\<And>v. P v (cs ! i) \<Longrightarrow> P v c"
  shows "claims P (cs[i := c]) m"
  using assms unfolding claims_def by (metis length_list_update nth_list_update)

lemma claims_set:
  assumes "claims P cs m" and "i < length cs" and "conn_id c = conn_id (cs ! i)" and "P v c"
    and "\<And>v. P v (cs ! i) \<Longrightarrow> P v c"
  shows "claims P (cs[i := c]) (m(conn_id (cs ! i) \<mapsto> v))"
proof -
  have "claims P (cs[i := c]) m" using assms by (intro claims_update)
  moreover have "i < length (cs[i := c])" "(cs[i := c]) ! i = c" using assms(2) by simp_all
  ultimately show ?thesis
    using assms(3,4) unfolding claims_def by (auto split: if_splits)
qed

lemma claims_clear:
  assumes "claims P cs m"
  shows "claims P (cs[i := c]) (m(conn_id (cs ! i) := None))"
  unfolding claims_def
proof (intro allI impI)
  fix cid v
  assume "(m(conn_id (cs ! i) := None)) cid = Some v"
  then have "m cid = Some v" and other: "cid \<noteq> conn_id (cs ! i)" by (auto split: if_splits)
  then obtain j where "j < length cs" "conn_id (cs ! j) = cid" "P v (cs ! j)"
    using assms(1) unfolding claims_def by blast
  moreover from this other have "j \<noteq> i" by auto
  ultimately show "\<exists>j < length (cs[i := c]). conn_id (cs[i := c] ! j) = cid \<and> P v (cs[i := c] ! j)"
    by (intro exI [of _ j]) auto
qed

lemma claims_remove: "claims P cs m \<Longrightarrow> claims P cs (m(cid := None))"
  by (auto simp: claims_def split: if_splits)

lemma claims_append: "claims P cs m \<Longrightarrow> claims P (cs @ [c]) m"
  unfolding claims_def by (metis length_append_singleton less_SucI nth_append)

lemma claims_None:
  assumes "claims P cs m" and "\<And>i v. i < length cs \<Longrightarrow> \<not> P v (cs ! i)"
  shows "m = Map.empty"
proof
  fix cid show "m cid = None" using assms unfolding claims_def by (cases "m cid") auto
qed

text \<open>The entry of a live connection is its own.\<close>

lemma claims_own:
  assumes "claims P cs m" and "unique_conns cs" and "i < length cs" and "live (cs ! i)"
    and "m (conn_id (cs ! i)) = Some v" and "\<And>v c. P v c \<Longrightarrow> live c"
  shows "P v (cs ! i)"
  using assms unfolding claims_def unique_conns_def by metis

lemma unique_conns_update:
  assumes "unique_conns cs" and "i < length cs" and "conn_id c = conn_id (cs ! i)"
    and "conn_ct c = conn_ct (cs ! i)" and "live (cs ! i)"
  shows "unique_conns (cs[i := c])"
  using assms unfolding unique_conns_def by (auto simp: nth_list_update)

lemma unique_conns_append:
  assumes "unique_conns cs" and "\<forall>c' \<in> set cs. conn_ct c' \<noteq> conn_ct c"
    and "\<forall>c' \<in> set cs. live c' \<longrightarrow> conn_id c' \<noteq> conn_id c"
  shows "unique_conns (cs @ [c])"
  using assms unfolding unique_conns_def
  by (auto simp: nth_append less_Suc_eq dest: nth_mem)

section \<open>The invariant\<close>

text \<open>A successful ping in what a connection has served.\<close>

definition has_pinged :: "conn \<Rightarrow> bool" where
  "has_pinged c \<longleftrightarrow>
     (\<exists>(q, r) \<in> set (conn_served c). request_key q = ''c:player_ping'' \<and> is_success r)"

definition owns_active :: "nat \<Rightarrow> conn \<Rightarrow> bool" where
  "owns_active ct c \<longleftrightarrow> ct = conn_ct c \<and> 1 \<le> stage (conn_pc c) \<and> stage (conn_pc c) \<le> 3"

definition owns_heartbeat :: "nat \<Rightarrow> conn \<Rightarrow> bool" where
  "owns_heartbeat t c \<longleftrightarrow> has_pinged c \<and> 2 \<le> stage (conn_pc c) \<and> stage (conn_pc c) \<le> 4"

definition owns_ip :: "string \<Rightarrow> conn \<Rightarrow> bool" where
  "owns_ip ip c \<longleftrightarrow> ip = conn_ip c \<and> 2 \<le> stage (conn_pc c) \<and> stage (conn_pc c) \<le> 5"

definition owns_machine :: "string \<Rightarrow> conn \<Rightarrow> bool" where
  "owns_machine mid c \<longleftrightarrow> has_pinged c \<and> 2 \<le> stage (conn_pc c) \<and> stage (conn_pc c) \<le> 6"

lemmas owns_defs = owns_active_def owns_heartbeat_def owns_ip_def owns_machine_def

text \<open>A token that is cancelled, or whose cancellation is the next step of a disconnection call.\<close>

definition doomed :: "'s server \<Rightarrow> nat \<Rightarrow> bool" where
  "doomed s ct \<longleftrightarrow> cancelled s ct \<or> Kick_taken ct \<in> set (kicks s)"

definition tokens_ok :: "'s server \<Rightarrow> bool" where
  "tokens_ok s \<longleftrightarrow>
     (\<forall>c \<in> set (conns s). server_token < conn_ct c \<and> conn_ct c < next_token s)
   \<and> (\<forall>t \<ge> next_token s. \<not> doomed s t) \<and> server_token < next_token s"

definition maps_ok :: "'s server \<Rightarrow> bool" where
  "maps_ok s \<longleftrightarrow>
     claims owns_active (conns s) (active_clients (registry s))
   \<and> claims owns_heartbeat (conns s) (last_heartbeat (registry s))
   \<and> claims owns_ip (conns s) (client_ip (registry s))
   \<and> claims owns_machine (conns s) (client_machine (registry s))"

text \<open>A served connection that is not in the map of the active ones is doomed; its address is known.\<close>

definition served_one :: "'s server \<Rightarrow> conn \<Rightarrow> bool" where
  "served_one s c \<longleftrightarrow>
     (1 \<le> stage (conn_pc c) \<and> stage (conn_pc c) \<le> 3 \<longrightarrow>
        active_clients (registry s) (conn_id c) = Some (conn_ct c) \<or> doomed s (conn_ct c))
   \<and> (2 \<le> stage (conn_pc c) \<and> stage (conn_pc c) \<le> 5 \<longrightarrow>
        client_ip (registry s) (conn_id c) = Some (conn_ip c))
   \<and> (case conn_pc c of
        Note_heartbeat request \<Rightarrow> has_pinged c | Note_machine _ \<Rightarrow> has_pinged c | _ \<Rightarrow> True)"

definition served_ok :: "'s server \<Rightarrow> bool" where
  "served_ok s \<longleftrightarrow> (\<forall>i < length (conns s). served_one s (conns s ! i))"

definition events_ok :: "'s server \<Rightarrow> bool" where
  "events_ok s \<longleftrightarrow> length (disconnected s) = length (filter (\<lambda>c. \<not> live c) (conns s))"

definition server_inv :: "'s server \<Rightarrow> bool" where
  "server_inv s \<longleftrightarrow>
     unique_conns (conns s) \<and> tokens_ok s \<and> maps_ok s \<and> served_ok s \<and> events_ok s"

lemma server_inv_init: "server_init s \<Longrightarrow> server_inv s"
  by (auto simp: server_init_def server_inv_def new_server_def new_registry_def unique_conns_def
      tokens_ok_def doomed_def maps_ok_def claims_empty served_ok_def events_ok_def)

section \<open>The connection step\<close>

lemma filter_update_length:
  "i < length xs \<Longrightarrow> length (filter P (xs[i := y])) + (if P (xs ! i) then 1 else 0)
     = length (filter P xs) + (if P y then 1 else 0)"
proof (induction xs arbitrary: i)
  case Nil
  then show ?case by simp
next
  case (Cons x xs)
  then show ?case by (cases i) auto
qed

text \<open>What every step of a connection has in common.\<close>

lemma conn_step_frame:
  assumes "conn_step js protocols i c (conn_pc c) io s = Some s'"
  shows "\<exists>c'. conns s' = (conns s)[i := c'] \<and> conn_id c' = conn_id c \<and> conn_ip c' = conn_ip c
     \<and> conn_ct c' = conn_ct c \<and> (\<exists>more. conn_served c' = conn_served c @ more)
     \<and> live c \<and> stage (conn_pc c) \<le> stage (conn_pc c')
     \<and> cancelled s' = cancelled s \<and> next_token s' = next_token s \<and> kicks s' = kicks s
     \<and> sweep s' = sweep s \<and> now s' = now s"
  using assms
  by (cases "(js, protocols, i, c, conn_pc c, io, s)" rule: conn_step.cases)
    (auto simp: live_stage split: if_splits sum.splits prod.splits option.splits)

lemma conn_step_unique:
  assumes "server_inv s" and "i < length (conns s)"
    and "conn_step js protocols i (conns s ! i) (conn_pc (conns s ! i)) io s = Some s'"
  shows "unique_conns (conns s')"
  using conn_step_frame [OF assms(3)] assms(1,2)
  by (auto simp: server_inv_def intro!: unique_conns_update)

lemma conn_step_tokens:
  assumes "server_inv s" and "i < length (conns s)"
    and "conn_step js protocols i (conns s ! i) (conn_pc (conns s ! i)) io s = Some s'"
  shows "tokens_ok s'"
proof -
  obtain c' where c': "conns s' = (conns s)[i := c']" "conn_ct c' = conn_ct (conns s ! i)"
    "cancelled s' = cancelled s" "next_token s' = next_token s" "kicks s' = kicks s"
    using conn_step_frame [OF assms(3)] by blast
  have "conns s ! i \<in> set (conns s)" using assms(2) by simp
  moreover have "set (conns s') \<subseteq> insert c' (set (conns s))"
    unfolding c'(1) by (rule set_update_subset_insert)
  ultimately show ?thesis
    using assms(1) c' unfolding server_inv_def tokens_ok_def doomed_def by auto
qed

lemma conn_step_events:
  assumes "server_inv s" and "i < length (conns s)"
    and "conn_step js protocols i (conns s ! i) (conn_pc (conns s ! i)) io s = Some s'"
  shows "events_ok s'"
proof -
  let ?c = "conns s ! i"
  obtain c' where c': "conns s' = (conns s)[i := c']" and live: "live ?c"
    using conn_step_frame [OF assms(3)] by blast
  have count: "length (filter (\<lambda>c. \<not> live c) (conns s')) =
      length (filter (\<lambda>c. \<not> live c) (conns s)) + (if live c' then 0 else 1)"
    using filter_update_length [OF assms(2), of "\<lambda>c. \<not> live c" c'] live by (simp add: c')
  have new: "conns s' ! i = c'" using assms(2) by (simp add: c')
  have "length (disconnected s') = length (disconnected s) + (if live (conns s' ! i) then 0 else 1)"
    using assms(2,3) live
    by (cases "(js, protocols, i, ?c, conn_pc ?c, io, s)" rule: conn_step.cases)
      (auto simp: live_def split: if_splits sum.splits prod.splits option.splits)
  with count new assms(1) show ?thesis by (simp add: server_inv_def events_ok_def)
qed

lemma owns_mono:
  assumes "conn_ct c' = conn_ct c" and "conn_ip c' = conn_ip c"
    and "conn_served c' = conn_served c @ extra"
    and "stage (conn_pc c) \<le> stage (conn_pc c')"
  shows "stage (conn_pc c') \<le> 3 \<Longrightarrow> owns_active v c \<Longrightarrow> owns_active v c'"
    and "stage (conn_pc c') \<le> 4 \<Longrightarrow> owns_heartbeat t c \<Longrightarrow> owns_heartbeat t c'"
    and "stage (conn_pc c') \<le> 5 \<Longrightarrow> owns_ip ip c \<Longrightarrow> owns_ip ip c'"
    and "stage (conn_pc c') \<le> 6 \<Longrightarrow> owns_machine mid c \<Longrightarrow> owns_machine mid c'"
  using assms by (auto simp: owns_defs has_pinged_def)

lemma has_pinged_set_pc [simp]: "has_pinged (set_pc pc c) = has_pinged c"
  by (simp add: has_pinged_def)

lemma has_pinged_more:
  "has_pinged c \<Longrightarrow> has_pinged (c\<lparr>conn_served := conn_served c @ xs, conn_pc := pc\<rparr>)"
  by (auto simp: has_pinged_def)

lemma has_pinged_now:
  "request_key q = ''c:player_ping'' \<Longrightarrow> is_success r \<Longrightarrow>
     has_pinged (c\<lparr>conn_served := conn_served c @ [(q, r)], conn_pc := pc\<rparr>)"
  by (auto simp: has_pinged_def)

lemma conn_step_maps:
  assumes "server_inv s" and "i < length (conns s)"
    and "conn_step js protocols i (conns s ! i) (conn_pc (conns s ! i)) io s = Some s'"
  shows "maps_ok s'"
proof -
  let ?c = "conns s ! i"
  have maps: "claims owns_active (conns s) (active_clients (registry s))"
    "claims owns_heartbeat (conns s) (last_heartbeat (registry s))"
    "claims owns_ip (conns s) (client_ip (registry s))"
    "claims owns_machine (conns s) (client_machine (registry s))"
    using assms(1) by (simp_all add: server_inv_def maps_ok_def)
  have pinged: "conn_pc ?c = Note_heartbeat q \<Longrightarrow> has_pinged ?c"
    "conn_pc ?c = Note_machine mid \<Longrightarrow> has_pinged ?c" for q mid
    using assms(1,2) by (auto simp: server_inv_def served_ok_def served_one_def split: conn_pc.splits)
  obtain c' where c': "conns s' = (conns s)[i := c']" "conn_id c' = conn_id ?c" "conn_ip c' = conn_ip ?c"
    "conn_ct c' = conn_ct ?c" "stage (conn_pc ?c) \<le> stage (conn_pc c')"
    "\<exists>extra. conn_served c' = conn_served ?c @ extra"
    using conn_step_frame [OF assms(3)] by blast
  show ?thesis
    using assms(3)
    by (cases "(js, protocols, i, ?c, conn_pc ?c, io, s)" rule: conn_step.cases)
      ((auto simp: maps_ok_def split: if_splits sum.splits prod.splits option.splits);
       (rule claims_clear | rule claims_set | rule claims_update)?;
       auto simp: maps owns_defs assms(2) pinged has_pinged_more)+
qed

lemma served_one_frame:
  assumes "served_one s c"
    and "live c \<Longrightarrow> active_clients (registry s') (conn_id c) = active_clients (registry s) (conn_id c)
           \<or> doomed s' (conn_ct c)"
    and "live c \<Longrightarrow> client_ip (registry s') (conn_id c) = client_ip (registry s) (conn_id c)"
    and "doomed s (conn_ct c) \<Longrightarrow> doomed s' (conn_ct c)"
  shows "served_one s' c"
  using assms unfolding served_one_def live_stage by auto

lemma conn_step_other_ids:
  assumes "conn_step js protocols i c (conn_pc c) io s = Some s'" and "cid \<noteq> conn_id c"
  shows "active_clients (registry s') cid = active_clients (registry s) cid
       \<and> client_ip (registry s') cid = client_ip (registry s) cid"
  using assms
  by (cases "(js, protocols, i, c, conn_pc c, io, s)" rule: conn_step.cases)
    (auto split: if_splits sum.splits prod.splits option.splits)

lemma conn_step_served:
  assumes "server_inv s" and "i < length (conns s)"
    and "conn_step js protocols i (conns s ! i) (conn_pc (conns s ! i)) io s = Some s'"
  shows "served_ok s'"
  unfolding served_ok_def
proof (intro allI impI)
  fix j assume j: "j < length (conns s')"
  let ?c = "conns s ! i"
  obtain c' where c': "conns s' = (conns s)[i := c']" "conn_id c' = conn_id ?c" "conn_ip c' = conn_ip ?c"
    "conn_ct c' = conn_ct ?c" and live: "live ?c"
    and doomed: "doomed s' = doomed s"
    using conn_step_frame [OF assms(3)] by (fastforce simp: doomed_def fun_eq_iff)
  have one: "served_one s (conns s ! k)" if "k < length (conns s)" for k
    using assms(1) that by (simp add: server_inv_def served_ok_def)
  show "served_one s' (conns s' ! j)"
  proof (cases "j = i")
    case False
    with j c' have j': "conns s' ! j = conns s ! j" "j < length (conns s)" by simp_all
    have "conn_id (conns s ! j) \<noteq> conn_id ?c" if "live (conns s ! j)"
      using assms(1,2) False j' that live by (simp add: server_inv_def unique_conns_def)
    then show ?thesis
      using one [OF j'(2)] conn_step_other_ids [OF assms(3)]
      by (simp add: j' doomed served_one_frame [of s])
  next
    case True
    have "doomed s' (conn_ct ?c) \<Longrightarrow> doomed s (conn_ct ?c)" by (simp add: doomed)
    with assms(2,3) one [OF assms(2)] doomed show ?thesis
      unfolding True
      by (cases "(js, protocols, i, ?c, conn_pc ?c, io, s)" rule: conn_step.cases)
        (auto simp: served_one_def has_pinged_now
          split: if_splits sum.splits prod.splits option.splits)
  qed
qed

lemma conn_step_inv:
  assumes "server_inv s" and "i < length (conns s)"
    and "conn_step js protocols i (conns s ! i) (conn_pc (conns s ! i)) io s = Some s'"
  shows "server_inv s'"
  unfolding server_inv_def
  using conn_step_unique [OF assms] conn_step_tokens [OF assms] conn_step_maps [OF assms]
    conn_step_served [OF assms] conn_step_events [OF assms] by blast

section \<open>The other steps\<close>

lemma accept_inv:
  assumes "server_inv s" and "\<forall>c \<in> set (conns s). live c \<longrightarrow> conn_id c \<noteq> cid"
  shows "server_inv (accept_client cid ip s)"
proof -
  let ?s' = "accept_client cid ip s"
  have "unique_conns (conns ?s')"
    using assms by (auto simp: accept_client_def server_inv_def tokens_ok_def intro!: unique_conns_append)
  moreover have "doomed ?s' = doomed s"
    by (simp add: fun_eq_iff doomed_def accept_client_def)
  moreover from this have "tokens_ok ?s'"
    using assms(1) by (auto simp: server_inv_def tokens_ok_def accept_client_def)
  moreover have "maps_ok ?s'"
    using assms(1) by (auto simp: server_inv_def maps_ok_def accept_client_def intro: claims_append)
  moreover have "served_ok ?s'"
    using assms(1) calculation(2)
    by (auto simp: server_inv_def served_ok_def served_one_def accept_client_def nth_append less_Suc_eq)
  moreover have "events_ok ?s'"
    using assms(1) by (simp add: server_inv_def events_ok_def accept_client_def live_def)
  ultimately show ?thesis by (simp add: server_inv_def)
qed

text \<open>A step that leaves the connections alone and only takes entries out of the maps.\<close>

lemma removal_inv:
  assumes "server_inv s" and "conns s' = conns s" and "next_token s' = next_token s"
    and "disconnected s' = disconnected s"
    and "\<And>ct. doomed s ct \<Longrightarrow> doomed s' ct"
    and "\<And>ct. next_token s \<le> ct \<Longrightarrow> doomed s' ct \<Longrightarrow> doomed s ct"
    and "\<And>cid. active_clients (registry s') cid = active_clients (registry s) cid
           \<or> active_clients (registry s') cid = None
             \<and> (\<forall>ct. active_clients (registry s) cid = Some ct \<longrightarrow> doomed s' ct)"
    and "\<And>cid. last_heartbeat (registry s') cid = last_heartbeat (registry s) cid
           \<or> last_heartbeat (registry s') cid = None"
    and "client_ip (registry s') = client_ip (registry s)"
    and "client_machine (registry s') = client_machine (registry s)"
  shows "server_inv s'"
proof -
  have sub: "claims P (conns s) m'" if "claims P (conns s) m" and "\<And>cid. m' cid = m cid \<or> m' cid = None"
    for P m and m' :: "string \<rightharpoonup> nat"
    using that unfolding claims_def by (metis option.distinct(1))
  have "claims owns_active (conns s) (active_clients (registry s'))"
  proof (rule sub)
    show "claims owns_active (conns s) (active_clients (registry s))"
      using assms(1) by (simp add: server_inv_def maps_ok_def)
    fix cid show "active_clients (registry s') cid = active_clients (registry s) cid
      \<or> active_clients (registry s') cid = None"
      using assms(7) [of cid] by (elim disjE conjE) simp_all
  qed
  moreover have "claims owns_heartbeat (conns s) (last_heartbeat (registry s'))"
    using sub [of owns_heartbeat "last_heartbeat (registry s)" "last_heartbeat (registry s')"] assms(1,8)
    unfolding server_inv_def maps_ok_def by blast
  ultimately have "maps_ok s'"
    using assms(1) unfolding server_inv_def maps_ok_def assms(2,9,10) by blast
  moreover have "tokens_ok s'"
    using assms(1,5,6) unfolding server_inv_def tokens_ok_def assms(2,3) by blast
  moreover have "served_ok s'"
    using assms(1,5) assms(7) unfolding server_inv_def served_ok_def served_one_def assms(2,9)
    by metis
  ultimately show ?thesis
    using assms(1,2,4) by (simp add: server_inv_def events_ok_def)
qed

lemma sweep_inv:
  assumes "server_inv s"
  shows "server_inv (sweep_step (sweep s) order s)"
proof (cases "(sweep s, order, s)" rule: sweep_step.cases)
  case (5 cid cids order' s')
  show ?thesis
  proof (cases "active_clients (registry s) cid")
    case (Some ct)
    with assms have "ct < next_token s"
      by (fastforce simp: server_inv_def maps_ok_def claims_def owns_active_def tokens_ok_def)
    with 5 Some show ?thesis
      by (intro removal_inv [OF assms]) (auto simp: doomed_def split: if_splits)
  next
    case None
    with 5 show ?thesis by (intro removal_inv [OF assms]) (auto simp: doomed_def)
  qed
qed (use assms in \<open>auto intro!: removal_inv [OF assms] simp: doomed_def split: if_splits\<close>)

lemma set_remove_at_nth: "k < length xs \<Longrightarrow> x \<in> set xs \<Longrightarrow> x \<noteq> xs ! k \<Longrightarrow> x \<in> set (remove_at k xs)"
  using id_take_nth_drop [of k xs] unfolding remove_at_def
  by (metis UnE UnI1 UnI2 set_ConsD set_append)

lemma kick_request_inv: "server_inv s \<Longrightarrow> server_inv (kick_find order mid s)"
  by (rule removal_inv [of s]) (auto simp: kick_find_def doomed_def split: option.splits)

lemma kick_inv:
  assumes "server_inv s" and "k < length (kicks s)"
  shows "server_inv (kick_step k (kicks s ! k) s)"
proof (cases "kicks s ! k")
  case (Kick_found cid)
  show ?thesis
  proof (cases "active_clients (registry s) cid")
    case (Some ct)
    with assms(1) have "ct < next_token s"
      by (fastforce simp: server_inv_def maps_ok_def claims_def owns_active_def tokens_ok_def)
    moreover have "Kick_taken t \<in> set ((kicks s)[k := Kick_taken ct])
        \<longleftrightarrow> t = ct \<or> Kick_taken t \<in> set (kicks s)" for t
      using Kick_found assms(2) set_update_subset_insert [of "kicks s" k "Kick_taken ct"]
      by (auto simp: in_set_conv_nth nth_list_update intro: set_update_memI)
        (metis kick_pc.distinct(1))
    ultimately show ?thesis
      using Kick_found Some
      by (intro removal_inv [OF assms(1)]) (auto simp: doomed_def split: if_splits)
  next
    case None
    have "Kick_taken t \<in> set (remove_at k (kicks s))" if "Kick_taken t \<in> set (kicks s)" for t
      using that Kick_found assms(2) by (intro set_remove_at_nth) auto
    with Kick_found None show ?thesis
      by (intro removal_inv [OF assms(1)]) (auto simp: doomed_def dest: set_remove_at [THEN subsetD])
  qed
next
  case (Kick_taken ct)
  then have "Kick_taken ct \<in> set (kicks s)" using assms(2) by (metis nth_mem)
  moreover have "Kick_taken t \<in> set (remove_at k (kicks s)) \<or> t = ct" if "Kick_taken t \<in> set (kicks s)" for t
    using that Kick_taken assms(2) set_remove_at_nth [of k "kicks s" "Kick_taken t"] by auto
  ultimately show ?thesis
    using Kick_taken
    by (intro removal_inv [OF assms(1)])
      (auto simp: doomed_def split: if_splits dest: set_remove_at [THEN subsetD])
qed

lemma cancel_server_inv:
  assumes "server_inv s" shows "server_inv (cancel_server s)"
  using assms
  by (intro removal_inv [OF assms])
    (auto simp: cancel_server_def doomed_def server_inv_def tokens_ok_def split: if_splits)

lemma server_inv_step:
  assumes "server_inv s" and "server_step js protocols s l s'"
  shows "server_inv s'"
  using assms(2,1)
proof (cases rule: server_step.cases)
  case (accept cid ip)
  with assms(1) show ?thesis by (simp add: accept_inv)
next
  case (conn i io)
  with assms(1) show ?thesis by (simp add: conn_step_inv)
next
  case (sweep order)
  with assms(1) show ?thesis by (simp add: sweep_inv)
next
  case (kick_request order mid)
  with assms(1) show ?thesis by (simp add: kick_request_inv)
next
  case (kick k)
  with assms(1) show ?thesis by (simp add: kick_inv)
next
  case cancel_server
  with assms(1) show ?thesis by (simp add: cancel_server_inv)
qed (use assms(1) in \<open>auto intro!: removal_inv [OF assms(1)] simp: doomed_def\<close>)

interpretation server: invariant_system server_init "server_step js protocols" server_inv
  for js :: "'v serde_json" and protocols :: "string \<rightharpoonup> 's protocol_handler"
  by unfold_locales (auto intro: server_inv_init server_inv_step)

end
