(* ===== verification/Tcp_Server.thy ===== *)
theory Tcp_Server
  imports Registry_Invariants
begin

text \<open>
  What the invariant gives for the server of the centre: no entry outlives its connection, one event
  per connection, a cancelled connection ends, a heartbeat sweep disconnects exactly the stale
  clients, and a machine is disconnected through the entry that names it.
\<close>

section \<open>Cancellation\<close>

text \<open>How many own steps a connection has left once its token is cancelled.\<close>

fun steps_left :: "conn_pc \<Rightarrow> nat" where
  "steps_left (Handling _ _) = 9"
| "steps_left (Note_heartbeat _) = 8"
| "steps_left (Note_machine _) = 7"
| "steps_left Register_active = 8"
| "steps_left Register_ip = 7"
| "steps_left Serving = 6"
| "steps_left Clean_active = 5"
| "steps_left Clean_heartbeat = 4"
| "steps_left Clean_ip = 3"
| "steps_left Clean_machine = 2"
| "steps_left (Notify _) = 1"
| "steps_left Finished = 0"

definition response_due :: "conn_pc \<Rightarrow> nat" where
  "response_due pc = (case pc of Handling _ _ \<Rightarrow> 1 | _ \<Rightarrow> 0)"

definition conn_cancelled :: "'s server \<Rightarrow> conn \<Rightarrow> bool" where
  "conn_cancelled s c \<longleftrightarrow> cancelled s server_token \<or> cancelled s (conn_ct c)"

lemma conn_step_cancelled:
  assumes "conn_cancelled s c" and "i < length (conns s)" and "conns s ! i = c"
    and "conn_step js protocols i c (conn_pc c) io s = Some s'"
  shows "steps_left (conn_pc (conns s' ! i)) < steps_left (conn_pc c)
    \<and> length (conn_served (conns s' ! i)) + response_due (conn_pc (conns s' ! i))
        \<le> length (conn_served c) + response_due (conn_pc c)"
  using assms(4) assms(1-3)
  by (cases "(js, protocols, i, c, conn_pc c, io, s)" rule: conn_step.cases)
    (auto simp: response_due_def conn_cancelled_def split: if_splits sum.splits prod.splits option.splits)

lemma cancelled_conn_moves:
  assumes "conn_cancelled s c" and "live c"
  shows "\<exists>io s'. conn_step js protocols i c (conn_pc c) io s = Some s'"
proof (cases "conn_pc c")
  case (Handling q r)
  then show ?thesis by (intro exI [of _ "Written (Inr ())"]) simp
qed (use assms in \<open>auto simp: live_def conn_cancelled_def intro!: exI [of _ No_io]\<close>)

text \<open>What any step does to a connection that is not its own.\<close>

lemma other_steps_frame:
  assumes "server_step js protocols s l s'" and "i < length (conns s)" and "\<forall>io. l \<noteq> Conn i io"
  shows "i < length (conns s') \<and> conns s' ! i = conns s ! i"
  using assms
proof (cases rule: server_step.cases)
  case (conn j io)
  with conn_step_frame [OF conn(3)] assms show ?thesis by auto
next
  case (sweep order)
  then show ?thesis
    using assms(2) by (cases "(sweep s, order, s)" rule: sweep_step.cases)
      (auto split: option.splits)
next
  case (kick k)
  then show ?thesis
    using assms(2) by (cases "kicks s ! k") (auto split: option.splits)
qed (use assms in \<open>auto simp: accept_client_def nth_append kick_find_def cancel_server_def split: option.splits\<close>)

lemma cancelled_mono:
  assumes "server_step js protocols s l s'" and "cancelled s t"
  shows "cancelled s' t"
  using assms
proof (cases rule: server_step.cases)
  case (conn j io)
  with conn_step_frame [OF conn(3)] assms show ?thesis by auto
next
  case (sweep order)
  then show ?thesis
    using assms(2) by (cases "(sweep s, order, s)" rule: sweep_step.cases) (auto split: option.splits)
next
  case (kick k)
  then show ?thesis
    using assms(2) by (cases "kicks s ! k") (auto split: option.splits)
qed (use assms in \<open>auto simp: accept_client_def kick_find_def cancel_server_def split: option.splits\<close>)

lemma step_conn_frame:
  assumes "server_step js protocols s l s'" and "i < length (conns s)"
  shows "i < length (conns s') \<and> conn_ct (conns s' ! i) = conn_ct (conns s ! i)
       \<and> conn_id (conns s' ! i) = conn_id (conns s ! i)"
proof (cases "\<exists>io. l = Conn i io")
  case True
  then obtain io where "l = Conn i io" by blast
  with assms(1) have "conn_step js protocols i (conns s ! i) (conn_pc (conns s ! i)) io s = Some s'"
    by (auto elim: conn_stepE)
  from conn_step_frame [OF this] assms(2) show ?thesis by auto
next
  case False
  with other_steps_frame [OF assms] show ?thesis by simp
qed

text \<open>The own steps of a connection in a run.\<close>

definition own_steps :: "nat \<Rightarrow> server_label list \<Rightarrow> nat" where
  "own_steps i ls = length (filter (\<lambda>l. case l of Conn j _ \<Rightarrow> j = i | _ \<Rightarrow> False) ls)"

lemma own_steps_simps [simp]:
  "own_steps i [] = 0"
  "own_steps i (Conn i io # ls) = Suc (own_steps i ls)"
  "\<forall>io. l \<noteq> Conn i io \<Longrightarrow> own_steps i (l # ls) = own_steps i ls"
  by (auto simp: own_steps_def split: server_label.splits)

lemma conn_cancelled_mono:
  assumes "server_step js protocols s l s'" and "i < length (conns s)"
    and "conn_cancelled s (conns s ! i)"
  shows "conn_cancelled s' (conns s' ! i)"
  using assms(3) cancelled_mono [OF assms(1)] step_conn_frame [OF assms(1,2)]
  by (auto simp: conn_cancelled_def)

lemma cancelled_run:
  assumes "run (server_step js protocols) s ls s'" and "i < length (conns s)"
    and "conn_cancelled s (conns s ! i)"
  shows "own_steps i ls + steps_left (conn_pc (conns s' ! i)) \<le> steps_left (conn_pc (conns s ! i))
    \<and> length (conn_served (conns s' ! i)) + response_due (conn_pc (conns s' ! i))
        \<le> length (conn_served (conns s ! i)) + response_due (conn_pc (conns s ! i))
    \<and> i < length (conns s') \<and> conn_cancelled s' (conns s' ! i)"
  using assms
proof (induction rule: run.induct)
  case (run_Nil s)
  then show ?case by simp
next
  case (run_Cons s l s' ls s'')
  have rest: "i < length (conns s')" "conn_cancelled s' (conns s' ! i)"
    using step_conn_frame [OF run_Cons.hyps(1)] conn_cancelled_mono [OF run_Cons.hyps(1)]
      run_Cons.prems by simp_all
  note IH = run_Cons.IH [OF rest]
  show ?case
  proof (cases "\<exists>io. l = Conn i io")
    case True
    then obtain io where l: "l = Conn i io" by blast
    with run_Cons.hyps(1) have "conn_step js protocols i (conns s ! i) (conn_pc (conns s ! i)) io s = Some s'"
      by (auto elim: conn_stepE)
    from conn_step_cancelled [OF run_Cons.prems(2,1) refl this] IH l show ?thesis by simp
  next
    case False
    with other_steps_frame [OF run_Cons.hyps(1) run_Cons.prems(1)] IH show ?thesis by simp
  qed
qed

section \<open>A sweep\<close>

text \<open>The heartbeat loop working through the identifiers it has collected, with nothing in between.\<close>

fun sweep_through :: "string list \<Rightarrow> 's server \<Rightarrow> 's server" where
  "sweep_through [] s = s"
| "sweep_through (cid # cids) s =
     sweep_through cids
       (sweep_step (Sweep_cancelling cid cids) [] (sweep_step (Sweep_forgetting (cid # cids)) [] s))"

definition stale :: "registry \<Rightarrow> nat \<Rightarrow> string \<Rightarrow> bool" where
  "stale reg instant cid \<longleftrightarrow>
     (\<exists>beat. last_heartbeat reg cid = Some beat \<and> beat + heartbeat_timeout < instant)"

lemma set_timed_out:
  "iterates order (last_heartbeat reg) \<Longrightarrow> set (timed_out reg instant order) = {cid. stale reg instant cid}"
  by (fastforce simp: timed_out_def stale_def iterates_def split: option.splits)

lemma sweep_through_effect:
  "last_heartbeat (registry (sweep_through cids s)) = last_heartbeat (registry s) |` (- set cids)
 \<and> active_clients (registry (sweep_through cids s)) = active_clients (registry s) |` (- set cids)
 \<and> (\<forall>ct. cancelled (sweep_through cids s) ct \<longleftrightarrow>
        cancelled s ct \<or> (\<exists>cid \<in> set cids. active_clients (registry s) cid = Some ct))
 \<and> conns (sweep_through cids s) = conns s"
proof (induction cids arbitrary: s)
  case Nil
  then show ?case by (simp add: restrict_map_def)
next
  case (Cons cid cids)
  show ?case
  proof (cases "active_clients (registry s) cid")
    case None
    then show ?thesis by (auto simp: Cons.IH restrict_map_def fun_eq_iff)
  next
    case (Some ct)
    have "(\<exists>x \<in> set cids. ((active_clients (registry s))(cid := None)) x = Some t) \<or> t = ct
        \<longleftrightarrow> (\<exists>x \<in> set (cid # cids). active_clients (registry s) x = Some t)" for t
    proof (cases "t = ct")
      case True
      with Some show ?thesis by auto
    next
      case False
      with Some have "x \<noteq> cid" if "active_clients (registry s) x = Some t" for x
        using that by auto
      with False Some show ?thesis by auto
    qed
    moreover have "cancelled (sweep_through (cid # cids) s) t \<longleftrightarrow> cancelled s t \<or> t = ct
        \<or> (\<exists>x \<in> set cids. ((active_clients (registry s))(cid := None)) x = Some t)" for t
      by (simp add: Cons.IH Some)
    ultimately have "cancelled (sweep_through (cid # cids) s) t \<longleftrightarrow> cancelled s t
        \<or> (\<exists>x \<in> set (cid # cids). active_clients (registry s) x = Some t)" for t
      by blast
    moreover have "last_heartbeat (registry (sweep_through (cid # cids) s))
        = last_heartbeat (registry s) |` (- set (cid # cids))"
      "active_clients (registry (sweep_through (cid # cids) s))
        = active_clients (registry s) |` (- set (cid # cids))"
      "conns (sweep_through (cid # cids) s) = conns s"
      by (auto simp: Cons.IH Some restrict_map_def fun_eq_iff)
    ultimately show ?thesis by blast
  qed
qed

section \<open>Concrete connections\<close>

definition idle_server :: "unit server" where
  "idle_server = new_server 0 ()"

text \<open>A client that has connected and then says nothing for a thousand seconds.\<close>

definition quiet_conn :: conn where
  "quiet_conn = \<lparr> conn_id = ''10.0.0.7:5000'', conn_ip = ''10.0.0.7'', conn_ct = 1,
     conn_pc = Register_active, conn_served = [] \<rparr>"

definition quiet_server :: "unit server" where
  "quiet_server = idle_server\<lparr>conns := [quiet_conn], next_token := 2, now := 1000000\<rparr>"

lemma quiet_server_reach: "reach server_init (server_step js protocols) quiet_server"
proof -
  have 1: "reach server_init (server_step js protocols) idle_server"
    by (intro reach_init) (auto simp: server_init_def idle_server_def)
  have "server_step js protocols idle_server (Accept ''10.0.0.7:5000'' ''10.0.0.7'')
      (accept_client ''10.0.0.7:5000'' ''10.0.0.7'' idle_server)"
    by (rule server_step.accept) (simp_all add: idle_server_def new_server_def)
  from reach_step [where step = "server_step js protocols", OF 1 this]
  have 2: "reach server_init (server_step js protocols)
      (accept_client ''10.0.0.7:5000'' ''10.0.0.7'' idle_server)" .
  from reach_step [where step = "server_step js protocols", OF 2 server_step.tick [where d = 1000000]]
  show ?thesis
    by (simp add: quiet_server_def accept_client_def idle_server_def new_server_def quiet_conn_def
        server_token_def numeral_2_eq_2)
qed

text \<open>
  A client that has connected and pinged with the machine id \<open>m7\<close>.
\<close>

definition m7_request :: protocol_request where
  "m7_request = \<lparr> namespace = ''c'', request_type = ''player_ping'', req_body = into_bytes ''m7'' \<rparr>"

definition m7_protocols :: "string \<rightharpoonup> unit protocol_handler" where
  "m7_protocols = [''c:player_ping'' \<mapsto> delegate_raw ''c:player_ping'' (\<lambda>_ s. ([], s))]"

definition m7_server :: "conn_pc \<Rightarrow> registry \<Rightarrow> (protocol_request \<times> protocol_response) list \<Rightarrow> unit server" where
  "m7_server pc reg served =
     idle_server\<lparr>conns := [quiet_conn\<lparr>conn_pc := pc, conn_served := served\<rparr>], next_token := 2, registry := reg\<rparr>"

definition m7_registry :: registry where
  "m7_registry = \<lparr> last_heartbeat = [''10.0.0.7:5000'' \<mapsto> 0], active_clients = [''10.0.0.7:5000'' \<mapsto> 1],
     client_machine = [''10.0.0.7:5000'' \<mapsto> ''m7''], client_ip = [''10.0.0.7:5000'' \<mapsto> ''10.0.0.7''] \<rparr>"

lemma m7_step:
  assumes "reach server_init (server_step js protocols) (m7_server pc reg served)"
    and "conn_step js protocols 0 (quiet_conn\<lparr>conn_pc := pc, conn_served := served\<rparr>) pc io
           (m7_server pc reg served) = Some s'"
  shows "reach server_init (server_step js protocols) s'"
proof -
  have "server_step js protocols (m7_server pc reg served) (Conn 0 io) s'"
    using assms(2) by (intro server_step.conn) (simp_all add: m7_server_def)
  with assms(1) show ?thesis by (rule reach_step)
qed

lemma m7_server_reach:
  "reach server_init (server_step body_json m7_protocols)
     (m7_server Serving m7_registry [(m7_request, \<lparr>status = 0, resp_body = []\<rparr>)])"
proof -
  let ?reach = "reach server_init (server_step body_json m7_protocols)"
  let ?a = "new_registry\<lparr>active_clients := [''10.0.0.7:5000'' \<mapsto> 1]\<rparr>"
  let ?b = "?a\<lparr>client_ip := [''10.0.0.7:5000'' \<mapsto> ''10.0.0.7'']\<rparr>"
  let ?c = "?b\<lparr>last_heartbeat := [''10.0.0.7:5000'' \<mapsto> 0]\<rparr>"
  let ?ok = "\<lparr>status = 0, resp_body = []\<rparr> :: protocol_response"
  note defs = m7_server_def quiet_conn_def idle_server_def new_server_def new_registry_def update_conn_def
    set_pc_def
  have key: "request_key m7_request = ''c:player_ping''"
    by (simp add: m7_request_def request_key_def)
  have disp: "dispatch m7_protocols m7_request () = (?ok, ())"
    by (simp add: dispatch_def key m7_protocols_def delegate_raw_def)
  have 0: "?reach idle_server"
    by (intro reach_init) (auto simp: server_init_def idle_server_def)
  have "server_step body_json m7_protocols idle_server (Accept ''10.0.0.7:5000'' ''10.0.0.7'')
      (accept_client ''10.0.0.7:5000'' ''10.0.0.7'' idle_server)"
    by (rule server_step.accept) (simp_all add: idle_server_def new_server_def)
  from reach_step [where step = "server_step body_json m7_protocols", OF 0 this]
  have 1: "?reach (m7_server Register_active new_registry [])"
    by (simp add: accept_client_def defs server_token_def numeral_2_eq_2)
  have 2: "?reach (m7_server Register_ip ?a [])"
    by (rule m7_step [OF 1, where io = No_io]) (simp add: defs)
  have 3: "?reach (m7_server Serving ?b [])"
    by (rule m7_step [OF 2, where io = No_io]) (simp add: defs)
  have 4: "?reach (m7_server (Handling m7_request ?ok) ?b [])"
    by (rule m7_step [OF 3, where io = "Read (Inr m7_request)"]) (simp add: defs disp)
  have 5: "?reach (m7_server (Note_heartbeat m7_request) ?b [(m7_request, ?ok)])"
    by (rule m7_step [OF 4, where io = "Written (Inr ())"]) (simp add: defs key is_success_def)
  have "machine_of_body body_json (req_body m7_request) = Some ''m7''"
    by (simp add: machine_of_body_def body_json_def value_to_string_def m7_request_def)
  then have 6: "?reach (m7_server (Note_machine ''m7'') ?c [(m7_request, ?ok)])"
    by (intro m7_step [OF 5, where io = No_io]) (simp add: defs)
  show ?thesis
    by (rule m7_step [OF 6, where io = No_io]) (simp add: defs m7_registry_def)
qed

text \<open>Steps of one connection, one after the other.\<close>

fun own_run ::
  "'v serde_json \<Rightarrow> (string \<rightharpoonup> 's protocol_handler) \<Rightarrow> nat \<Rightarrow> conn_io list \<Rightarrow> 's server \<Rightarrow> 's server option" where
  "own_run js protocols i [] s = Some s"
| "own_run js protocols i (io # ios) s =
     (case conn_step js protocols i (conns s ! i) (conn_pc (conns s ! i)) io s of
        Some s' \<Rightarrow> own_run js protocols i ios s' | None \<Rightarrow> None)"

lemma own_run_reach:
  "own_run js protocols i ios s = Some s' \<Longrightarrow> i < length (conns s) \<Longrightarrow>
     reach server_init (server_step js protocols) s \<Longrightarrow> reach server_init (server_step js protocols) s'"
proof (induction ios arbitrary: s)
  case (Cons io ios)
  then obtain s1 where s1: "conn_step js protocols i (conns s ! i) (conn_pc (conns s ! i)) io s = Some s1"
    and rest: "own_run js protocols i ios s1 = Some s'" by (auto split: option.splits)
  have step: "server_step js protocols s (Conn i io) s1" using Cons.prems(2) s1 by (rule server_step.conn)
  have "i < length (conns s1)" using step_conn_frame [OF step Cons.prems(2)] by simp
  moreover have "reach server_init (server_step js protocols) s1" using Cons.prems(3) step by (rule reach_step)
  ultimately show ?case using Cons.IH [OF rest] by blast
qed simp

text \<open>The client with the machine id \<open>m7\<close> hangs up, and its connection task cleans up.\<close>

definition m7_hangs_up :: "conn_io list" where
  "m7_hangs_up = [Read (Inl (Protocol [])), No_io, No_io, No_io, No_io, No_io]"

definition m7_served :: "unit server" where
  "m7_served = m7_server Serving m7_registry [(m7_request, \<lparr>status = 0, resp_body = []\<rparr>)]"

lemma m7_hangs_up:
  obtains s where "own_run body_json m7_protocols 0 m7_hangs_up m7_served = Some s"
    and "reach server_init (server_step body_json m7_protocols) s" and "length (conns s) = 1"
    and "\<forall>c \<in> set (conns s). \<not> live c" and "disconnected s = [''m7'']"
proof -
  have "\<exists>s. own_run body_json m7_protocols 0 m7_hangs_up m7_served = Some s \<and> length (conns s) = 1
      \<and> (\<forall>c \<in> set (conns s). \<not> live c) \<and> disconnected s = [''m7'']"
    by (simp add: m7_hangs_up_def m7_served_def m7_server_def m7_registry_def quiet_conn_def idle_server_def
        new_server_def update_conn_def set_pc_def live_def)
  then obtain s where s: "own_run body_json m7_protocols 0 m7_hangs_up m7_served = Some s" "length (conns s) = 1"
    "\<forall>c \<in> set (conns s). \<not> live c" "disconnected s = [''m7'']" by blast
  have "0 < length (conns m7_served)" by (simp add: m7_served_def m7_server_def)
  with s that own_run_reach [OF s(1)] m7_server_reach show thesis unfolding m7_served_def by blast
qed

section \<open>Properties\<close>

text \<open>
  C2: in every reachable state in which all accepted connections have finished, the registry is
  empty: no heartbeat, token, address or machine id outlives its connection, in whatever order the
  connection tasks, the heartbeat loop and the disconnection calls ran.
\<close>

theorem registry_leaves_nothing:
  assumes "reach server_init (server_step js protocols) s"
    and "\<forall>c \<in> set (conns s). \<not> live c"
  shows "registry s = new_registry"
proof -
  have inv: "server_inv s" using assms(1) by (rule server.inv_reach)
  have "\<not> owns_active v c \<and> \<not> owns_heartbeat v c \<and> \<not> owns_ip w c \<and> \<not> owns_machine w c"
    if "c \<in> set (conns s)" for v w c
    using assms(2) that by (auto simp: owns_defs live_stage)
  then have "active_clients (registry s) = Map.empty" "last_heartbeat (registry s) = Map.empty"
    "client_ip (registry s) = Map.empty" "client_machine (registry s) = Map.empty"
    using inv by (auto simp: server_inv_def maps_ok_def elim!: claims_None)
  then show ?thesis by (simp add: new_registry_def)
qed

theorem registry_leaves_nothing_witness:
  "registry m7_served = m7_registry
 \<and> (\<exists>s. own_run body_json m7_protocols 0 m7_hangs_up m7_served = Some s \<and> length (conns s) = 1
      \<and> registry s = new_registry)"
proof
  show "registry m7_served = m7_registry" by (simp add: m7_served_def m7_server_def)
  obtain s where s: "own_run body_json m7_protocols 0 m7_hangs_up m7_served = Some s"
    "reach server_init (server_step body_json m7_protocols) s" "length (conns s) = 1" "\<forall>c \<in> set (conns s). \<not> live c"
    by (rule m7_hangs_up)
  from registry_leaves_nothing [OF s(2,4)] s(1,3)
  show "\<exists>s. own_run body_json m7_protocols 0 m7_hangs_up m7_served = Some s \<and> length (conns s) = 1
      \<and> registry s = new_registry" by blast
qed

text \<open>
  C25: at every moment the number of disconnection events sent equals the number of connections whose
  task has finished: each connection reports exactly once, however it ends.
\<close>

theorem one_event_per_connection:
  assumes "reach server_init (server_step js protocols) s"
  shows "length (disconnected s) = length (filter (\<lambda>c. \<not> live c) (conns s))"
  using server.inv_reach [OF assms] by (simp add: server_inv_def events_ok_def)

theorem one_event_per_connection_witness:
  "\<exists>s. own_run body_json m7_protocols 0 m7_hangs_up m7_served = Some s \<and> disconnected s = [''m7'']
     \<and> length (filter (\<lambda>c. \<not> live c) (conns s)) = 1"
proof -
  obtain s where s: "own_run body_json m7_protocols 0 m7_hangs_up m7_served = Some s"
    "reach server_init (server_step body_json m7_protocols) s" "disconnected s = [''m7'']"
    by (rule m7_hangs_up)
  from one_event_per_connection [OF s(2)] s(1,3) show ?thesis by auto
qed

text \<open>
  C14: once its token or the server's is cancelled, a connection answers at most the request it is
  handling and no other, takes at most nine more steps of its own under any interleaving, and can
  always take the next one until it has finished.  Writing a response is a step that the socket completes,
  with success or an error.
\<close>

theorem cancelled_connection_ends:
  assumes "i < length (conns s)" and "conn_cancelled s (conns s ! i)"
    and "run (server_step js protocols) s ls s'"
  shows "own_steps i ls \<le> 9
    \<and> length (conn_served (conns s' ! i))
        \<le> length (conn_served (conns s ! i)) + response_due (conn_pc (conns s ! i))
    \<and> (conn_pc (conns s' ! i) = Finished \<or> (\<exists>io s''. server_step js protocols s' (Conn i io) s''))"
proof -
  note run = cancelled_run [OF assms(3,1,2)]
  have "steps_left pc \<le> 9" for pc by (cases pc) auto
  from this [of "conn_pc (conns s ! i)"] run have "own_steps i ls \<le> 9" by linarith
  moreover have "\<exists>io s''. server_step js protocols s' (Conn i io) s''" if "live (conns s' ! i)"
    using cancelled_conn_moves [OF run [THEN conjunct2, THEN conjunct2, THEN conjunct2] that]
      server_step.conn [of i s' js protocols] run by blast
  ultimately show ?thesis using run by (auto simp: live_def)
qed

definition kicked_conn :: conn where
  "kicked_conn = \<lparr> conn_id = ''10.0.0.7:5000'', conn_ip = ''10.0.0.7'', conn_ct = 1,
     conn_pc = Serving, conn_served = [] \<rparr>"

theorem cancelled_connection_ends_witness:
  "own_steps 0 [] \<le> 9 \<and> (\<exists>io s''. server_step body_json Map.empty
      (idle_server\<lparr>conns := [kicked_conn], cancelled := (\<lambda>t. t = 1)\<rparr>) (Conn 0 io) s'')"
  using cancelled_connection_ends [of 0 "idle_server\<lparr>conns := [kicked_conn], cancelled := (\<lambda>t. t = 1)\<rparr>"
      body_json Map.empty "[]", OF _ _ run_Nil]
  by (simp add: conn_cancelled_def kicked_conn_def)

text \<open>
  C13: a sweep that is not interrupted forgets the heartbeats of exactly the clients whose last
  heartbeat is more than 15 seconds before the instant it took, and cancels exactly the tokens those
  clients had in the map of active clients, whatever the iteration order of the map.
\<close>

theorem sweep_disconnects_exactly_stale:
  assumes "iterates order (last_heartbeat (registry s))"
  shows "last_heartbeat (registry (sweep_through (timed_out (registry s) instant order) s))
      = last_heartbeat (registry s) |` {cid. \<not> stale (registry s) instant cid}
    \<and> (\<forall>ct. cancelled (sweep_through (timed_out (registry s) instant order) s) ct \<longleftrightarrow>
          cancelled s ct
        \<or> (\<exists>cid. stale (registry s) instant cid \<and> active_clients (registry s) cid = Some ct))"
  using sweep_through_effect [of "timed_out (registry s) instant order" s]
  by (simp add: set_timed_out [OF assms] Collect_neg_eq)

theorem sweep_disconnects_exactly_stale_witness:
  "\<forall>ct. cancelled (sweep_through (timed_out
        \<lparr>last_heartbeat = [''a'' \<mapsto> 1000, ''b'' \<mapsto> 9000], active_clients = [''a'' \<mapsto> 1, ''b'' \<mapsto> 2],
         client_machine = Map.empty, client_ip = Map.empty\<rparr> 20000 [''b'', ''a''])
      (idle_server\<lparr>registry :=
        \<lparr>last_heartbeat = [''a'' \<mapsto> 1000, ''b'' \<mapsto> 9000], active_clients = [''a'' \<mapsto> 1, ''b'' \<mapsto> 2],
         client_machine = Map.empty, client_ip = Map.empty\<rparr>\<rparr>)) ct \<longleftrightarrow> ct = 1"
proof -
  let ?reg = "\<lparr>last_heartbeat = [''a'' \<mapsto> 1000, ''b'' \<mapsto> 9000], active_clients = [''a'' \<mapsto> 1, ''b'' \<mapsto> 2],
         client_machine = Map.empty, client_ip = Map.empty\<rparr>"
  let ?s = "idle_server\<lparr>registry := ?reg\<rparr>"
  have "iterates [''b'', ''a''] (last_heartbeat (registry ?s))"
    by (auto simp: iterates_def)
  from sweep_disconnects_exactly_stale [OF this, of 20000] show ?thesis
    by (auto simp: stale_def heartbeat_timeout_def idle_server_def new_server_def split: if_splits)
qed

text \<open>
  A connection without a single successful ping is in no list of timed-out clients, at whatever
  instant: a client whose pings the host rejects, or that never pings, is not disconnected by the
  heartbeat loop.
\<close>

lemma unaccepted_client_never_times_out:
  assumes "reach server_init (server_step js protocols) s"
    and "i < length (conns s)" and "live (conns s ! i)" and "\<not> has_pinged (conns s ! i)"
  shows "conn_id (conns s ! i) \<notin> set (timed_out (registry s) instant order)"
proof -
  have inv: "server_inv s" using assms(1) by (rule server.inv_reach)
  have "last_heartbeat (registry s) (conn_id (conns s ! i)) = None"
  proof (rule ccontr)
    assume "last_heartbeat (registry s) (conn_id (conns s ! i)) \<noteq> None"
    then obtain t where "last_heartbeat (registry s) (conn_id (conns s ! i)) = Some t" by blast
    moreover have "claims owns_heartbeat (conns s) (last_heartbeat (registry s))" "unique_conns (conns s)"
      using inv by (simp_all add: server_inv_def maps_ok_def)
    moreover have "live c" if "owns_heartbeat v c" for v c
      using that by (simp add: owns_heartbeat_def live_stage)
    ultimately have "owns_heartbeat t (conns s ! i)"
      using assms(2,3) claims_own [of owns_heartbeat "conns s" "last_heartbeat (registry s)" i t] by blast
    with assms(4) show False by (simp add: owns_heartbeat_def)
  qed
  then show ?thesis by (simp add: timed_out_def)
qed

section \<open>Disconnecting a machine\<close>

text \<open>A call of \<open>disconnect_machine\<close> that no other task interrupts, and what it returns.\<close>

definition disconnect_machine :: "string list \<Rightarrow> string \<Rightarrow> 's server \<Rightarrow> bool \<times> 's server" where
  "disconnect_machine order machine_id s =
     (case find_client (registry s) order machine_id of
        None \<Rightarrow> (False, s)
      | Some client_id \<Rightarrow>
          (case active_clients (registry s) client_id of
             Some ct \<Rightarrow>
               (True, s\<lparr>registry := (registry s)
                           \<lparr>active_clients := (active_clients (registry s))(client_id := None)\<rparr>,
                        cancelled := (cancelled s)(ct := True)\<rparr>)
           | None \<Rightarrow> (False, s)))"

text \<open>It is the steps of the interleaving one after the other.\<close>

lemma disconnect_machine_steps:
  assumes "kicks s = []" and "find_client (registry s) order mid = Some cid"
  shows "snd (disconnect_machine order mid s) =
    (let s1 = kick_find order mid s; s2 = kick_step 0 (kicks s1 ! 0) s1
     in if kicks s2 = [] then s2 else kick_step 0 (kicks s2 ! 0) s2)"
  using assms
  by (cases "active_clients (registry s) cid")
    (simp_all add: disconnect_machine_def kick_find_def remove_at_def)

text \<open>
  When exactly one client has pinged with a machine id, is being served and is not about to be
  disconnected, looking up the machine gives its address, and disconnecting the machine reports
  success and cancels that client's token and no other; for a machine id no client has pinged with,
  it reports failure and changes nothing.
\<close>

lemma disconnect_machine_hits:
  assumes "reach server_init (server_step js protocols) s"
    and "iterates order (client_machine (registry s))"
    and "i < length (conns s)" and "stage (conn_pc (conns s ! i)) = 2"
    and "\<not> doomed s (conn_ct (conns s ! i))"
    and "\<forall>cid. client_machine (registry s) cid = Some mid \<longleftrightarrow> cid = conn_id (conns s ! i)"
    and "mid' \<notin> ran (client_machine (registry s))"
  shows "machine_source_ip (registry s) order mid = Some (conn_ip (conns s ! i))
    \<and> fst (disconnect_machine order mid s)
    \<and> cancelled (snd (disconnect_machine order mid s))
        = (cancelled s)(conn_ct (conns s ! i) := True)
    \<and> machine_source_ip (registry s) order mid' = None
    \<and> disconnect_machine order mid' s = (False, s)"
proof -
  let ?c = "conns s ! i"
  have "served_one s ?c"
    using server.inv_reach [OF assms(1)] assms(3) by (simp add: server_inv_def served_ok_def)
  with assms(4,5) have own: "active_clients (registry s) (conn_id ?c) = Some (conn_ct ?c)"
    "client_ip (registry s) (conn_id ?c) = Some (conn_ip ?c)"
    by (simp_all add: served_one_def)
  have "mid \<in> ran (client_machine (registry s))" using assms(6) by (auto simp: ran_def)
  then have "find_client (registry s) order mid \<noteq> None"
    unfolding find_client_def find_iterates_None [OF assms(2)] by blast
  then obtain cid where found: "find_client (registry s) order mid = Some cid" by blast
  from find_iterates_Some [OF assms(2) found [unfolded find_client_def]]
  have "cid = conn_id ?c" using assms(6) by blast
  moreover have "find_client (registry s) order mid' = None"
    unfolding find_client_def find_iterates_None [OF assms(2)] by (rule assms(7))
  moreover note found
  ultimately show ?thesis
    using own by (simp add: machine_source_ip_def disconnect_machine_def)
qed

end
