(* ===== verification/Cancellation.thy ===== *)
theory Cancellation
  imports Systems
begin

text \<open>
  The cancellation token (\<open>util.rs\<close>): an atomic flag and a \<open>Notify\<close>.  Cancelling stores the flag and
  then notifies the waiters; waiting checks the flag, creates the \<open>Notified\<close> future, checks the flag
  again and only then waits.  The tasks are step machines that interleave.  Of \<open>Notify\<close> the model
  uses what tokio documents: \<open>notify_waiters\<close> wakes every future that has been created, polled or
  not, and leaves no permit for later ones.
\<close>

section \<open>The tasks\<close>

datatype wait_pc =
    First_check
  | Create_future
  | Second_check bool
  | Waiting bool
  | Woken_up

datatype cancel_pc = Store_flag | Notify_waiters | Cancel_done

record token_state =
  flag :: bool
  waiters :: "wait_pc list"
  cancellers :: "cancel_pc list"

text \<open>One step of \<open>cancelled().await\<close>; the argument of the two last waiting states says whether the
  future has been notified.  A task that waits without a notification has no step.\<close>

fun wait_step :: "bool \<Rightarrow> wait_pc \<Rightarrow> wait_pc option" where
  "wait_step f First_check = Some (if f then Woken_up else Create_future)"
| "wait_step f Create_future = Some (Second_check False)"
| "wait_step f (Second_check notified) = Some (if f then Woken_up else Waiting notified)"
| "wait_step f (Waiting notified) = (if notified then Some Woken_up else None)"
| "wait_step f Woken_up = None"

fun wake :: "wait_pc \<Rightarrow> wait_pc" where
  "wake (Second_check _) = Second_check True"
| "wake (Waiting _) = Waiting True"
| "wake pc = pc"

text \<open>One step of \<open>cancel()\<close>.\<close>

fun cancel_step :: "nat \<Rightarrow> cancel_pc \<Rightarrow> token_state \<Rightarrow> token_state" where
  "cancel_step k Store_flag s = s\<lparr>flag := True, cancellers := (cancellers s)[k := Notify_waiters]\<rparr>"
| "cancel_step k Notify_waiters s =
     s\<lparr>waiters := map wake (waiters s), cancellers := (cancellers s)[k := Cancel_done]\<rparr>"
| "cancel_step k Cancel_done s = s"

definition is_cancelled :: "token_state \<Rightarrow> bool" where
  "is_cancelled s = flag s"

datatype token_label = Start_wait | Wait nat | Start_cancel | Cancel nat

inductive token_step :: "token_state \<Rightarrow> token_label \<Rightarrow> token_state \<Rightarrow> bool" where
  start_wait: "token_step s Start_wait (s\<lparr>waiters := waiters s @ [First_check]\<rparr>)"
| wait: "i < length (waiters s) \<Longrightarrow> wait_step (flag s) (waiters s ! i) = Some pc \<Longrightarrow>
     token_step s (Wait i) (s\<lparr>waiters := (waiters s)[i := pc]\<rparr>)"
| start_cancel: "token_step s Start_cancel (s\<lparr>cancellers := cancellers s @ [Store_flag]\<rparr>)"
| cancel: "k < length (cancellers s) \<Longrightarrow>
     token_step s (Cancel k) (cancel_step k (cancellers s ! k) s)"

inductive_cases token_waitE: "token_step s (Wait i) s'"

definition token_init :: "token_state \<Rightarrow> bool" where
  "token_init s \<longleftrightarrow> s = \<lparr>flag = False, waiters = [], cancellers = []\<rparr>"

section \<open>No wake-up is lost\<close>

text \<open>
  While a task waits without a notification, either the flag is not set or some call of \<open>cancel\<close> has
  yet to notify.  A call that has stored the flag keeps it set.
\<close>

definition token_inv :: "token_state \<Rightarrow> bool" where
  "token_inv s \<longleftrightarrow>
     (Waiting False \<in> set (waiters s) \<longrightarrow> flag s \<longrightarrow> Notify_waiters \<in> set (cancellers s))
   \<and> (Notify_waiters \<in> set (cancellers s) \<or> Cancel_done \<in> set (cancellers s) \<longrightarrow> flag s)"

lemma set_update_other: "i < length xs \<Longrightarrow> x \<in> set xs \<Longrightarrow> x \<noteq> xs ! i \<Longrightarrow> x \<in> set (xs[i := y])"
  by (metis in_set_conv_nth length_list_update nth_list_update_neq)

lemma set_update_cases: "x \<in> set (xs[i := y]) \<Longrightarrow> x = y \<or> x \<in> set xs"
  using set_update_subset_insert [of xs i y] by blast

lemma wake_not_waiting: "Waiting False \<notin> set (map wake ws)"
proof
  assume "Waiting False \<in> set (map wake ws)"
  then obtain w where "wake w = Waiting False" by auto
  then show False by (cases w) auto
qed

lemma token_inv_wait:
  assumes "token_inv s" and "i < length (waiters s)" and "wait_step (flag s) (waiters s ! i) = Some pc"
  shows "token_inv (s\<lparr>waiters := (waiters s)[i := pc]\<rparr>)"
proof -
  have "pc \<noteq> Waiting False \<or> \<not> flag s"
    using assms(3) by (cases "waiters s ! i") (auto split: if_splits)
  then show ?thesis
    using assms(1) by (auto simp: token_inv_def dest: set_update_cases)
qed

lemma token_inv_cancel:
  assumes "token_inv s" and "k < length (cancellers s)"
  shows "token_inv (cancel_step k (cancellers s ! k) s)"
proof (cases "cancellers s ! k")
  case Store_flag
  with assms show ?thesis by (auto simp: token_inv_def set_update_memI)
next
  case Notify_waiters
  then have "Notify_waiters \<in> set (cancellers s)" using assms(2) by (metis nth_mem)
  with assms Notify_waiters wake_not_waiting show ?thesis by (auto simp: token_inv_def)
next
  case Cancel_done
  with assms show ?thesis by simp
qed

lemma token_inv_start:
  assumes "token_inv s"
  shows "token_inv (s\<lparr>waiters := waiters s @ [First_check]\<rparr>)"
    and "token_inv (s\<lparr>cancellers := cancellers s @ [Store_flag]\<rparr>)"
  using assms by (auto simp: token_inv_def)

lemma token_inv_step:
  assumes "token_inv s" and "token_step s l s'"
  shows "token_inv s'"
  using assms(2)
proof (cases rule: token_step.cases)
  case start_wait
  then show ?thesis using token_inv_start [OF assms(1)] by simp
next
  case (wait i pc)
  then show ?thesis using token_inv_wait [OF assms(1)] by simp
next
  case start_cancel
  then show ?thesis using token_inv_start [OF assms(1)] by simp
next
  case (cancel k)
  then show ?thesis using token_inv_cancel [OF assms(1)] by simp
qed

interpretation token: invariant_system token_init token_step token_inv
proof unfold_locales
  show "token_inv s" if "token_init s" for s
    using that by (simp add: token_init_def token_inv_def)
qed (rule token_inv_step)

section \<open>Properties\<close>

text \<open>
  C36: in whatever order waiting tasks and calls of \<open>cancel\<close> interleave, once every call that has
  started has returned and at least one has, the flag is set and no task waits without having been
  notified: every waiting task can finish.
\<close>

theorem no_lost_wakeup:
  assumes "reach token_init token_step s"
    and "cancellers s \<noteq> []" and "set (cancellers s) = {Cancel_done}"
    and "i < length (waiters s)"
  shows "is_cancelled s
    \<and> (waiters s ! i = Woken_up \<or> (\<exists>pc. token_step s (Wait i) (s\<lparr>waiters := (waiters s)[i := pc]\<rparr>)))"
proof -
  have inv: "token_inv s" using assms(1) by (rule token.inv_reach)
  then have "flag s" "Waiting False \<notin> set (waiters s)"
    using assms(3) by (auto simp: token_inv_def)
  moreover from this assms(4) have "waiters s ! i \<noteq> Waiting False" by (metis nth_mem)
  then have "waiters s ! i = Woken_up \<or> (\<exists>pc. wait_step (flag s) (waiters s ! i) = Some pc)"
    by (cases "waiters s ! i") auto
  then have "waiters s ! i = Woken_up
      \<or> (\<exists>pc. token_step s (Wait i) (s\<lparr>waiters := (waiters s)[i := pc]\<rparr>))"
    using token_step.wait [OF assms(4)] by blast
  ultimately show ?thesis by (simp add: is_cancelled_def)
qed

text \<open>A task that passed its first check, a cancellation in one go, and the task that then waits.\<close>

definition cancelled_token :: token_state where
  "cancelled_token = \<lparr>flag = True, waiters = [Create_future], cancellers = [Cancel_done]\<rparr>"

lemma cancelled_token_reach: "reach token_init token_step cancelled_token"
proof -
  let ?reach = "reach token_init token_step"
  note step = reach_step [where step = token_step]
  have 0: "?reach \<lparr>flag = False, waiters = [], cancellers = []\<rparr>"
    by (intro reach_init) (simp add: token_init_def)
  from step [OF 0 start_wait] have 1: "?reach \<lparr>flag = False, waiters = [First_check], cancellers = []\<rparr>"
    by simp
  from step [OF 1 wait [of 0 _ Create_future]]
  have 2: "?reach \<lparr>flag = False, waiters = [Create_future], cancellers = []\<rparr>" by simp
  from step [OF 2 start_cancel]
  have 3: "?reach \<lparr>flag = False, waiters = [Create_future], cancellers = [Store_flag]\<rparr>" by simp
  from step [OF 3 cancel [of 0]]
  have 4: "?reach \<lparr>flag = True, waiters = [Create_future], cancellers = [Notify_waiters]\<rparr>" by simp
  from step [OF 4 cancel [of 0]] show ?thesis by (simp add: cancelled_token_def)
qed

theorem no_lost_wakeup_witness:
  "is_cancelled cancelled_token
   \<and> (\<exists>pc. token_step cancelled_token (Wait 0) (cancelled_token\<lparr>waiters := [pc]\<rparr>))"
  using no_lost_wakeup [OF cancelled_token_reach, of 0] by (simp add: cancelled_token_def)

end
