(* ===== verification/Net_Addr.thy ===== *)
theory Net_Addr
  imports Models
begin

text \<open>
  Socket addresses as the standard library parses and prints them, for the port forwarding rules of
  the guest (\<open>guest/scaffolding_guest.rs\<close>) and of the EasyTier manager (\<open>easytier/manager.rs\<close>).  The
  IPv4 form is modelled; the reader of IPv6 addresses is an argument.
\<close>

section \<open>Addresses\<close>

datatype ipv4_addr = Ipv4 u8 u8 u8 u8

datatype 'v6 socket_addr = V4 ipv4_addr u16 | V6 'v6

fun show_ipv4 :: "ipv4_addr \<Rightarrow> string" where
  "show_ipv4 (Ipv4 a b c d) =
     show_nat (unat a) @ ''.'' @ show_nat (unat b) @ ''.'' @ show_nat (unat c) @ ''.'' @ show_nat (unat d)"

text \<open>An octet: one to three digits without a leading zero, at most 255.\<close>

definition parse_octet :: "string \<Rightarrow> u8 option" where
  "parse_octet s =
     (if s \<noteq> [] \<and> length s \<le> 3 \<and> list_all is_digit s \<and> (hd s = CHR ''0'' \<longrightarrow> length s = 1)
         \<and> digits_value s \<le> 255
      then Some (word_of_nat (digits_value s)) else None)"

text \<open>A port: digits, leading zeros allowed, at most 65535.\<close>

definition parse_port :: "string \<Rightarrow> u16 option" where
  "parse_port s =
     (if s \<noteq> [] \<and> list_all is_digit s \<and> digits_value s \<le> 65535
      then Some (word_of_nat (digits_value s)) else None)"

definition parse_ipv4 :: "string \<Rightarrow> ipv4_addr option" where
  "parse_ipv4 s =
     (case map parse_octet (split_on CHR ''.'' s) of
        [Some a, Some b, Some c, Some d] \<Rightarrow> Some (Ipv4 a b c d)
      | _ \<Rightarrow> None)"

definition parse_socket_v4 :: "string \<Rightarrow> (ipv4_addr \<times> u16) option" where
  "parse_socket_v4 s =
     Option.bind (split_once CHR '':'' s) (\<lambda>(host, port).
     Option.bind (parse_ipv4 host) (\<lambda>ip.
     Option.bind (parse_port port) (\<lambda>p. Some (ip, p))))"

definition parse_socket_addr :: "(string \<Rightarrow> 'v6 option) \<Rightarrow> string \<Rightarrow> 'v6 socket_addr option" where
  "parse_socket_addr v6 s =
     (case parse_socket_v4 s of
        Some (ip, p) \<Rightarrow> Some (V4 ip p)
      | None \<Rightarrow> map_option V6 (v6 s))"

section \<open>Printing and parsing\<close>

lemma show_nat_length3:
  assumes "n \<le> 255" shows "length (show_nat n) \<le> 3"
proof -
  have one: "length (show_nat m) = 1" if "m < 10" for m
    using that by (subst show_nat.simps) simp
  have two: "length (show_nat m) \<le> 2" if "m < 100" for m
    using that one [of "m div 10"] one [of m] by (subst show_nat.simps) simp
  show ?thesis
    using assms two [of "n div 10"] two [of n] by (subst show_nat.simps) simp
qed

lemma show_nat_head:
  "hd (show_nat n) = CHR ''0'' \<Longrightarrow> n = 0"
proof (induction n rule: show_nat.induct)
  case (1 n)
  show ?case
  proof (cases "n < 10")
    case True
    with 1(2) have "digit_char n = CHR ''0''" by (subst (asm) show_nat.simps) simp
    then have "of_char (digit_char n) = (48 :: nat)" by simp
    with True show ?thesis by (simp add: of_char_digit)
  next
    case False
    with 1(2) have "hd (show_nat (n div 10)) = CHR ''0''"
      by (subst (asm) show_nat.simps) simp
    with 1(1) False show ?thesis by auto
  qed
qed

lemma show_nat_0: "length (show_nat 0) = 1"
  by (subst show_nat.simps) simp

lemma parse_octet_show [simp]: "parse_octet (show_nat (unat (a :: u8))) = Some a"
proof -
  have "unat a \<le> 255" using unsigned_less [of a, where ?'a = nat] by simp
  then show ?thesis
    using show_nat_length3 [of "unat a"] show_nat_head [of "unat a"] show_nat_0
    by (auto simp: parse_octet_def show_nat_digits)
qed

lemma parse_port_show [simp]: "parse_port (show_nat (unat (p :: u16))) = Some p"
  by (simp add: parse_port_def show_nat_digits)

lemma show_nat_no_dot [simp]: "CHR ''.'' \<notin> set (show_nat n)"
  using show_nat_digits [of n] by (auto simp: list_all_iff is_digit_def)

lemma show_ipv4_no_colon [simp]: "CHR '':'' \<notin> set (show_ipv4 ip)" "CHR ''/'' \<notin> set (show_ipv4 ip)"
  by (cases ip; simp)+

lemma parse_ipv4_show [simp]: "parse_ipv4 (show_ipv4 ip) = Some ip"
  by (cases ip) (simp add: parse_ipv4_def split_on_append split_on_no_sep)

text \<open>An address printed with its port parses back.\<close>

lemma parse_socket_addr_show [simp]:
  "parse_socket_addr v6 (show_ipv4 ip @ CHR '':'' # show_nat (unat p)) = Some (V4 ip p)"
  by (simp add: parse_socket_addr_def parse_socket_v4_def split_once_append)

end
