(* ===== verification/Bind_Ip.thy ===== *)
theory Bind_Ip
  imports Net_Addr Messages "HOL-Library.List_Lexorder" "HOL-Library.Char_ord"
begin

text \<open>
  The choice of the address EasyTier binds to (\<open>util.rs\<close>): the IPv4 addresses of the physical
  interfaces, wired before wireless before others.  The interfaces the system reports are an
  argument; a failure to list them is \<open>None\<close>.
\<close>

section \<open>Interfaces\<close>

datatype iface_addr = Addr_V4 ipv4_addr | Addr_V6 string

record network_interface =
  iface_name :: string
  iface_addrs :: "iface_addr list"

fun is_loopback :: "ipv4_addr \<Rightarrow> bool" where
  "is_loopback (Ipv4 a b c d) = (a = 127)"

fun is_link_local :: "ipv4_addr \<Rightarrow> bool" where
  "is_link_local (Ipv4 a b c d) = (a = 169 \<and> b = 254)"

definition virtual_keywords :: "string list" where
  "virtual_keywords =
     [''radmin'', ''hamachi'', ''zerotier'', ''wintun'', ''tailscale'', ''wireguard'', ''openvpn'',
      ''nordvpn'', ''surfshark'', ''vmware'', ''virtualbox'', ''virtual'', ''loopback'', ''easytier'',
      ''vpn'', ''tun'', ''tap'']"

definition is_virtual_interface :: "string \<Rightarrow> bool" where
  "is_virtual_interface lower = list_ex (\<lambda>k. contains k lower) virtual_keywords"

section \<open>The order\<close>

definition nic_score :: "string \<Rightarrow> nat" where
  "nic_score n =
     (if contains ''ethernet'' n \<or> contains kw_ethernet_zh n then 0
      else if contains ''wlan'' n \<or> contains ''wi-fi'' n \<or> contains ''wifi'' n
              \<or> contains kw_wireless_zh n then 1
      else 2)"

text \<open>The sort key: the score and then the name, compared lexicographically.\<close>

datatype nic_key = Nic_key (key_score: nat) (key_name: string)

instantiation nic_key :: linorder
begin

definition less_eq_nic_key :: "nic_key \<Rightarrow> nic_key \<Rightarrow> bool" where
  "less_eq_nic_key k l \<longleftrightarrow>
     key_score k < key_score l \<or> (key_score k = key_score l \<and> key_name k \<le> key_name l)"

definition less_nic_key :: "nic_key \<Rightarrow> nic_key \<Rightarrow> bool" where
  "less_nic_key k l \<longleftrightarrow>
     key_score k < key_score l \<or> (key_score k = key_score l \<and> key_name k < key_name l)"

instance
  by standard (auto simp: less_eq_nic_key_def less_nic_key_def nic_key.expand)

end

definition nic_key_of :: "string \<Rightarrow> nic_key" where
  "nic_key_of n = Nic_key (nic_score n) n"

text \<open>\<open>sort_by_key\<close> of the standard library is stable, as \<open>sort_key\<close> is.\<close>

definition sort_candidates :: "(string \<times> string) list \<Rightarrow> (string \<times> string) list" where
  "sort_candidates candidates = sort_key (\<lambda>(n, _). nic_key_of n) candidates"

section \<open>The candidates\<close>

fun iface_candidates :: "string \<Rightarrow> iface_addr list \<Rightarrow> (string \<times> string) list" where
  "iface_candidates lower [] = []"
| "iface_candidates lower (Addr_V6 _ # addrs) = iface_candidates lower addrs"
| "iface_candidates lower (Addr_V4 ip # addrs) =
     (if is_loopback ip \<or> is_link_local ip then iface_candidates lower addrs
      else (lower, show_ipv4 ip) # iface_candidates lower addrs)"

fun collect_candidates :: "network_interface list \<Rightarrow> (string \<times> string) list" where
  "collect_candidates [] = []"
| "collect_candidates (iface # rest) =
     (let lower = to_ascii_lowercase (iface_name iface)
      in if is_virtual_interface lower then collect_candidates rest
         else iface_candidates lower (iface_addrs iface) @ collect_candidates rest)"

definition physical_ipv4_candidates :: "network_interface list option \<Rightarrow> string list" where
  "physical_ipv4_candidates interfaces =
     (case interfaces of
        None \<Rightarrow> []
      | Some ifs \<Rightarrow> map snd (sort_candidates (collect_candidates ifs)))"

definition resolve_bind_ip :: "network_interface list option \<Rightarrow> string option" where
  "resolve_bind_ip interfaces =
     (case physical_ipv4_candidates interfaces of [] \<Rightarrow> None | ip # _ \<Rightarrow> Some ip)"

section \<open>Elevation\<close>

text \<open>
  What Windows answers about the token of the process: whether it could be opened, whether its
  elevation could be read, and the elevation.  On other systems there is no such answer.
\<close>

record token_query =
  open_process_token :: int
  get_token_information :: int
  token_is_elevated :: u32

definition is_elevated :: "token_query option \<Rightarrow> bool" where
  "is_elevated query =
     (case query of
        None \<Rightarrow> False
      | Some t \<Rightarrow>
          if open_process_token t = 0 then False
          else get_token_information t \<noteq> 0 \<and> token_is_elevated t \<noteq> 0)"

text \<open>What the program asks the operating system for.\<close>

record host_system =
  hs_interfaces :: "network_interface list option"
  hs_token :: "token_query option"

definition bare_system :: host_system where
  "bare_system = \<lparr> hs_interfaces = None, hs_token = None \<rparr>"

section \<open>Lemmas\<close>

text \<open>An address that may be bound: IPv4, of a physical interface, neither loopback nor link-local.\<close>

definition bindable :: "network_interface list \<Rightarrow> string \<Rightarrow> ipv4_addr \<Rightarrow> bool" where
  "bindable ifs lower ip \<longleftrightarrow>
     (\<exists>iface \<in> set ifs. lower = to_ascii_lowercase (iface_name iface)
        \<and> \<not> is_virtual_interface lower \<and> Addr_V4 ip \<in> set (iface_addrs iface)
        \<and> \<not> is_loopback ip \<and> \<not> is_link_local ip)"

lemma bindable_Cons:
  "bindable (iface # ifs) lower ip \<longleftrightarrow>
     (lower = to_ascii_lowercase (iface_name iface)
        \<and> \<not> is_virtual_interface lower \<and> Addr_V4 ip \<in> set (iface_addrs iface)
        \<and> \<not> is_loopback ip \<and> \<not> is_link_local ip)
   \<or> bindable ifs lower ip"
  by (simp add: bindable_def)

lemma in_iface_candidates:
  "(n, text) \<in> set (iface_candidates lower addrs) \<longleftrightarrow>
     n = lower \<and> (\<exists>ip. text = show_ipv4 ip \<and> Addr_V4 ip \<in> set addrs
       \<and> \<not> is_loopback ip \<and> \<not> is_link_local ip)"
  by (induction lower addrs rule: iface_candidates.induct) auto

lemma in_collect_candidates:
  "(lower, text) \<in> set (collect_candidates ifs) \<longleftrightarrow> (\<exists>ip. text = show_ipv4 ip \<and> bindable ifs lower ip)"
proof (induction ifs)
  case Nil
  then show ?case by (simp add: bindable_def)
next
  case (Cons iface ifs)
  show ?case
    by (simp add: Let_def in_iface_candidates bindable_Cons Cons.IH; blast)
qed

lemma resolve_bind_ip_eq:
  "resolve_bind_ip (Some ifs) =
     (case sort_candidates (collect_candidates ifs) of [] \<Rightarrow> None | (_, ip) # _ \<Rightarrow> Some ip)"
  by (auto simp: resolve_bind_ip_def physical_ipv4_candidates_def split: list.split)

lemma sort_candidates_first:
  assumes "sort_candidates cs = c # rest"
  shows "c \<in> set cs \<and> (\<forall>c' \<in> set cs. nic_key_of (fst c) \<le> nic_key_of (fst c'))"
proof -
  have "set (c # rest) = set cs"
    using assms by (metis set_sort sort_candidates_def)
  moreover have "sorted (map (\<lambda>(n, _). nic_key_of n) (c # rest))"
    using assms by (metis sort_candidates_def sorted_sort_key)
  ultimately show ?thesis
    by (auto simp: case_prod_beta)
qed

section \<open>Properties\<close>

text \<open>
  An address is chosen exactly when some physical interface has an IPv4 address that is neither
  loopback nor link-local, the address chosen is one of those, and no other such address is on an
  interface that ranks before its own (wired before wireless before others, then by name).
\<close>

lemma resolve_bind_ip_best:
  "(resolve_bind_ip (Some ifs) = None \<longleftrightarrow> \<not> (\<exists>lower ip. bindable ifs lower ip))
 \<and> (\<forall>shown. resolve_bind_ip (Some ifs) = Some shown \<longrightarrow>
      (\<exists>lower ip. shown = show_ipv4 ip \<and> bindable ifs lower ip
         \<and> (\<forall>lower' ip'. bindable ifs lower' ip' \<longrightarrow> nic_key_of lower \<le> nic_key_of lower')))"
proof (cases "sort_candidates (collect_candidates ifs)")
  case Nil
  then have "set (collect_candidates ifs) = {}"
    by (metis set_empty set_sort sort_candidates_def)
  then have "\<not> bindable ifs lower ip" for lower ip
    using in_collect_candidates [of lower "show_ipv4 ip" ifs] by auto
  with Nil show ?thesis by (simp add: resolve_bind_ip_eq)
next
  case (Cons c rest)
  obtain lower shown where c: "c = (lower, shown)" by (cases c)
  have first: "(lower, shown) \<in> set (collect_candidates ifs)"
    and least: "\<forall>c' \<in> set (collect_candidates ifs). nic_key_of lower \<le> nic_key_of (fst c')"
    using sort_candidates_first [OF Cons] by (simp_all add: c)
  from first obtain ip where ip: "shown = show_ipv4 ip" "bindable ifs lower ip"
    unfolding in_collect_candidates by blast
  have "nic_key_of lower \<le> nic_key_of lower'" if "bindable ifs lower' ip'" for lower' ip'
    using that least in_collect_candidates [of lower' "show_ipv4 ip'" ifs] by fastforce
  moreover have "resolve_bind_ip (Some ifs) = Some shown"
    by (simp add: resolve_bind_ip_eq Cons c)
  ultimately show ?thesis using ip by auto
qed

end
