(* ===== verification/Relay.thy ===== *)
theory Relay
  imports External Systems
begin

text \<open>
  Relay nodes (\<open>relay/nodes.rs\<close>, \<open>relay/provider.rs\<close>): the built-in defaults, the final list from
  override and additional nodes, and the provider that asks a node service over HTTP.  The HTTP client
  and the locale of the system are arguments; \<open>'w\<close> is the state of the world the requests act on.
\<close>

section \<open>Lists of nodes\<close>

definition default_node_list :: "string list" where
  "default_node_list =
     [''tcp://cgk1.clusters.zeabur.com:22171'',
      ''tcp://tcp.ap-northeast-1.clawcloudrun.com:45146'']"

definition resolve :: "string list option \<Rightarrow> string list option \<Rightarrow> string list" where
  "resolve override_nodes additional =
     (let result = (case override_nodes of Some nodes \<Rightarrow> nodes | None \<Rightarrow> default_node_list)
      in case additional of Some more_nodes \<Rightarrow> result @ more_nodes | None \<Rightarrow> result)"

definition default_nodes :: "string list" where
  "default_nodes = default_node_list"

section \<open>The provider\<close>

definition endpoint_url :: string where
  "endpoint_url = ''https://nodes.qomicex.top/api/nodes''"

definition default_user_agent :: string where
  "default_user_agent = ''Qomicex.Connector/1.0''"

text \<open>The region of a locale such as \<open>zh-CN\<close>: the second field, in upper case.\<close>

definition detect_system_region :: "string option \<Rightarrow> string" where
  "detect_system_region locale_name =
     (case locale_name of
        Some l \<Rightarrow> (case split_on CHR ''-'' l of
                    _ # region # _ \<Rightarrow> to_ascii_uppercase region
                  | _ \<Rightarrow> ''CN'')
      | None \<Rightarrow> ''CN'')"

text \<open>\<open>str::get(..n)\<close>: the first \<open>n\<close> bytes, if they end at a character boundary.\<close>

definition get_prefix :: "nat \<Rightarrow> string \<Rightarrow> string option" where
  "get_prefix n s =
     (if n = length s \<or> (n < length s \<and> \<not> cont_char (s ! n)) then Some (take n s) else None)"

definition is_http_url :: "string \<Rightarrow> bool" where
  "is_http_url node \<longleftrightarrow>
     (case get_prefix 7 node of Some p \<Rightarrow> eq_ignore_ascii_case p ''http://'' | None \<Rightarrow> False)
   \<or> (case get_prefix 8 node of Some p \<Rightarrow> eq_ignore_ascii_case p ''https://'' | None \<Rightarrow> False)"

record relay_node_provider =
  user_agent :: string
  preferred_region :: "string option"
  provider_endpoint :: "string option"

definition new_provider :: "string option \<Rightarrow> string option \<Rightarrow> string option \<Rightarrow> relay_node_provider" where
  "new_provider locale_name agent region =
     \<lparr> user_agent = (case agent of
          Some s \<Rightarrow> if trim s \<noteq> [] then s else default_user_agent
        | None \<Rightarrow> default_user_agent),
       preferred_region = (case region of
          Some r \<Rightarrow> Some r | None \<Rightarrow> Some (detect_system_region locale_name)),
       provider_endpoint = None \<rparr>"

definition with_endpoint :: "string \<Rightarrow> relay_node_provider \<Rightarrow> relay_node_provider" where
  "with_endpoint ep p = p\<lparr>provider_endpoint := Some ep\<rparr>"

section \<open>Parsing the answer of the node service\<close>

text \<open>One element: its address and whether its region is the preferred one, if it has an address.\<close>

definition node_of_element :: "'v serde_json \<Rightarrow> string option \<Rightarrow> 'v \<Rightarrow> (string \<times> bool) option" where
  "node_of_element js pref element =
     (case Option.bind (sj_get js element ''url'') (sj_as_str js) of
        None \<Rightarrow> None
      | Some url \<Rightarrow>
          if trim url = [] then None
          else let region = Option.bind (sj_get js element ''region'') (sj_as_str js);
                   is_preferred = (case (pref, region) of
                      (Some p, Some r) \<Rightarrow> eq_ignore_ascii_case r p | _ \<Rightarrow> False)
               in Some (url, is_preferred))"

text \<open>The loop over the array: two lists grow, and the rest is appended to the preferred ones.\<close>

fun split_nodes :: "'v serde_json \<Rightarrow> string option \<Rightarrow> 'v list \<Rightarrow> string list \<Rightarrow> string list \<Rightarrow> string list" where
  "split_nodes js pref [] preferred rest = preferred @ rest"
| "split_nodes js pref (element # elements) preferred rest =
     (case node_of_element js pref element of
        None \<Rightarrow> split_nodes js pref elements preferred rest
      | Some (url, True) \<Rightarrow> split_nodes js pref elements (preferred @ [url]) rest
      | Some (url, False) \<Rightarrow> split_nodes js pref elements preferred (rest @ [url]))"

definition parse_nodes :: "'v serde_json \<Rightarrow> string \<Rightarrow> string option \<Rightarrow> string list option" where
  "parse_nodes js json pref =
     (case sj_from_slice js (into_bytes json) of
        Inl _ \<Rightarrow> None
      | Inr value \<Rightarrow>
          (case sj_as_array js value of
             None \<Rightarrow> None
           | Some elements \<Rightarrow> Some (split_nodes js pref elements [] [])))"

section \<open>Requests\<close>

text \<open>
  A GET request with a User-Agent: no response, or a status and the text of the body (\<open>None\<close> when it
  could not be read).
\<close>

datatype http_reply = No_reply | Reply nat "string option"

type_synonym 'w http_get = "string \<Rightarrow> string \<Rightarrow> 'w \<Rightarrow> http_reply \<times> 'w"

definition http_text :: "http_reply \<Rightarrow> string option" where
  "http_text r =
     (case r of
        No_reply \<Rightarrow> None
      | Reply st body \<Rightarrow> if 200 \<le> st \<and> st < 300 then body else None)"

definition resolve_http_node_once ::
  "'w http_get \<Rightarrow> relay_node_provider \<Rightarrow> string \<Rightarrow> 'w \<Rightarrow> string option \<times> 'w" where
  "resolve_http_node_once http p node_url w =
     (let (reply, w) = http node_url (user_agent p) w
      in case http_text reply of
           None \<Rightarrow> (None, w)
         | Some body \<Rightarrow> (let trimmed = trim body in if trimmed = [] then None else Some trimmed, w))"

text \<open>\<open>for attempt in 0..2\<close>.\<close>

fun resolve_attempts ::
  "'w http_get \<Rightarrow> relay_node_provider \<Rightarrow> string \<Rightarrow> nat \<Rightarrow> 'w \<Rightarrow> string option \<times> 'w" where
  "resolve_attempts http p node_url 0 w = (None, w)"
| "resolve_attempts http p node_url (Suc n) w =
     (case resolve_http_node_once http p node_url w of
        (Some actual, w) \<Rightarrow> (Some actual, w)
      | (None, w) \<Rightarrow> resolve_attempts http p node_url n w)"

definition resolve_http_node ::
  "'w http_get \<Rightarrow> relay_node_provider \<Rightarrow> string \<Rightarrow> 'w \<Rightarrow> string option \<times> 'w" where
  "resolve_http_node http p node_url w = resolve_attempts http p node_url 2 w"

fun resolve_all ::
  "'w http_get \<Rightarrow> relay_node_provider \<Rightarrow> string list \<Rightarrow> string list \<Rightarrow> 'w \<Rightarrow> string list \<times> 'w" where
  "resolve_all http p [] resolved w = (resolved, w)"
| "resolve_all http p (node # nodes) resolved w =
     (if is_http_url node
      then case resolve_http_node http p node w of
             (Some actual, w) \<Rightarrow> resolve_all http p nodes (resolved @ [actual]) w
           | (None, w) \<Rightarrow> resolve_all http p nodes resolved w
      else resolve_all http p nodes (resolved @ [node]) w)"

definition fetch_nodes ::
  "'v serde_json \<Rightarrow> 'w http_get \<Rightarrow> relay_node_provider \<Rightarrow> string \<Rightarrow> 'w \<Rightarrow> string list option \<times> 'w" where
  "fetch_nodes js http p url w =
     (let (reply, w) = http url (user_agent p) w
      in case http_text reply of
           None \<Rightarrow> (None, w)
         | Some json \<Rightarrow>
             (case parse_nodes js json (preferred_region p) of
                None \<Rightarrow> (None, w)
              | Some nodes \<Rightarrow> (let (resolved, w) = resolve_all http p nodes [] w in (Some resolved, w))))"

definition fetch_from ::
  "'v serde_json \<Rightarrow> 'w http_get \<Rightarrow> relay_node_provider \<Rightarrow> string \<Rightarrow> 'w \<Rightarrow> string list \<times> 'w" where
  "fetch_from js http p url w =
     (case fetch_nodes js http p url w of
        (Some nodes, w) \<Rightarrow> (if nodes = [] then default_nodes else nodes, w)
      | (None, w) \<Rightarrow>
          (case fetch_nodes js http p url w of
             (Some nodes, w) \<Rightarrow> (if nodes = [] then default_nodes else nodes, w)
           | (None, w) \<Rightarrow> (default_nodes, w)))"

definition fetch :: "'v serde_json \<Rightarrow> 'w http_get \<Rightarrow> relay_node_provider \<Rightarrow> 'w \<Rightarrow> string list \<times> 'w" where
  "fetch js http p w =
     (case provider_endpoint p of
        Some ep \<Rightarrow> fetch_from js http p ep w
      | None \<Rightarrow> fetch_from js http p endpoint_url w)"

section \<open>Lemmas\<close>

text \<open>The elements that name a node, as pairs of address and preference, in order.\<close>

definition node_entries :: "'v serde_json \<Rightarrow> string option \<Rightarrow> 'v list \<Rightarrow> (string \<times> bool) list" where
  "node_entries js pref elements = List.map_filter (node_of_element js pref) elements"

lemma split_nodes_partition:
  "split_nodes js pref elements preferred rest =
     preferred @ map fst (filter snd (node_entries js pref elements))
       @ rest @ map fst (filter (\<lambda>e. \<not> snd e) (node_entries js pref elements))"
  by (induction js pref elements preferred rest rule: split_nodes.induct)
    (auto simp: node_entries_def map_filter_simps split: option.split)

lemma resolve_all_append:
  "resolve_all http p nodes (a @ b) w = apfst ((@) a) (resolve_all http p nodes b w)"
  by (induction nodes arbitrary: b w) (simp_all split: prod.split option.split)

text \<open>Nodes that can be used as they are pass through unchanged, without a request.\<close>

lemma resolve_all_plain:
  "\<forall>n \<in> set nodes. \<not> is_http_url n \<Longrightarrow> resolve_all http p nodes resolved w = (resolved @ nodes, w)"
  by (induction nodes arbitrary: resolved) auto

lemma default_nodes_nonempty [simp]: "default_nodes \<noteq> []"
  by (simp add: default_nodes_def default_node_list_def)

section \<open>Fetching as an interface\<close>

text \<open>
  What the client relies on: a source of nodes never returns an empty list.  So the list it builds
  with the additional nodes is not empty either.
\<close>

locale node_source =
  fixes source :: "'w \<Rightarrow> string list \<times> 'w"
  assumes source_nonempty: "fst (source w) \<noteq> []"
begin

lemma resolved_nonempty: "resolve (Some (fst (source w))) additional \<noteq> []"
  using source_nonempty by (simp add: resolve_def Let_def split: option.split)

end

lemma fetch_from_nonempty: "fst (fetch_from js http p url w) \<noteq> []"
  by (simp add: fetch_from_def split: prod.split option.split)

lemma fetch_nonempty: "fst (fetch js http p w) \<noteq> []"
  by (simp add: fetch_def fetch_from_nonempty split: option.split)

interpretation relay: node_source "fetch js http p"
  for js :: "'v serde_json" and http :: "'w http_get" and p
  by unfold_locales (rule fetch_nonempty)

section \<open>Properties\<close>

text \<open>
  The parsed node list is the addresses of the elements of the preferred region followed by those
  of all other elements, each part in the order of the array, and elements without a usable address
  are skipped; an answer that is no JSON array is rejected.
\<close>

lemma parse_nodes_partitions:
  "parse_nodes js json pref =
     (case sj_from_slice js (into_bytes json) of
        Inl _ \<Rightarrow> None
      | Inr value \<Rightarrow>
          map_option (\<lambda>elements. let es = node_entries js pref elements
                                 in map fst (filter snd es) @ map fst (filter (\<lambda>e. \<not> snd e) es))
            (sj_as_array js value))"
  by (simp add: parse_nodes_def split_nodes_partition Let_def split: sum.split option.split)

text \<open>A client that answers the \<open>n\<close>-th request with the \<open>n\<close>-th reply, and counts.\<close>

definition scripted_http :: "(nat \<Rightarrow> http_reply) \<Rightarrow> nat http_get" where
  "scripted_http replies url agent n = (replies n, Suc n)"

text \<open>
  Fetching never returns an empty list.  When the first request fails and the second succeeds
  with usable nodes, the second answer is returned after exactly two requests; when both fail, the
  built-in nodes are.
\<close>

lemma fetch_retries_once:
  "fst (fetch_from js http p url w) \<noteq> []
 \<and> (http_text (replies 0) = None \<longrightarrow> http_text (replies 1) = None \<longrightarrow>
      fetch_from js (scripted_http replies) p url 0 = (default_nodes, 2))
 \<and> (http_text (replies 0) = None \<longrightarrow> http_text (replies 1) = Some json \<longrightarrow>
      parse_nodes js json (preferred_region p) = Some nodes \<longrightarrow> nodes \<noteq> [] \<longrightarrow>
      (\<forall>n \<in> set nodes. \<not> is_http_url n) \<longrightarrow>
      fetch_from js (scripted_http replies) p url 0 = (nodes, 2))"
proof (intro conjI impI)
  show "fst (fetch_from js http p url w) \<noteq> []" by (rule fetch_from_nonempty)
qed (simp_all add: fetch_from_def fetch_nodes_def scripted_http_def resolve_all_plain)

text \<open>
  A node address that answers over HTTP is asked at most twice; it is replaced by the trimmed
  text of the first usable answer and dropped when there is none.
\<close>

lemma http_node_resolution:
  "resolve_http_node (scripted_http replies) p node_url 0 =
     (case http_text (replies 0) of
        Some body \<Rightarrow>
          if trim body \<noteq> [] then (Some (trim body), 1)
          else (case http_text (replies 1) of
                  Some body' \<Rightarrow> (if trim body' \<noteq> [] then Some (trim body') else None, 2)
                | None \<Rightarrow> (None, 2))
      | None \<Rightarrow>
          (case http_text (replies 1) of
             Some body' \<Rightarrow> (if trim body' \<noteq> [] then Some (trim body') else None, 2)
           | None \<Rightarrow> (None, 2)))"
  by (simp add: resolve_http_node_def numeral_2_eq_2 resolve_http_node_once_def scripted_http_def
      Let_def split: option.split)

end
