(* ===== verification/Easy_Tier.thy ===== *)
theory Easy_Tier
  imports Net_Addr Relay
begin

text \<open>
  The manager of the EasyTier instance (\<open>easytier/manager.rs\<close>).  The EasyTier library, its clock and
  the parsers of the crates \<open>cidr\<close> and \<open>url\<close> are fields of a record that the operations take as an
  argument; \<open>'m\<close> is the state of the library with all its instances.
\<close>

section \<open>The library\<close>

datatype 'v port_forward_config = Port_forward (pf_bind: "'v socket_addr") (pf_dst: "'v socket_addr") (pf_proto: string)

text \<open>What is set on a \<open>TomlConfig\<close>; \<open>None\<close> where the default is left in place.\<close>

record ('i, 'u, 'v) toml_config =
  tc_network_name :: string
  tc_network_secret :: string
  tc_hostname :: string
  tc_ipv4 :: "'i option"
  tc_dhcp :: "bool option"
  tc_listeners :: "'u list option"
  tc_no_tun :: bool
  tc_use_smoltcp :: bool
  tc_multi_thread :: bool
  tc_latency_first :: bool
  tc_enable_kcp_proxy :: bool
  tc_compress_zstd :: bool
  tc_tcp_whitelist :: "string list"
  tc_udp_whitelist :: "string list"
  tc_peers :: "'u list"
  tc_port_forwards :: "'v port_forward_config list"

text \<open>A route of the peer table: the address as its four bytes if it has one.\<close>

record route =
  rt_ipv4 :: "u32 option"
  rt_hostname :: string
  rt_peer_id :: nat

text \<open>
  The library: parsers, running and deleting instances, looking at an instance, changing it, and the
  passage of time while a task sleeps.
\<close>

record ('m, 'i, 'u, 'v) easytier_lib =
  lib_parse_inet :: "string \<Rightarrow> 'i option"
  lib_parse_url :: "string \<Rightarrow> 'u option"
  lib_parse_v6 :: "string \<Rightarrow> 'v option"
  lib_parse_peer :: "string \<Rightarrow> string + nat"
  lib_run :: "('i, 'u, 'v) toml_config \<Rightarrow> 'm \<Rightarrow> (string + nat) \<times> 'm"
  lib_delete :: "nat \<Rightarrow> 'm \<Rightarrow> (string + unit) \<times> 'm"
  lib_instance :: "nat \<Rightarrow> 'm \<Rightarrow> bool"
  lib_ready :: "nat \<Rightarrow> 'm \<Rightarrow> bool"
  lib_peer_id :: "nat \<Rightarrow> 'm \<Rightarrow> nat"
  lib_ipv4 :: "nat \<Rightarrow> 'm \<Rightarrow> string option"
  lib_routes :: "nat \<Rightarrow> 'm \<Rightarrow> route list"
  lib_disconnect :: "nat \<Rightarrow> nat \<Rightarrow> 'm \<Rightarrow> (string + unit) \<times> 'm"
  lib_deny :: "nat \<Rightarrow> nat \<Rightarrow> 'm \<Rightarrow> (string + unit) \<times> 'm"
  lib_allow :: "nat \<Rightarrow> nat \<Rightarrow> 'm \<Rightarrow> 'm"
  lib_patch :: "nat \<Rightarrow> 'v socket_addr \<times> 'v socket_addr \<Rightarrow> 'm \<Rightarrow> (string + unit) \<times> 'm"
  lib_sleep :: "nat \<Rightarrow> 'm \<Rightarrow> 'm"
  lib_now :: "'m \<Rightarrow> nat"

text \<open>Documented behaviour of the clock: after sleeping at least the time asked for has passed.\<close>

definition clock_advances :: "('m, 'i, 'u, 'v) easytier_lib \<Rightarrow> bool" where
  "clock_advances lib \<longleftrightarrow> (\<forall>d m. lib_now lib m + d \<le> lib_now lib (lib_sleep lib d m))"

section \<open>Configuration\<close>

definition parse_port_forward :: "(string \<Rightarrow> 'v option) \<Rightarrow> string \<Rightarrow> 'v port_forward_config res" where
  "parse_port_forward v6 raw_rule =
     rbind (ok_or (EasyTierStart (msg_bad_forward @ raw_rule)) (split_once_str ''://'' raw_rule)) (\<lambda>(proto, rest).
     rbind (ok_or (EasyTierStart (msg_bad_forward @ raw_rule)) (split_once CHR ''/'' rest)) (\<lambda>(bind, dst).
     rbind (ok_or (EasyTierStart (msg_bad_bind @ bind)) (parse_socket_addr v6 bind)) (\<lambda>bind_addr.
     rbind (ok_or (EasyTierStart (msg_bad_dst @ dst)) (parse_socket_addr v6 dst)) (\<lambda>dst_addr.
       Inr (Port_forward bind_addr dst_addr proto)))))"

definition strip_cidr :: "string \<Rightarrow> string" where
  "strip_cidr ip = (case split_once CHR ''/'' ip of None \<Rightarrow> ip | Some (addr, _) \<Rightarrow> addr)"

definition startup_timeout :: nat where "startup_timeout = 30000"

definition poll_interval :: nat where "poll_interval = 500"

definition startup_buffer :: nat where "startup_buffer = 2000"

definition fixed_ipv4_prefix :: nat where "fixed_ipv4_prefix = 24"

text \<open>\<open>collect::<Result<Vec<_>, _>>\<close>: the first error, or all values.\<close>

fun collect_res :: "('a \<Rightarrow> 'e + 'b) \<Rightarrow> 'a list \<Rightarrow> 'e + 'b list" where
  "collect_res f [] = Inr []"
| "collect_res f (x # xs) = rbind (f x) (\<lambda>y. rbind (collect_res f xs) (\<lambda>ys. Inr (y # ys)))"

definition ipv4_setting ::
  "('m, 'i, 'u, 'v) easytier_lib \<Rightarrow> network_config \<Rightarrow> ('i option \<times> bool option) res" where
  "ipv4_setting lib config =
     (case ipv4 config of
        Some ip \<Rightarrow>
          (let with_prefix = (if CHR ''/'' \<in> set ip then ip else ip @ ''/'' @ show_nat fixed_ipv4_prefix)
           in rbind (ok_or (EasyTierStart (msg_bad_ipv4 @ ip)) (lib_parse_inet lib with_prefix))
                (\<lambda>addr. Inr (Some addr, None)))
      | None \<Rightarrow> Inr (None, Some (dhcp config)))"

definition listener_setting ::
  "('m, 'i, 'u, 'v) easytier_lib \<Rightarrow> network_config \<Rightarrow> 'u list option res" where
  "listener_setting lib config =
     (if listen_random_ports config
      then let bind = unwrap_or ''0.0.0.0'' (bind_ip config)
           in rbind (collect_res
                (\<lambda>uri. ok_or (EasyTierStart (msg_bad_listen @ uri)) (lib_parse_url lib uri))
                [''tcp://'' @ bind @ '':0'', ''udp://'' @ bind @ '':0''])
                (\<lambda>listeners. Inr (Some listeners))
      else Inr None)"

definition build_toml_config ::
  "('m, 'i, 'u, 'v) easytier_lib \<Rightarrow> network_config \<Rightarrow> ('i, 'u, 'v) toml_config res" where
  "build_toml_config lib config =
     rbind (ipv4_setting lib config) (\<lambda>(addr, use_dhcp).
     rbind (listener_setting lib config) (\<lambda>listeners.
     rbind (collect_res
              (\<lambda>node. ok_or (EasyTierStart (msg_bad_relay @ node)) (lib_parse_url lib node))
              (case relay_nodes config of Some nodes \<Rightarrow> nodes | None \<Rightarrow> resolve None None)) (\<lambda>peers.
     rbind (collect_res (parse_port_forward (lib_parse_v6 lib)) (port_forwards config)) (\<lambda>forwards.
       Inr \<lparr> tc_network_name = network_name config, tc_network_secret = network_secret config,
             tc_hostname = nc_hostname config, tc_ipv4 = addr, tc_dhcp = use_dhcp,
             tc_listeners = listeners, tc_no_tun = no_tun config, tc_use_smoltcp = use_smoltcp config,
             tc_multi_thread = True, tc_latency_first = True, tc_enable_kcp_proxy = True,
             tc_compress_zstd = True, tc_tcp_whitelist = ''0'' # tcp_whitelist config,
             tc_udp_whitelist = [''0''], tc_peers = peers, tc_port_forwards = forwards \<rparr>))))"

section \<open>The manager\<close>

record easy_tier_manager =
  instance_id :: "nat option"
  virtual_ip :: "string option"
  mgr_node_id :: "string option"

definition new_manager :: easy_tier_manager where
  "new_manager = \<lparr> instance_id = None, virtual_ip = None, mgr_node_id = None \<rparr>"

definition is_running :: "('m, 'i, 'u, 'v) easytier_lib \<Rightarrow> easy_tier_manager \<Rightarrow> 'm \<Rightarrow> bool" where
  "is_running lib mgr m =
     (case instance_id mgr of
        Some i \<Rightarrow> lib_instance lib i m \<and> lib_ready lib i m
      | None \<Rightarrow> False)"

text \<open>The polling loop of \<open>start\<close>: whether the instance got ready before the deadline.\<close>

partial_function (option) wait_ready ::
  "('m, 'i, 'u, 'v) easytier_lib \<Rightarrow> easy_tier_manager \<Rightarrow> nat \<Rightarrow> 'm \<Rightarrow> (bool \<times> 'm) option" where
  "wait_ready lib mgr deadline m =
     (if is_running lib mgr m then Some (True, m)
      else if deadline \<le> lib_now lib m then Some (False, m)
      else wait_ready lib mgr deadline (lib_sleep lib poll_interval m))"

text \<open>What \<open>start\<close> caches once the instance is ready.\<close>

definition cache_instance ::
  "('m, 'i, 'u, 'v) easytier_lib \<Rightarrow> network_config \<Rightarrow> nat \<Rightarrow> 'm \<Rightarrow> easy_tier_manager \<Rightarrow> easy_tier_manager" where
  "cache_instance lib config i m mgr =
     (if lib_instance lib i m
      then mgr\<lparr> mgr_node_id := Some (show_nat (lib_peer_id lib i m)),
                virtual_ip := (case ipv4 config of
                    Some ip \<Rightarrow> Some (strip_cidr ip)
                  | None \<Rightarrow> (case lib_ipv4 lib i m of Some addr \<Rightarrow> Some addr | None \<Rightarrow> virtual_ip mgr)) \<rparr>
      else mgr)"

text \<open>\<open>start\<close>: \<open>None\<close> if the polling loop never ended.\<close>

definition start ::
  "('m, 'i, 'u, 'v) easytier_lib \<Rightarrow> network_config \<Rightarrow> easy_tier_manager \<Rightarrow> 'm
     \<Rightarrow> (unit res \<times> easy_tier_manager \<times> 'm) option" where
  "start lib config mgr m =
     (if is_running lib mgr m then Some (Inl (EasyTierStart msg_et_running), mgr, m)
      else
        let mgr = mgr\<lparr> virtual_ip := None, mgr_node_id := None \<rparr>
        in case build_toml_config lib config of
             Inl e \<Rightarrow> Some (Inl e, mgr, m)
           | Inr cfg \<Rightarrow>
               (case lib_run lib cfg m of
                  (Inl err, m) \<Rightarrow> Some (Inl (EasyTierStart (msg_et_start_failed @ err)), mgr, m)
                | (Inr i, m) \<Rightarrow>
                    let mgr = mgr\<lparr> instance_id := Some i \<rparr>
                    in Option.bind (wait_ready lib mgr (lib_now lib m + startup_timeout) m)
                         (\<lambda>(ready, m).
                            if \<not> ready then Some (Inl (EasyTierTimeout msg_et_timeout), mgr, m)
                            else let m = lib_sleep lib startup_buffer m
                                 in Some (Inr (), cache_instance lib config i m mgr, m))))"

definition stop ::
  "('m, 'i, 'u, 'v) easytier_lib \<Rightarrow> easy_tier_manager \<Rightarrow> 'm \<Rightarrow> unit res \<times> easy_tier_manager \<times> 'm" where
  "stop lib mgr m =
     (Inr (), new_manager,
      (case instance_id mgr of Some i \<Rightarrow> snd (lib_delete lib i m) | None \<Rightarrow> m))"

definition ipv4_of_u32 :: "u32 \<Rightarrow> ipv4_addr" where
  "ipv4_of_u32 w =
     Ipv4 (be32 w ! 0) (be32 w ! 1) (be32 w ! 2) (be32 w ! 3)"

definition route_to_node :: "route \<Rightarrow> easy_tier_node" where
  "route_to_node r =
     \<lparr> node_virtual_ip = (case rt_ipv4 r of Some a \<Rightarrow> show_ipv4 (ipv4_of_u32 a) | None \<Rightarrow> []),
       node_hostname = rt_hostname r, node_node_id = show_nat (rt_peer_id r) \<rparr>"

definition get_nodes :: "('m, 'i, 'u, 'v) easytier_lib \<Rightarrow> easy_tier_manager \<Rightarrow> 'm \<Rightarrow> easy_tier_node list" where
  "get_nodes lib mgr m =
     (case instance_id mgr of
        None \<Rightarrow> []
      | Some i \<Rightarrow> if lib_instance lib i m then map route_to_node (lib_routes lib i m) else [])"

definition peer_error :: "string \<Rightarrow> string \<Rightarrow> scaffolding_error" where
  "peer_error peer e = EasyTierStart (msg_bad_peer_id @ peer @ '': '' @ e)"

text \<open>The common shape of the three peer operations: nothing to do without an instance.\<close>

definition with_peer ::
  "('m, 'i, 'u, 'v) easytier_lib \<Rightarrow> easy_tier_manager \<Rightarrow> string
     \<Rightarrow> (nat \<Rightarrow> nat \<Rightarrow> 'm \<Rightarrow> unit res \<times> 'm) \<Rightarrow> 'm \<Rightarrow> unit res \<times> 'm" where
  "with_peer lib mgr peer act m =
     (case instance_id mgr of
        None \<Rightarrow> (Inr (), m)
      | Some i \<Rightarrow>
          if \<not> lib_instance lib i m then (Inr (), m)
          else (case lib_parse_peer lib peer of
                  Inl e \<Rightarrow> (Inl (peer_error peer e), m)
                | Inr p \<Rightarrow> act i p m))"

definition disconnect_peer ::
  "('m, 'i, 'u, 'v) easytier_lib \<Rightarrow> easy_tier_manager \<Rightarrow> string \<Rightarrow> 'm \<Rightarrow> unit res \<times> 'm" where
  "disconnect_peer lib mgr peer m =
     with_peer lib mgr peer
       (\<lambda>i p m. apfst (map_err (\<lambda>e. EasyTierStart (msg_disconnect_failed @ e))) (lib_disconnect lib i p m)) m"

definition deny_peer ::
  "('m, 'i, 'u, 'v) easytier_lib \<Rightarrow> easy_tier_manager \<Rightarrow> string \<Rightarrow> 'm \<Rightarrow> unit res \<times> 'm" where
  "deny_peer lib mgr peer m =
     with_peer lib mgr peer
       (\<lambda>i p m. apfst (map_err (\<lambda>e. EasyTierStart (msg_deny_failed @ e))) (lib_deny lib i p m)) m"

definition allow_peer ::
  "('m, 'i, 'u, 'v) easytier_lib \<Rightarrow> easy_tier_manager \<Rightarrow> string \<Rightarrow> 'm \<Rightarrow> unit res \<times> 'm" where
  "allow_peer lib mgr peer m =
     with_peer lib mgr peer (\<lambda>i p m. (Inr (), lib_allow lib i p m)) m"

definition apply_config_patch ::
  "('m, 'i, 'u, 'v) easytier_lib \<Rightarrow> easy_tier_manager \<Rightarrow> 'v socket_addr \<times> 'v socket_addr \<Rightarrow> 'm \<Rightarrow> unit res \<times> 'm" where
  "apply_config_patch lib mgr patch m =
     (case instance_id mgr of
        None \<Rightarrow> (Inl (EasyTierStart msg_et_not_started), m)
      | Some i \<Rightarrow>
          if \<not> lib_instance lib i m then (Inl (EasyTierStart msg_no_instance), m)
          else apfst (map_err (\<lambda>e. EasyTierStart (msg_patch_failed @ e))) (lib_patch lib i patch m))"

section \<open>Lemmas\<close>

lemma collect_res_Inr:
  "collect_res f xs = Inr ys \<longleftrightarrow> length ys = length xs \<and> (\<forall>i < length xs. f (xs ! i) = Inr (ys ! i))"
proof (induction xs arbitrary: ys)
  case Nil
  then show ?case by auto
next
  case (Cons x xs)
  show ?case
  proof (cases ys)
    case Nil
    then show ?thesis by (auto simp: rbind_eq_Inr)
  next
    case (Cons y zs)
    have "(\<forall>i < Suc (length xs). f ((x # xs) ! i) = Inr ((y # zs) ! i))
        \<longleftrightarrow> f x = Inr y \<and> (\<forall>i < length xs. f (xs ! i) = Inr (zs ! i))"
      by (auto simp: less_Suc_eq_0_disj)
    with Cons Cons.IH [of zs] show ?thesis by (auto simp: rbind_eq_Inr)
  qed
qed

lemma collect_res_ok: "is_ok (collect_res f xs) \<longleftrightarrow> (\<forall>x \<in> set xs. is_ok (f x))"
proof (induction xs)
  case (Cons x xs)
  then show ?case by (cases "f x"; cases "collect_res f xs") auto
qed simp

lemma ok_or_Inl: "ok_or e r = Inl e' \<Longrightarrow> e' = e"
  by (cases r) auto

lemma parse_port_forward_error: "parse_port_forward v6 rule = Inl e \<Longrightarrow> \<exists>msg. e = EasyTierStart msg"
  by (auto simp: parse_port_forward_def rbind_eq_Inl dest!: ok_or_Inl)

text \<open>The error of a collection is the error of one of its elements.\<close>

lemma collect_res_Inl: "collect_res f xs = Inl e \<Longrightarrow> \<exists>x \<in> set xs. f x = Inl e"
  by (induction xs) (auto simp: rbind_eq_Inl)

lemma build_toml_config_error: "build_toml_config lib config = Inl e \<Longrightarrow> \<exists>msg. e = EasyTierStart msg"
  by (auto simp: build_toml_config_def ipv4_setting_def listener_setting_def rbind_eq_Inl Let_def
      split: option.splits if_splits prod.splits
      dest!: ok_or_Inl collect_res_Inl parse_port_forward_error)

lemma rbind_ok: "is_ok (rbind r f) \<longleftrightarrow> (\<exists>a. r = Inr a \<and> is_ok (f a))"
  by (cases r) auto

lemma rbind_ok_pair: "is_ok (rbind r (\<lambda>a. rbind q (\<lambda>b. Inr (g a b)))) \<longleftrightarrow> is_ok r \<and> is_ok q"
  by (cases r; cases q) auto

lemma ok_or_ok [simp]: "is_ok (ok_or e r) \<longleftrightarrow> r \<noteq> None"
  by (cases r) auto

lemma wait_ready_returns:
  assumes "clock_advances lib"
  shows "\<exists>r. wait_ready lib mgr deadline m = Some r"
proof (induction "deadline - lib_now lib m" arbitrary: m rule: less_induct)
  case less
  show ?case
  proof (cases "is_running lib mgr m \<or> deadline \<le> lib_now lib m")
    case True
    then show ?thesis by (subst wait_ready.simps) auto
  next
    case False
    have "lib_now lib m + poll_interval \<le> lib_now lib (lib_sleep lib poll_interval m)"
      using assms by (simp add: clock_advances_def)
    with False have "deadline - lib_now lib (lib_sleep lib poll_interval m) < deadline - lib_now lib m"
      unfolding poll_interval_def by linarith
    from less [OF this] False show ?thesis by (subst wait_ready.simps) auto
  qed
qed

text \<open>When it returns, the instance was ready, or the deadline had passed and it was not.\<close>

lemma wait_ready_result:
  assumes "wait_ready lib mgr deadline m = Some (ready, m')"
  shows "ready = is_running lib mgr m' \<and> (\<not> ready \<longrightarrow> deadline \<le> lib_now lib m')"
proof -
  have "case r of (ready, m') \<Rightarrow> ready = is_running lib mgr m' \<and> (\<not> ready \<longrightarrow> deadline \<le> lib_now lib m')"
    if ret: "wait_ready lib mgr deadline m = Some r" for r
  proof (rule wait_ready.raw_induct [where P = "\<lambda>lib mgr deadline m r. case r of (ready, m') \<Rightarrow>
        ready = is_running lib mgr m' \<and> (\<not> ready \<longrightarrow> deadline \<le> lib_now lib m')", OF _ ret])
  qed (auto split: if_splits)
  from this [OF assms] show ?thesis by simp
qed

lemma split_scheme:
  "CHR '':'' \<notin> set proto \<Longrightarrow> split_once_str ''://'' (proto @ ''://'' @ rest) = Some (proto, rest)"
  by (rule split_once_str_append) (auto simp: contains_iff)

lemma parse_port_forward_show:
  assumes "CHR '':'' \<notin> set proto"
  shows "parse_port_forward v6
      (proto @ ''://'' @ (show_ipv4 ip1 @ '':'' @ show_nat (unat p1)) @ ''/''
         @ show_ipv4 ip2 @ '':'' @ show_nat (unat p2))
    = Inr (Port_forward (V4 ip1 p1) (V4 ip2 p2) proto)"
proof -
  have "split_once CHR ''/'' ((show_ipv4 ip1 @ '':'' @ show_nat (unat p1)) @ ''/''
         @ show_ipv4 ip2 @ '':'' @ show_nat (unat p2))
      = Some (show_ipv4 ip1 @ '':'' @ show_nat (unat p1), show_ipv4 ip2 @ '':'' @ show_nat (unat p2))"
    unfolding append_Cons append_Nil by (rule split_once_append) simp
  then show ?thesis
    unfolding parse_port_forward_def split_scheme [OF assms] by simp
qed

text \<open>Starting returns, and what it leaves in the manager.\<close>

lemma start_outcome:
  assumes "clock_advances lib"
  shows "\<exists>r mgr' m'. start lib config mgr m = Some (r, mgr', m')
    \<and> (case r of
         Inr _ \<Rightarrow> instance_id mgr' \<noteq> None
       | Inl (EasyTierTimeout _) \<Rightarrow>
           instance_id mgr' \<noteq> None \<and> virtual_ip mgr' = None \<and> mgr_node_id mgr' = None
       | Inl e \<Rightarrow> instance_id mgr' = instance_id mgr)"
proof (cases "is_running lib mgr m")
  case True
  then show ?thesis by (simp add: start_def)
next
  case False
  let ?mgr = "mgr\<lparr>virtual_ip := None, mgr_node_id := None\<rparr>"
  show ?thesis
  proof (cases "build_toml_config lib config")
    case (Inl e)
    then obtain msg where "e = EasyTierStart msg" using build_toml_config_error by blast
    with Inl False show ?thesis by (simp add: start_def)
  next
    case (Inr cfg)
    obtain r1 m1 where run: "lib_run lib cfg m = (r1, m1)" by fastforce
    show ?thesis
    proof (cases r1)
      case (Inl err)
      with Inr False run show ?thesis by (simp add: start_def Let_def)
    next
      case (Inr i)
      obtain ready m2 where
        "wait_ready lib (?mgr\<lparr>instance_id := Some i\<rparr>) (lib_now lib m1 + startup_timeout) m1 = Some (ready, m2)"
        using wait_ready_returns [OF assms] by (metis surj_pair)
      with Inr \<open>build_toml_config lib config = Inr cfg\<close> False run show ?thesis
        by (cases ready) (simp_all add: start_def Let_def cache_instance_def)
    qed
  qed
qed

section \<open>Properties\<close>

text \<open>
  A library for the concrete instances: every address parses, instances get consecutive numbers and
  run until they are deleted, and all of them are ready or none is.
\<close>

record sample_net =
  sn_running :: "nat list"
  sn_next :: nat
  sn_clock :: nat

definition sample_lib :: "bool \<Rightarrow> (sample_net, string, string, string) easytier_lib" where
  "sample_lib ready =
     \<lparr> lib_parse_inet = Some, lib_parse_url = Some, lib_parse_v6 = (\<lambda>_. None),
       lib_parse_peer = (\<lambda>s. case parse_uint (2 ^ 32 - 1) s of Some n \<Rightarrow> Inr n | None \<Rightarrow> Inl []),
       lib_run = (\<lambda>_ m. (Inr (sn_next m),
                         m\<lparr>sn_running := sn_next m # sn_running m, sn_next := Suc (sn_next m)\<rparr>)),
       lib_delete = (\<lambda>i m. (Inr (), m\<lparr>sn_running := removeAll i (sn_running m)\<rparr>)),
       lib_instance = (\<lambda>i m. i \<in> set (sn_running m)),
       lib_ready = (\<lambda>_ _. ready), lib_peer_id = (\<lambda>i _. i), lib_ipv4 = (\<lambda>_ _. None),
       lib_routes = (\<lambda>_ _. []), lib_disconnect = (\<lambda>_ _ m. (Inr (), m)),
       lib_deny = (\<lambda>_ _ m. (Inr (), m)), lib_allow = (\<lambda>_ _ m. m),
       lib_patch = (\<lambda>_ _ m. (Inr (), m)),
       lib_sleep = (\<lambda>d m. m\<lparr>sn_clock := sn_clock m + d\<rparr>), lib_now = sn_clock \<rparr>"

lemma sample_lib_clock: "clock_advances (sample_lib ready)"
  by (simp add: clock_advances_def sample_lib_def)

text \<open>Which configurations are accepted, part by part.\<close>

lemma config_accepted:
  "(is_ok (build_toml_config lib config) \<longleftrightarrow>
      (\<forall>ip. ipv4 config = Some ip \<longrightarrow>
         lib_parse_inet lib (if CHR ''/'' \<in> set ip then ip else ip @ ''/24'') \<noteq> None)
    \<and> (listen_random_ports config \<longrightarrow>
         (let bind = unwrap_or ''0.0.0.0'' (bind_ip config)
          in lib_parse_url lib (''tcp://'' @ bind @ '':0'') \<noteq> None
           \<and> lib_parse_url lib (''udp://'' @ bind @ '':0'') \<noteq> None))
    \<and> (\<forall>node \<in> set (unwrap_or default_node_list (relay_nodes config)). lib_parse_url lib node \<noteq> None)
    \<and> (\<forall>rule \<in> set (port_forwards config). is_ok (parse_port_forward (lib_parse_v6 lib) rule)))
 \<and> (\<forall>e. build_toml_config lib config = Inl e \<longrightarrow> (\<exists>msg. e = EasyTierStart msg))"
proof -
  have prefix: "show_nat fixed_ipv4_prefix = ''24''" by code_simp
  have ip: "is_ok (ipv4_setting lib config) \<longleftrightarrow> (\<forall>ip. ipv4 config = Some ip \<longrightarrow>
      lib_parse_inet lib (if CHR ''/'' \<in> set ip then ip else ip @ ''/24'') \<noteq> None)"
    by (cases "ipv4 config") (auto simp: ipv4_setting_def prefix Let_def rbind_ok)
  have listen: "is_ok (listener_setting lib config) \<longleftrightarrow> (listen_random_ports config \<longrightarrow>
      (let bind = unwrap_or ''0.0.0.0'' (bind_ip config)
       in lib_parse_url lib (''tcp://'' @ bind @ '':0'') \<noteq> None
        \<and> lib_parse_url lib (''udp://'' @ bind @ '':0'') \<noteq> None))"
    by (cases "lib_parse_url lib (''tcp://'' @ unwrap_or ''0.0.0.0'' (bind_ip config) @ '':0'')";
        cases "lib_parse_url lib (''udp://'' @ unwrap_or ''0.0.0.0'' (bind_ip config) @ '':0'')")
      (simp_all add: listener_setting_def Let_def)
  have nodes: "(case relay_nodes config of Some nodes \<Rightarrow> nodes | None \<Rightarrow> resolve None None)
      = unwrap_or default_node_list (relay_nodes config)"
    by (simp add: resolve_def split: option.split)
  have "is_ok (build_toml_config lib config) \<longleftrightarrow>
      is_ok (ipv4_setting lib config) \<and> is_ok (listener_setting lib config)
    \<and> (\<forall>node \<in> set (unwrap_or default_node_list (relay_nodes config)). lib_parse_url lib node \<noteq> None)
    \<and> (\<forall>rule \<in> set (port_forwards config). is_ok (parse_port_forward (lib_parse_v6 lib) rule))"
    by (cases "ipv4_setting lib config"; cases "listener_setting lib config")
      (auto simp: build_toml_config_def nodes rbind_ok_pair collect_res_ok split: prod.split)
  with ip listen build_toml_config_error show ?thesis by blast
qed

lemma sample_config_ok: "port_forwards config = [] \<Longrightarrow> is_ok (build_toml_config (sample_lib b) config)"
  by (simp add: config_accepted sample_lib_def Let_def)

text \<open>With the ready library an accepted configuration starts.\<close>

lemma sample_lib_sel [simp]:
  "lib_run (sample_lib b) c m =
     (Inr (sn_next m), m\<lparr>sn_running := sn_next m # sn_running m, sn_next := Suc (sn_next m)\<rparr>)"
  "lib_instance (sample_lib b) i m \<longleftrightarrow> i \<in> set (sn_running m)"
  "lib_ready (sample_lib b) i m = b"
  by (simp_all add: sample_lib_def)

lemma sample_start:
  assumes "is_ok (build_toml_config (sample_lib True) config)" and "instance_id mgr = None"
  shows "\<exists>mgr' m'. start (sample_lib True) config mgr m = Some (Inr (), mgr', m')"
proof -
  obtain c where "build_toml_config (sample_lib True) config = Inr c" using assms(1) by (auto simp: is_ok_iff)
  with assms(2) show ?thesis
    by (simp add: start_def is_running_def Let_def wait_ready.simps [of "sample_lib True"])
qed

text \<open>
  A configuration is accepted exactly when its fixed address, its two listener addresses (when it
  listens), its relay nodes and its port forwards all parse, and every rejection is the start error.
\<close>

lemma config_accepted_iff_parts_parse:
  "(is_ok (build_toml_config lib config) \<longleftrightarrow>
      (\<forall>ip. ipv4 config = Some ip \<longrightarrow>
         lib_parse_inet lib (if CHR ''/'' \<in> set ip then ip else ip @ ''/24'') \<noteq> None)
    \<and> (listen_random_ports config \<longrightarrow>
         (let bind = unwrap_or ''0.0.0.0'' (bind_ip config)
          in lib_parse_url lib (''tcp://'' @ bind @ '':0'') \<noteq> None
           \<and> lib_parse_url lib (''udp://'' @ bind @ '':0'') \<noteq> None))
    \<and> (\<forall>node \<in> set (unwrap_or default_node_list (relay_nodes config)). lib_parse_url lib node \<noteq> None)
    \<and> (\<forall>rule \<in> set (port_forwards config). is_ok (parse_port_forward (lib_parse_v6 lib) rule)))
 \<and> (\<forall>e. build_toml_config lib config = Inl e \<longrightarrow> (\<exists>msg. e = EasyTierStart msg))"
  by (rule config_accepted)

lemma stuck_wait:
  assumes "wait_ready (sample_lib False) mgr deadline m = Some (ready, m')"
  shows "\<not> ready \<and> sn_running m' = sn_running m \<and> sn_next m' = sn_next m"
proof -
  have "case r of (ready, m') \<Rightarrow> lib = sample_lib False \<longrightarrow>
      \<not> ready \<and> sn_running m' = sn_running m \<and> sn_next m' = sn_next m"
    if ret: "wait_ready lib mgr deadline m = Some r" for r and lib :: "(sample_net, string, string, string) easytier_lib"
  proof (rule wait_ready.raw_induct [where P = "\<lambda>lib mgr deadline m r. case r of (ready, m') \<Rightarrow>
        lib = sample_lib False \<longrightarrow> \<not> ready \<and> sn_running m' = sn_running m \<and> sn_next m' = sn_next m", OF _ ret])
    fix wr mgr deadline m r
    fix lib :: "(sample_net, string, string, string) easytier_lib"
    assume IH: "\<And>lib mgr deadline m r. wr lib mgr deadline m = Some r \<Longrightarrow> case r of (ready, m') \<Rightarrow>
        lib = sample_lib False \<longrightarrow> \<not> ready \<and> sn_running m' = sn_running m \<and> sn_next m' = sn_next m"
      and eq: "(if is_running lib mgr m then Some (True, m)
          else if deadline \<le> lib_now lib m then Some (False, m)
          else wr lib mgr deadline (lib_sleep lib poll_interval m)) = Some r"
    have "\<not> is_running (sample_lib False) mgr m"
      by (simp add: is_running_def sample_lib_def split: option.split)
    moreover have "sn_running (lib_sleep (sample_lib False) poll_interval m) = sn_running m"
      "sn_next (lib_sleep (sample_lib False) poll_interval m) = sn_next m"
      by (simp_all add: sample_lib_def)
    ultimately show "case r of (ready, m') \<Rightarrow> lib = sample_lib False \<longrightarrow>
        \<not> ready \<and> sn_running m' = sn_running m \<and> sn_next m' = sn_next m"
      using eq IH [of lib mgr deadline "lib_sleep lib poll_interval m" r] by (auto split: if_splits)
  qed
  from this [OF assms] show ?thesis by simp
qed

text \<open>
  Starting again after a start that timed out forgets the first instance: a manager that is
  started twice on instances that do not get ready and is then stopped leaves the first one running.
\<close>

lemma restart_after_timeout_leaks:
  "\<exists>mgr1 m1 mgr2 m2. start (sample_lib False) default_network_config new_manager
        \<lparr>sn_running = [], sn_next = 0, sn_clock = 0\<rparr> = Some (Inl (EasyTierTimeout msg_et_timeout), mgr1, m1)
    \<and> start (sample_lib False) default_network_config mgr1 m1
        = Some (Inl (EasyTierTimeout msg_et_timeout), mgr2, m2)
    \<and> stop (sample_lib False) mgr2 m2 = (Inr (), new_manager, m2\<lparr>sn_running := [0]\<rparr>)"
proof -
  have cfg: "is_ok (build_toml_config (sample_lib False) default_network_config)"
    by (simp add: config_accepted sample_lib_def default_network_config_def Let_def)
  have one: "\<exists>mgr' m'. start (sample_lib False) default_network_config mgr m
        = Some (Inl (EasyTierTimeout msg_et_timeout), mgr', m')
      \<and> instance_id mgr' = Some (sn_next m) \<and> sn_running m' = sn_next m # sn_running m
      \<and> sn_next m' = Suc (sn_next m)" for mgr m
  proof -
    let ?mgr = "mgr\<lparr>virtual_ip := None, mgr_node_id := None, instance_id := Some (sn_next m)\<rparr>"
    let ?m = "m\<lparr>sn_running := sn_next m # sn_running m, sn_next := Suc (sn_next m)\<rparr>"
    obtain ready m' where w: "wait_ready (sample_lib False) ?mgr
        (lib_now (sample_lib False) ?m + startup_timeout) ?m = Some (ready, m')"
      using wait_ready_returns [OF sample_lib_clock] by (metis surj_pair)
    obtain c where c: "build_toml_config (sample_lib False) default_network_config = Inr c"
      using cfg by (auto simp: is_ok_iff)
    have "lib_run (sample_lib False) c m = (Inr (sn_next m), ?m)" and "\<not> is_running (sample_lib False) mgr m"
      by (simp_all add: sample_lib_def is_running_def split: option.split)
    with stuck_wait [OF w] w c show ?thesis by (simp add: start_def Let_def)
  qed
  let ?m0 = "\<lparr>sn_running = [], sn_next = 0, sn_clock = 0\<rparr>"
  obtain mgr1 m1 where 1: "start (sample_lib False) default_network_config new_manager ?m0
        = Some (Inl (EasyTierTimeout msg_et_timeout), mgr1, m1)"
      "sn_running m1 = [0]" "sn_next m1 = 1"
    using one [of new_manager ?m0] by auto
  obtain mgr2 m2 where 2: "start (sample_lib False) default_network_config mgr1 m1
        = Some (Inl (EasyTierTimeout msg_et_timeout), mgr2, m2)"
      "instance_id mgr2 = Some 1" "sn_running m2 = [1, 0]"
    using one [of mgr1 m1] 1 by auto
  have "stop (sample_lib False) mgr2 m2 = (Inr (), new_manager, m2\<lparr>sn_running := [0]\<rparr>)"
    using 2 by (simp add: stop_def sample_lib_def)
  with 1 2 show ?thesis by blast
qed

end
