(* ===== verification/Tcp_Client.thy ===== *)
theory Tcp_Client
  imports Frame_Codec
begin

text \<open>
  The TCP client of the guest (\<open>guest/tcp_client.rs\<close>): one connection, one request at a time, and a
  limit of 15 s on reading a response.  The network is a record of functions over a state of type
  \<open>'w\<close>, an argument of the operations.
\<close>

section \<open>The network\<close>

text \<open>
  Connecting yields a stream, an error, or nothing before the caller gives up.  \<open>net_write\<close> is
  \<open>write_all\<close> and \<open>flush\<close>.  \<open>net_arrive\<close> gives the bytes that arrive while a response is awaited
  for at most the given time, and how the stream ended if it did.
\<close>

datatype connect_outcome = Connected nat | Refused string | Pending

record 'w tcp_net =
  net_connect :: "string \<Rightarrow> u16 \<Rightarrow> 'w \<Rightarrow> connect_outcome \<times> 'w"
  net_write :: "nat \<Rightarrow> u8 list \<Rightarrow> 'w \<Rightarrow> (string + unit) \<times> 'w"
  net_arrive :: "nat \<Rightarrow> nat \<Rightarrow> 'w \<Rightarrow> (u8 list \<times> stream_end option) \<times> 'w"
  net_close :: "nat \<Rightarrow> 'w \<Rightarrow> 'w"

section \<open>The client\<close>

text \<open>The stream by its number, with the bytes that have arrived and are not read yet.\<close>

record tcp_client =
  client_stream :: "(nat \<times> u8 list) option"

definition new_client :: tcp_client where
  "new_client = \<lparr> client_stream = None \<rparr>"

definition read_timeout :: nat where "read_timeout = 15000"

text \<open>Dropping the stream a client holds.\<close>

definition drop_stream :: "'w tcp_net \<Rightarrow> tcp_client \<Rightarrow> 'w \<Rightarrow> 'w" where
  "drop_stream net c w = (case client_stream c of Some (h, _) \<Rightarrow> net_close net h w | None \<Rightarrow> w)"

text \<open>\<open>connect\<close>; the result is \<open>None\<close> when the caller's timeout drops the call.\<close>

definition tcp_connect ::
  "'w tcp_net \<Rightarrow> string \<Rightarrow> u16 \<Rightarrow> tcp_client \<Rightarrow> 'w \<Rightarrow> unit res option \<times> tcp_client \<times> 'w" where
  "tcp_connect net host port c w =
     (case net_connect net host port w of
        (Connected h, w) \<Rightarrow> (Some (Inr ()), c\<lparr>client_stream := Some (h, [])\<rparr>, drop_stream net c w)
      | (Refused e, w) \<Rightarrow>
          (Some (Inl (CenterConnection (msg_connect_failed @ host @ '':'' @ show_nat (unat port) @ '': '' @ e))),
           c, w)
      | (Pending, w) \<Rightarrow> (None, c, w))"

text \<open>
  Reading the response from the bytes at hand.  Without an end of the stream an incomplete response
  is a timeout; what was read of it is gone with the dropped read.
\<close>

definition read_response ::
  "string \<Rightarrow> u8 list \<Rightarrow> stream_end option \<Rightarrow> protocol_response res \<times> u8 list" where
  "read_response key bytes ending =
     (let (r, rest) = deserialize_response_async
            \<lparr> incoming = bytes, stream_end = (case ending of Some e \<Rightarrow> e | None \<Rightarrow> Closed) \<rparr>
      in (case (r, ending) of
            (Inl _, None) \<Rightarrow> Inl (CenterConnection (msg_read_timeout @ key))
          | _ \<Rightarrow> r,
          incoming rest))"

definition send ::
  "'w tcp_net \<Rightarrow> protocol_request \<Rightarrow> tcp_client \<Rightarrow> 'w \<Rightarrow> protocol_response res \<times> tcp_client \<times> 'w" where
  "send net request c w =
     (let key = request_key request
      in case client_stream c of
           None \<Rightarrow> (Inl (CenterConnection msg_not_connected), c, w)
         | Some (h, unread) \<Rightarrow>
             (case net_write net h (serialize_request request) w of
                (Inl e, w) \<Rightarrow> (Inl (CenterConnection (msg_send_failed @ key @ '': '' @ e)), c, w)
              | (Inr _, w) \<Rightarrow>
                  (let ((arrived, ending), w) = net_arrive net h read_timeout w;
                       (r, rest) = read_response key (unread @ arrived) ending
                   in (r, c\<lparr>client_stream := Some (h, rest)\<rparr>, w))))"

definition is_connected :: "tcp_client \<Rightarrow> bool" where
  "is_connected c \<longleftrightarrow> client_stream c \<noteq> None"

text \<open>\<open>disconnect\<close>, and the same in \<open>drop\<close>.\<close>

definition disconnect :: "'w tcp_net \<Rightarrow> tcp_client \<Rightarrow> 'w \<Rightarrow> tcp_client \<times> 'w" where
  "disconnect net c w = (c\<lparr>client_stream := None\<rparr>, drop_stream net c w)"

section \<open>Lemmas\<close>

lemma is_connected_simps [simp]:
  "\<not> is_connected new_client"
  "\<not> is_connected (fst (disconnect net c w))"
  "is_connected \<lparr>client_stream = Some (h, bs)\<rparr>"
  by (simp_all add: is_connected_def new_client_def disconnect_def)

text \<open>A response that has arrived in full is returned, whatever follows it and however the stream ends.\<close>

lemma read_response_frame [simp]:
  assumes "wf_response r"
  shows "read_response key (serialize_response r @ rest) ending = (Inr r, rest)"
proof -
  have "deserialize_response_async \<lparr>incoming = serialize_response r @ rest, stream_end = e\<rparr>
      = (Inr r, \<lparr>incoming = rest, stream_end = e\<rparr>)" for e
    using response_frames.decode_encode [OF assms] by simp
  then show ?thesis by (simp add: read_response_def split: option.split)
qed

lemma read_response_nothing [simp]:
  "read_response key [] None = (Inl (CenterConnection (msg_read_timeout @ key)), [])"
  by (simp add: read_response_def deserialize_response_async_def read_exact_async_def)

text \<open>A sent request never changes whether the client holds a stream, and keeps the stream it holds.\<close>

lemma send_keeps_stream:
  "send net request c w = (r, c', w') \<Longrightarrow>
     map_option fst (client_stream c') = map_option fst (client_stream c)"
  by (auto simp: send_def Let_def split: option.splits prod.splits sum.splits)

lemma send_is_connected: "send net request c w = (r, c', w') \<Longrightarrow> is_connected c' = is_connected c"
  by (drule send_keeps_stream) (auto simp: is_connected_def map_option_case split: option.splits)

section \<open>Properties\<close>

text \<open>A network that plays a script: what arrives for the \<open>n\<close>-th request.\<close>

definition scripted_net :: "(nat \<Rightarrow> u8 list) \<Rightarrow> nat tcp_net" where
  "scripted_net arrivals =
     \<lparr> net_connect = (\<lambda>_ _ n. (Connected 0, n)), net_write = (\<lambda>_ _ n. (Inr (), n)),
       net_arrive = (\<lambda>_ _ n. ((arrivals n, None), Suc n)), net_close = (\<lambda>_ n. n) \<rparr>"

text \<open>Several requests, one after the other.\<close>

fun send_all ::
  "'w tcp_net \<Rightarrow> protocol_request list \<Rightarrow> tcp_client \<Rightarrow> 'w \<Rightarrow> protocol_response res list \<times> tcp_client \<times> 'w" where
  "send_all net [] c w = ([], c, w)"
| "send_all net (req # reqs) c w =
     (let (r, c, w) = send net req c w; (rs, c, w) = send_all net reqs c w in (r # rs, c, w))"

lemma send_scripted:
  "send (scripted_net arrivals) req \<lparr>client_stream = Some (h, unread)\<rparr> n =
     (let (r, rest) = read_response (request_key req) (unread @ arrivals n) None
      in (r, \<lparr>client_stream = Some (h, rest)\<rparr>, Suc n))"
  by (simp add: send_def scripted_net_def split: prod.split)

lemma lagging_responses:
  assumes "wf_response late" and "\<forall>r \<in> set resps. wf_response r" and "length reqs = length resps"
    and "\<forall>i < length resps. arrivals (n + i) = serialize_response (resps ! i)"
  shows "fst (send_all (scripted_net arrivals) reqs
           \<lparr>client_stream = Some (h, serialize_response late)\<rparr> n) = map Inr (butlast (late # resps))"
  using assms
proof (induction reqs arbitrary: resps late n)
  case Nil
  then show ?case by simp
next
  case (Cons req reqs)
  then obtain own rest where resps: "resps = own # rest" by (cases resps) auto
  have "arrivals n = serialize_response own" using Cons.prems(4) by (auto simp: resps)
  moreover have "\<forall>i < length rest. arrivals (Suc n + i) = serialize_response (rest ! i)"
    using Cons.prems(4) by (auto simp: resps dest: spec [of _ "Suc _"])
  ultimately show ?case
    using Cons.IH [of own rest "Suc n"] Cons.prems(1-3)
    by (auto simp: resps send_scripted case_prod_beta split: if_splits)
qed

text \<open>
  C35: after a response that came too late the client stays out of step: the request that timed out
  leaves the connection in use, and from then on every request, although its own response arrives in
  time, returns the response to the request before it.
\<close>

theorem late_response_desynchronises:
  assumes "wf_response late" and "\<forall>r \<in> set resps. wf_response r" and "length reqs = length resps"
    and "arrivals n = []"
    and "\<forall>i < length resps. arrivals (Suc (n + i)) =
           (if i = 0 then serialize_response late else []) @ serialize_response (resps ! i)"
  shows "fst (send_all (scripted_net arrivals) (req # reqs) \<lparr>client_stream = Some (h, [])\<rparr> n)
    = Inl (CenterConnection (msg_read_timeout @ request_key req)) # map Inr (butlast (late # resps))"
proof (cases reqs)
  case Nil
  with assms(3,4) show ?thesis by (simp add: send_scripted)
next
  case (Cons req' reqs')
  with assms(3) obtain own rest where resps: "resps = own # rest" by (cases resps) auto
  have "arrivals (Suc n) = serialize_response late @ serialize_response own"
    using assms(5) by (auto simp: resps)
  moreover have "\<forall>i < length rest. arrivals (Suc (Suc n) + i) = serialize_response (rest ! i)"
    using assms(5) by (auto simp: resps dest: spec [of _ "Suc _"])
  ultimately show ?thesis
    using lagging_responses [of own rest reqs' arrivals "Suc (Suc n)" h] assms(1-4)
    by (auto simp: Cons resps send_scripted case_prod_beta split: if_splits)
qed

theorem late_response_desynchronises_witness:
  "fst (send_all (scripted_net (\<lambda>n. if n = 0 then [] else [0, 0, 0, 0, 0, 255, 0, 0, 0, 0]))
        [sample_request, sample_request] \<lparr>client_stream = Some (7, [])\<rparr> 0)
    = [Inl (CenterConnection (msg_read_timeout @ request_key sample_request)),
       Inr \<lparr>status = 0, resp_body = []\<rparr>]"
  using late_response_desynchronises [of "\<lparr>status = 0, resp_body = []\<rparr>"
      "[\<lparr>status = 255, resp_body = []\<rparr>]" "[sample_request]"
      "\<lambda>n. if n = 0 then [] else [0, 0, 0, 0, 0, 255, 0, 0, 0, 0]" 0 sample_request 7]
  by (simp add: wf_response_def serialize_response_def be32_def)

end
