(* ===== verification/Heartbeat.thy ===== *)
theory Heartbeat
  imports Prelude
begin

text \<open>
  The heartbeat service of the guest (\<open>core/heartbeat.rs\<close>): a callback at every elapsed interval,
  until the first failure or the cancellation.  What ends each wait of the loop is an argument; the
  callback and the failure handler act on a state of type \<open>'s\<close>.
\<close>

section \<open>The loop\<close>

datatype wake = Elapsed | Token_cancelled

record 's heartbeat_service =
  callback :: "'s \<Rightarrow> (unit + unit) \<times> 's"
  on_failed :: "('s \<Rightarrow> 's) option"

text \<open>One iteration, given what ended the wait: whether the loop ends, and the state.\<close>

definition heartbeat_iteration :: "'s heartbeat_service \<Rightarrow> wake \<Rightarrow> 's \<Rightarrow> bool \<times> 's" where
  "heartbeat_iteration hb w s =
     (case w of
        Token_cancelled \<Rightarrow> (True, s)
      | Elapsed \<Rightarrow>
          (case callback hb s of
             (Inr _, s) \<Rightarrow> (False, s)
           | (Inl _, s) \<Rightarrow> (True, case on_failed hb of Some f \<Rightarrow> f s | None \<Rightarrow> s)))"

text \<open>\<open>run\<close> up to the wait after the last given wake: whether it has ended, and the state.\<close>

fun heartbeat_run :: "'s heartbeat_service \<Rightarrow> wake list \<Rightarrow> 's \<Rightarrow> bool \<times> 's" where
  "heartbeat_run hb [] s = (False, s)"
| "heartbeat_run hb (w # ws) s =
     (let (ended, s) = heartbeat_iteration hb w s
      in if ended then (True, s) else heartbeat_run hb ws s)"

section \<open>Properties\<close>

text \<open>A callback that plays a script and counts its calls, with a handler that counts its own.\<close>

definition scripted_heartbeat :: "(nat \<Rightarrow> bool) \<Rightarrow> (nat \<times> nat) heartbeat_service" where
  "scripted_heartbeat oks =
     \<lparr> callback = (\<lambda>(n, f). (if oks n then Inr () else Inl (), (Suc n, f))),
       on_failed = Some (\<lambda>(n, f). (n, Suc f)) \<rparr>"

lemma heartbeat_run_from:
  "heartbeat_run (scripted_heartbeat oks) ws (i, f) =
     (let n = length (takeWhile ((=) Elapsed) ws)
      in case position (\<lambda>k. \<not> oks k) [i ..< i + n] of
           Some k \<Rightarrow> (True, (Suc (i + k), Suc f))
         | None \<Rightarrow> (n < length ws, (i + n, f)))"
proof (induction ws arbitrary: i)
  case Nil
  then show ?case by (simp add: position_None)
next
  case (Cons w ws)
  show ?case
  proof (cases w)
    case Elapsed
    with Cons.IH [of "Suc i"] show ?thesis
      by (auto simp: heartbeat_iteration_def scripted_heartbeat_def upt_conv_Cons Let_def
          simp del: upt_Suc split: option.splits)
  next
    case Token_cancelled
    then show ?thesis by (simp add: heartbeat_iteration_def)
  qed
qed

text \<open>
  The loop calls the callback once per elapsed interval until the first failure or the
  cancellation, whichever comes first; the failure handler runs exactly once if a callback failed
  and never otherwise; and after either the loop has ended.
\<close>

lemma heartbeat_stops_at_first_failure:
  "heartbeat_run (scripted_heartbeat oks) ws (0, 0) =
     (let n = length (takeWhile ((=) Elapsed) ws)
      in case position (\<lambda>k. \<not> oks k) [0 ..< n] of
           Some k \<Rightarrow> (True, (Suc k, 1))
         | None \<Rightarrow> (n < length ws, (n, 0)))"
  using heartbeat_run_from [of oks ws 0 0] by (simp add: Let_def split: option.split)

end
