(* ===== verification/Watch.thy ===== *)
theory Watch
  imports Prelude
begin

text \<open>
  The watch channel of the crate \<open>tokio\<close> as far as the program uses it: a value and the number of
  receivers.  As documented, sending while there is no receiver fails and leaves the value as it is,
  and a new receiver sees the value of the moment.
\<close>

record 'a watch =
  watch_value :: 'a
  watch_receivers :: nat

definition watch_channel :: "'a \<Rightarrow> 'a watch" where
  "watch_channel v = \<lparr> watch_value = v, watch_receivers = 0 \<rparr>"

definition watch_subscribe :: "'a watch \<Rightarrow> 'a watch" where
  "watch_subscribe w = w\<lparr>watch_receivers := Suc (watch_receivers w)\<rparr>"

definition watch_send :: "'a \<Rightarrow> 'a watch \<Rightarrow> 'a watch" where
  "watch_send v w = (if watch_receivers w = 0 then w else w\<lparr>watch_value := v\<rparr>)"

lemma watch_receivers_send [simp]: "watch_receivers (watch_send v w) = watch_receivers w"
  by (simp add: watch_send_def)

lemma watch_receivers_sends [simp]:
  "watch_receivers (fold watch_send vs w) = watch_receivers w"
  by (induction vs arbitrary: w) auto

text \<open>A receiver sees the last value sent; without a receiver nothing is kept.\<close>

lemma watch_value_sends:
  "watch_value (fold watch_send vs w) =
     (if watch_receivers w = 0 \<or> vs = [] then watch_value w else List.last vs)"
  by (induction vs arbitrary: w) (auto simp: watch_send_def)

end
