(* ===== verification/Guest.thy ===== *)
theory Guest
  imports Tcp_Client Heartbeat Easy_Tier Room_Code Bind_Ip Discovery Negotiator Protocols Watch
begin

text \<open>
  The guest (\<open>guest/scaffolding_guest.rs\<close>): joining a room, the requests to the centre, the port
  forwards, the heartbeat and leaving.  Everything outside the repository is a field of the
  environment; \<open>'m\<close> is the state of that world, and every operation passes the guest and the world
  on.
\<close>

section \<open>Environment and state\<close>

text \<open>
  The EasyTier library, the network, the regex engine, \<open>serde_json\<close>; the JSON text of a heartbeat
  body from name, machine id, vendor and node id; a wait that a cancellation may cut short (whether
  it did); the cancellation tokens; binding a free port; what the operating system tells.
\<close>

record ('m, 'i, 'u, 'v, 'j) guest_env =
  env_lib :: "('m, 'i, 'u, 'v) easytier_lib"
  env_net :: "'m tcp_net"
  env_rx :: regex_engine
  env_js :: "'j serde_json"
  env_ping_body :: "string \<Rightarrow> string \<Rightarrow> string \<Rightarrow> string option \<Rightarrow> string + u8 list"
  env_wait :: "nat \<Rightarrow> nat \<Rightarrow> 'm \<Rightarrow> bool \<times> 'm"
  env_is_cancelled :: "nat \<Rightarrow> 'm \<Rightarrow> bool"
  env_cancel :: "nat \<Rightarrow> 'm \<Rightarrow> 'm"
  env_free_port :: "'m \<Rightarrow> u16 \<times> 'm"
  env_system :: "'m \<Rightarrow> host_system"

definition standard_protocols :: "string list" where
  "standard_protocols =
     [''c:ping'', ''c:protocols'', ''c:server_port'', ''c:player_ping'', ''c:player_profiles_list'',
      ''c:player_easytier_id'']"

definition guest_heartbeat_interval :: nat where "guest_heartbeat_interval = 5000"

definition connect_timeout :: nat where "connect_timeout = 3000"

definition retry_delay :: nat where "retry_delay = 2000"

text \<open>
  The guest; \<open>g_loops\<close> are the tokens of the heartbeat loops that were started and have not ended.
\<close>

record guest =
  g_player_name :: string
  g_machine_id :: string
  g_vendor :: string
  g_easy_tier :: easy_tier_manager
  g_tcp :: tcp_client
  g_custom_keys :: "string list"
  g_relay_nodes :: "string list option"
  g_negotiated :: "string list"
  g_config :: "network_config option"
  g_center :: "center_discovery_result option"
  g_use_port_forward :: bool
  g_minecraft_host :: "string option"
  g_minecraft_port :: "u16 option"
  g_heartbeat_ct :: "nat option"
  g_connection_lost :: "bool watch"
  g_loops :: "nat list"

definition new_guest :: "string \<Rightarrow> string \<Rightarrow> string \<Rightarrow> string list \<Rightarrow> string list option \<Rightarrow> guest" where
  "new_guest player_name machine_id vendor custom_keys nodes =
     \<lparr> g_player_name = player_name, g_machine_id = machine_id, g_vendor = vendor,
       g_easy_tier = new_manager, g_tcp = new_client, g_custom_keys = custom_keys,
       g_relay_nodes = nodes, g_negotiated = [], g_config = None, g_center = None,
       g_use_port_forward = False, g_minecraft_host = None, g_minecraft_port = None,
       g_heartbeat_ct = None, g_connection_lost = watch_channel False, g_loops = [] \<rparr>"

definition connection_lost_rx :: "guest \<Rightarrow> guest" where
  "connection_lost_rx g = g\<lparr>g_connection_lost := watch_subscribe (g_connection_lost g)\<rparr>"

definition report_lost :: "guest \<Rightarrow> guest" where
  "report_lost g = g\<lparr>g_connection_lost := watch_send True (g_connection_lost g)\<rparr>"

section \<open>Requests\<close>

text \<open>Sending one request through the client of the guest: \<open>self.tcp.lock().await.send\<close>.\<close>

definition send_raw ::
  "('m, 'i, 'u, 'v, 'j) guest_env \<Rightarrow> protocol_request \<Rightarrow> guest \<Rightarrow> 'm
     \<Rightarrow> protocol_response res \<times> guest \<times> 'm" where
  "send_raw env request g m =
     (let (r, c, m) = send (env_net env) request (g_tcp g) m in (r, g\<lparr>g_tcp := c\<rparr>, m))"

definition standard_request :: "string \<Rightarrow> u8 list \<Rightarrow> protocol_request" where
  "standard_request ty body = \<lparr> namespace = ''c'', request_type = ty, req_body = body \<rparr>"

definition ping ::
  "('m, 'i, 'u, 'v, 'j) guest_env \<Rightarrow> guest \<Rightarrow> 'm \<Rightarrow> bool res \<times> guest \<times> 'm" where
  "ping env g m =
     (let (r, g, m) = send_raw env (standard_request ''ping'' [0x42]) g m
      in (rbind r (\<lambda>response. Inr (is_success response)), g, m))"

text \<open>The reading of a response to \<open>c:server_port\<close>.\<close>

definition port_of_response :: "protocol_response \<Rightarrow> u16 res" where
  "port_of_response response =
     (let st = unat (status response)
      in if 32 \<le> st \<and> st < 64
         then Inl (Protocol (msg_mc_not_started @ show_nat st @ '')''))
         else if \<not> is_success response
         then Inl (Protocol (msg_port_failed @ show_nat st @ '')''))
         else if length (resp_body response) = 2
         then Inr (from_be16 (resp_body response ! 0) (resp_body response ! 1))
         else Inl (Protocol (msg_port_len @ show_nat (length (resp_body response)) @ msg_bytes)))"

definition get_server_port ::
  "('m, 'i, 'u, 'v, 'j) guest_env \<Rightarrow> guest \<Rightarrow> 'm \<Rightarrow> u16 res \<times> guest \<times> 'm" where
  "get_server_port env g m =
     (let (r, g, m) = send_raw env (standard_request ''server_port'' []) g m
      in (rbind r port_of_response, g, m))"

text \<open>The player pings of \<open>send_player_ping\<close> and of the heartbeat differ in how the body is written.\<close>

definition has_easytier_id :: "guest \<Rightarrow> bool" where
  "has_easytier_id g \<longleftrightarrow> ''c:player_easytier_id'' \<in> set (g_negotiated g)"

definition ping_node_id :: "guest \<Rightarrow> string option" where
  "ping_node_id g =
     (if has_easytier_id g then Some (unwrap_or [] (mgr_node_id (g_easy_tier g))) else None)"

definition send_player_ping ::
  "('m, 'i, 'u, 'v, 'j) guest_env \<Rightarrow> guest \<Rightarrow> 'm \<Rightarrow> unit res \<times> guest \<times> 'm" where
  "send_player_ping env g m =
     (if \<not> is_connected (g_tcp g) then (Inr (), report_lost g, m)
      else
        let entry = \<lparr> pe_name = g_player_name g, pe_machine_id = g_machine_id g,
                      pe_easytier_id = ping_node_id g, pe_vendor = g_vendor g, pe_kind = None \<rparr>
        in case sj_entry_to_vec (env_js env) entry of
             Inl e \<Rightarrow> (Inl (Protocol e), g, m)
           | Inr body \<Rightarrow>
               (let (r, g, m) = send_raw env (standard_request ''player_ping'' body) g m
                in (rbind r (\<lambda>_. Inr ()), g, m)))"

definition my_protocols :: "guest \<Rightarrow> string list" where
  "my_protocols g = standard_protocols @ g_custom_keys g"

definition negotiate_protocols ::
  "('m, 'i, 'u, 'v, 'j) guest_env \<Rightarrow> guest \<Rightarrow> 'm \<Rightarrow> unit res \<times> guest \<times> 'm" where
  "negotiate_protocols env g m =
     (let body = into_bytes (join [CHR 0x00] (my_protocols g));
          (r, g, m) = send_raw env (standard_request ''protocols'' body) g m
      in case r of
           Inl e \<Rightarrow> (Inl e, g, m)
         | Inr response \<Rightarrow>
             (Inr (),
              (if is_success response
               then g\<lparr>g_negotiated := negotiate (my_protocols g)
                        (split_on CHR 0x00 (from_utf8_lossy (resp_body response)))\<rparr>
               else g), m))"

section \<open>Custom protocols\<close>

definition ensure_negotiated :: "guest \<Rightarrow> string \<Rightarrow> unit res" where
  "ensure_negotiated g key =
     (if key \<in> set (g_negotiated g) then Inr ()
      else Inl (ProtocolNotNegotiated (msg_unsupported @ key @ msg_negotiated
             @ (if g_negotiated g = [] then msg_empty else join '', '' (g_negotiated g)) @ msg_close_paren)))"

definition split_key :: "string \<Rightarrow> (string \<times> string) res" where
  "split_key key = ok_or (Protocol (msg_bad_key @ key)) (split_once CHR '':'' key)"

text \<open>What \<open>send_json\<close> and \<open>send_json_req\<close> do with the response.\<close>

definition json_response ::
  "string \<Rightarrow> (u8 list \<Rightarrow> string + 'r) \<Rightarrow> protocol_response \<Rightarrow> 'r res" where
  "json_response key from_slice response =
     (if \<not> is_success response
      then Inl (Protocol (msg_protocol @ key @ msg_error_status @ show_nat (unat (status response))))
      else map_err Protocol (from_slice (resp_body response)))"

definition send_json ::
  "('m, 'i, 'u, 'v, 'j) guest_env \<Rightarrow> (u8 list \<Rightarrow> string + 'r) \<Rightarrow> string \<Rightarrow> guest \<Rightarrow> 'm
     \<Rightarrow> 'r res \<times> guest \<times> 'm" where
  "send_json env from_slice key g m =
     (case rbind (ensure_negotiated g key) (\<lambda>_. split_key key) of
        Inl e \<Rightarrow> (Inl e, g, m)
      | Inr (ns, ty) \<Rightarrow>
          (let (r, g, m) = send_raw env \<lparr> namespace = ns, request_type = ty, req_body = [] \<rparr> g m
           in (rbind r (json_response key from_slice), g, m)))"

definition send_json_req ::
  "('m, 'i, 'u, 'v, 'j) guest_env \<Rightarrow> ('q \<Rightarrow> string + u8 list) \<Rightarrow> (u8 list \<Rightarrow> string + 'r) \<Rightarrow> string \<Rightarrow> 'q
     \<Rightarrow> guest \<Rightarrow> 'm \<Rightarrow> 'r res \<times> guest \<times> 'm" where
  "send_json_req env to_vec from_slice key payload g m =
     (case rbind (ensure_negotiated g key) (\<lambda>_. rbind (split_key key) (\<lambda>(ns, ty).
             rbind (map_err Protocol (to_vec payload)) (\<lambda>body. Inr (ns, ty, body)))) of
        Inl e \<Rightarrow> (Inl e, g, m)
      | Inr (ns, ty, body) \<Rightarrow>
          (let (r, g, m) = send_raw env \<lparr> namespace = ns, request_type = ty, req_body = body \<rparr> g m
           in (rbind r (json_response key from_slice), g, m)))"

section \<open>The player list\<close>

text \<open>One element of the array, if it is an object.\<close>

definition player_of_item :: "'j serde_json \<Rightarrow> 'j \<Rightarrow> player_info option" where
  "player_of_item js item =
     map_option (\<lambda>obj.
       let str = (\<lambda>key. Option.bind (obj key) (value_to_string js))
       in \<lparr> pi_name = unwrap_or [] (str ''name''), pi_machine_id = unwrap_or [] (str ''machine_id''),
            pi_easytier_id = str ''easytier_id'', pi_vendor = unwrap_or [] (str ''vendor''),
            pi_kind = (if Option.bind (obj ''kind'') (sj_as_str js) = Some ''HOST'' then Host else Guest) \<rparr>)
       (sj_as_object js item)"

definition players_of_body :: "'j serde_json \<Rightarrow> u8 list \<Rightarrow> player_info list res" where
  "players_of_body js body =
     rbind (map_err Protocol (sj_from_slice js body)) (\<lambda>value.
       Inr (case sj_as_array js value of
              None \<Rightarrow> []
            | Some items \<Rightarrow> List.map_filter (player_of_item js) items))"

definition get_player_list ::
  "('m, 'i, 'u, 'v, 'j) guest_env \<Rightarrow> guest \<Rightarrow> 'm \<Rightarrow> player_info list res \<times> guest \<times> 'm" where
  "get_player_list env g m =
     (let (r, g, m) = send_raw env (standard_request ''player_profiles_list'' []) g m
      in (rbind r (\<lambda>response. players_of_body (env_js env) (resp_body response)), g, m))"

section \<open>Port forwards\<close>

definition parse_forward_addrs :: "(string \<Rightarrow> 'v option) \<Rightarrow> string \<Rightarrow> ('v socket_addr \<times> 'v socket_addr) res" where
  "parse_forward_addrs v6 forward =
     rbind (ok_or (Protocol (msg_bad_forward @ forward)) (split_once_str ''://'' forward)) (\<lambda>(_, rest).
     rbind (ok_or (Protocol (msg_bad_forward @ forward)) (split_once CHR ''/'' rest)) (\<lambda>(bind, dst).
     rbind (ok_or (Protocol (msg_bad_bind @ bind)) (parse_socket_addr v6 bind)) (\<lambda>bind_addr.
     rbind (ok_or (Protocol (msg_bad_dst @ dst)) (parse_socket_addr v6 dst)) (\<lambda>dst_addr.
       Inr (bind_addr, dst_addr)))))"

definition apply_port_forward_patch ::
  "('m, 'i, 'u, 'v, 'j) guest_env \<Rightarrow> string \<Rightarrow> guest \<Rightarrow> 'm \<Rightarrow> unit res \<times> 'm" where
  "apply_port_forward_patch env forward g m =
     (case parse_forward_addrs (lib_parse_v6 (env_lib env)) forward of
        Inl e \<Rightarrow> (Inl e, m)
      | Inr addrs \<Rightarrow> apply_config_patch (env_lib env) (g_easy_tier g) addrs m)"

text \<open>The rule from a local port to an address of the centre, and its entry in the configuration.\<close>

definition forward_rule :: "u16 \<Rightarrow> string \<Rightarrow> u16 \<Rightarrow> string" where
  "forward_rule local_port ip port =
     ''tcp://127.0.0.1:'' @ show_nat (unat local_port) @ ''/'' @ ip @ '':'' @ show_nat (unat port)"

definition push_forward :: "string \<Rightarrow> guest \<Rightarrow> guest" where
  "push_forward forward g =
     g\<lparr>g_config := map_option (\<lambda>c. c\<lparr>port_forwards := port_forwards c @ [forward]\<rparr>) (g_config g)\<rparr>"

definition localhost :: string where "localhost = ''127.0.0.1''"

section \<open>Connecting\<close>

definition hang_up :: "('m, 'i, 'u, 'v, 'j) guest_env \<Rightarrow> guest \<Rightarrow> 'm \<Rightarrow> guest \<times> 'm" where
  "hang_up env g m = (let (c, m) = disconnect (env_net env) (g_tcp g) m in (g\<lparr>g_tcp := c\<rparr>, m))"

text \<open>\<open>try_connect_once\<close>; the timeout shows in the outcome \<open>Pending\<close> of the network.\<close>

definition try_connect_once ::
  "('m, 'i, 'u, 'v, 'j) guest_env \<Rightarrow> string \<Rightarrow> u16 \<Rightarrow> guest \<Rightarrow> 'm \<Rightarrow> bool res \<times> guest \<times> 'm" where
  "try_connect_once env host port g m =
     (let (ok, c, m) = tcp_connect (env_net env) host port (g_tcp g) m;
          g = g\<lparr>g_tcp := c\<rparr>
      in case ok of
           Some (Inr _) \<Rightarrow>
             (let (r1, g, m) = send_player_ping env g m
              in if is_ok r1
                 then let (r2, g, m) = negotiate_protocols env g m
                      in if is_ok r2 then (Inr True, g, m) else (Inr False, hang_up env g m)
                 else (Inr False, hang_up env g m))
         | Some (Inl _) \<Rightarrow> (Inr False, hang_up env g m)
         | None \<Rightarrow> (Inr False, hang_up env g m))"

text \<open>The loop of \<open>try_connect_with_retry\<close> with \<open>n\<close> attempts left; no wait after the last one.\<close>

fun try_connect_with_retry ::
  "('m, 'i, 'u, 'v, 'j) guest_env \<Rightarrow> string \<Rightarrow> u16 \<Rightarrow> nat \<Rightarrow> nat \<Rightarrow> guest \<Rightarrow> 'm
     \<Rightarrow> bool res \<times> guest \<times> 'm" where
  "try_connect_with_retry env host port 0 ct g m = (Inr False, g, m)"
| "try_connect_with_retry env host port (Suc n) ct g m =
     (if env_is_cancelled env ct m then (Inr False, g, m)
      else case try_connect_once env host port g m of
             (Inl e, g, m) \<Rightarrow> (Inl e, g, m)
           | (Inr True, g, m) \<Rightarrow> (Inr True, g, m)
           | (Inr False, g, m) \<Rightarrow>
               (let m = (if n > 0 then lib_sleep (env_lib env) retry_delay m else m)
                in try_connect_with_retry env host port n ct g m))"

text \<open>
  \<open>discover\<close> on the nodes of the manager, with the world passed on; \<open>n\<close> rounds are left.
\<close>

fun discover_from ::
  "('m, 'i, 'u, 'v, 'j) guest_env \<Rightarrow> easy_tier_manager \<Rightarrow> nat \<Rightarrow> nat \<Rightarrow> 'm
     \<Rightarrow> center_discovery_result res \<times> 'm" where
  "discover_from env mgr ct 0 m = (Inl (CenterNotFound msg_center_not_found), m)"
| "discover_from env mgr ct (Suc n) m =
     (case try_parse_center (env_rx env) (get_nodes (env_lib env) mgr m) of
        Some result \<Rightarrow> (Inr result, m)
      | None \<Rightarrow>
          (case env_wait env ct 500 m of
             (True, m) \<Rightarrow> (Inl (CenterNotFound msg_discovery_cancelled), m)
           | (False, m) \<Rightarrow> discover_from env mgr ct n m))"

text \<open>\<open>start_heartbeat\<close>: the token is kept and a loop is spawned.\<close>

definition start_heartbeat :: "nat \<Rightarrow> guest \<Rightarrow> guest" where
  "start_heartbeat ct g = g\<lparr>g_heartbeat_ct := Some ct, g_loops := g_loops g @ [ct]\<rparr>"

definition guest_config :: "room_code \<Rightarrow> guest \<Rightarrow> host_system \<Rightarrow> network_config" where
  "guest_config code g sys =
     default_network_config\<lparr>
       network_name := easy_tier_network_name code,
       network_secret := easy_tier_network_secret code,
       nc_hostname := ''scaffolding-mc-guest-'' @ concat (take 8 (chars (g_machine_id g))),
       no_tun := \<not> is_elevated (hs_token sys), use_smoltcp := \<not> is_elevated (hs_token sys), dhcp := True,
       relay_nodes := g_relay_nodes g, bind_ip := resolve_bind_ip (hs_interfaces sys) \<rparr>"

text \<open>The second half of \<open>connect\<close>: directly, or through a port forward.\<close>

definition connect_center ::
  "('m, 'i, 'u, 'v, 'j) guest_env \<Rightarrow> center_discovery_result \<Rightarrow> nat \<Rightarrow> guest \<Rightarrow> 'm
     \<Rightarrow> unit res \<times> guest \<times> 'm" where
  "connect_center env center ct g m =
     (case try_connect_once env (cd_virtual_ip center) (cd_port center) g m of
        (Inl e, g, m) \<Rightarrow> (Inl e, g, m)
      | (Inr True, g, m) \<Rightarrow> (Inr (), start_heartbeat ct (g\<lparr>g_use_port_forward := False\<rparr>), m)
      | (Inr False, g, m) \<Rightarrow>
          (let (local_port, m) = env_free_port env m;
               forward = forward_rule local_port (cd_virtual_ip center) (cd_port center);
               g = push_forward forward g
           in case apply_port_forward_patch env forward g m of
                (Inl e, m) \<Rightarrow> (Inl e, g, m)
              | (Inr _, m) \<Rightarrow>
                  (case try_connect_with_retry env localhost local_port 10 ct g m of
                     (Inl e, g, m) \<Rightarrow> (Inl e, g, m)
                   | (Inr False, g, m) \<Rightarrow> (Inl (CenterConnection msg_forward_failed), g, m)
                   | (Inr True, g, m) \<Rightarrow>
                       (Inr (), start_heartbeat ct (g\<lparr>g_use_port_forward := True\<rparr>), m))))"

text \<open>\<open>connect\<close>: \<open>None\<close> if starting EasyTier never returned.\<close>

definition connect ::
  "('m, 'i, 'u, 'v, 'j) guest_env \<Rightarrow> room_code \<Rightarrow> nat \<Rightarrow> guest \<Rightarrow> 'm
     \<Rightarrow> (unit res \<times> guest \<times> 'm) option" where
  "connect env code ct g m =
     (let config = guest_config code g (env_system env m)
      in case start (env_lib env) config (g_easy_tier g) m of
           None \<Rightarrow> None
         | Some (Inl e, mgr, m) \<Rightarrow> Some (Inl e, g\<lparr>g_easy_tier := mgr\<rparr>, m)
         | Some (Inr _, mgr, m) \<Rightarrow>
             (let g = g\<lparr>g_easy_tier := mgr\<rparr>
              in case discover_from env mgr ct 60 m of
                   (Inl e, m) \<Rightarrow> Some (Inl e, g, m)
                 | (Inr center, m) \<Rightarrow>
                     Some (connect_center env center ct
                       (g\<lparr>g_center := Some center, g_config := Some config\<rparr>) m)))"

section \<open>The Minecraft port\<close>

definition map_minecraft_port ::
  "('m, 'i, 'u, 'v, 'j) guest_env \<Rightarrow> guest \<Rightarrow> 'm \<Rightarrow> (string \<times> u16) res \<times> guest \<times> 'm" where
  "map_minecraft_port env g m =
     (if g_config g = None \<or> g_center g = None then (Inl (CenterConnection msg_not_joined), g, m)
      else case (g_minecraft_host g, g_minecraft_port g) of
        (Some h, Some p) \<Rightarrow> (Inr (h, p), g, m)
      | _ \<Rightarrow>
          (case get_server_port env g m of
             (Inl e, g, m) \<Rightarrow> (Inl e, g, m)
           | (Inr mc_port, g, m) \<Rightarrow>
               (case g_center g of
                  None \<Rightarrow> (Inl (CenterConnection msg_not_joined), g, m)
                | Some center \<Rightarrow>
                    if \<not> g_use_port_forward g
                    then (Inr (cd_virtual_ip center, mc_port),
                          g\<lparr>g_minecraft_host := Some (cd_virtual_ip center),
                            g_minecraft_port := Some mc_port\<rparr>, m)
                    else
                      (let (local_mc_port, m) = env_free_port env m;
                           mc_forward = forward_rule local_mc_port (cd_virtual_ip center) mc_port;
                           g = push_forward mc_forward g
                       in case apply_port_forward_patch env mc_forward g m of
                            (Inl e, m) \<Rightarrow> (Inl e, g, m)
                          | (Inr _, m) \<Rightarrow>
                              (Inr (localhost, local_mc_port),
                               g\<lparr>g_minecraft_host := Some localhost,
                                 g_minecraft_port := Some local_mc_port\<rparr>, m)))))"

section \<open>Heartbeat and leaving\<close>

text \<open>The callback of the heartbeat; it does not fail while there is no connection.\<close>

definition guest_heartbeat :: "('m, 'i, 'u, 'v, 'j) guest_env \<Rightarrow> (guest \<times> 'm) heartbeat_service" where
  "guest_heartbeat env =
     \<lparr> callback = (\<lambda>(g, m).
         if \<not> is_connected (g_tcp g) then (Inr (), (report_lost g, m))
         else case env_ping_body env (g_player_name g) (g_machine_id g) (g_vendor g) (ping_node_id g) of
                Inl _ \<Rightarrow> (Inl (), (g, m))
              | Inr body \<Rightarrow>
                  (let (r, g, m) = send_raw env (standard_request ''player_ping'' body) g m
                   in (map_err (\<lambda>_. ()) (rbind r (\<lambda>_. Inr ())), (g, m)))),
       on_failed = Some (\<lambda>(g, m). (report_lost g, m)) \<rparr>"

definition stop_heartbeat ::
  "('m, 'i, 'u, 'v, 'j) guest_env \<Rightarrow> guest \<Rightarrow> 'm \<Rightarrow> guest \<times> 'm" where
  "stop_heartbeat env g m =
     (case g_heartbeat_ct g of
        Some ct \<Rightarrow> (g\<lparr>g_heartbeat_ct := None\<rparr>, env_cancel env ct m)
      | None \<Rightarrow> (g, m))"

definition leave :: "('m, 'i, 'u, 'v, 'j) guest_env \<Rightarrow> guest \<Rightarrow> 'm \<Rightarrow> guest \<times> 'm" where
  "leave env g m =
     (let (g, m) = stop_heartbeat env g m;
          (g, m) = hang_up env g m;
          (_, mgr, m) = stop (env_lib env) (g_easy_tier g) m
      in (g\<lparr>g_easy_tier := mgr\<rparr>, m))"

end
