(* ===== verification/Guest_Session.thy ===== *)
theory Guest_Session
  imports Guest Systems
begin

text \<open>
  What holds of a guest over its whole life: the operations as steps of a system, its invariant, and
  the behaviour of the forwards, of discovery, of connecting and of leaving.
\<close>

section \<open>Port forwards\<close>

lemma split_forward:
  "split_once_str ''://'' (forward_rule lp ip p)
     = Some (''tcp'', localhost @ '':'' @ show_nat (unat lp) @ ''/'' @ ip @ '':'' @ show_nat (unat p))"
  by (simp add: forward_rule_def localhost_def)

lemma show_localhost: "show_ipv4 (Ipv4 127 0 0 1) = localhost"
  by code_simp

text \<open>
  The forwarding rule the guest writes for a local port and an address of the centre is read back
  as exactly these two addresses, by its own parser and by the parser of the EasyTier manager.
\<close>

lemma forward_rule_roundtrip:
  "parse_forward_addrs v6 (forward_rule lp (show_ipv4 ip) p) = Inr (V4 (Ipv4 127 0 0 1) lp, V4 ip p)
 \<and> parse_port_forward v6 (forward_rule lp (show_ipv4 ip) p)
     = Inr (Port_forward (V4 (Ipv4 127 0 0 1) lp) (V4 ip p) ''tcp'')"
proof -
  have "parse_socket_addr v6 (localhost @ CHR '':'' # show_nat (unat lp)) = Some (V4 (Ipv4 127 0 0 1) lp)"
    by (simp only: show_localhost [symmetric] parse_socket_addr_show)
  moreover have "CHR ''/'' \<notin> set (localhost @ CHR '':'' # show_nat (unat lp))"
    using show_nat_digits [of "unat lp"] by (auto simp: localhost_def list_all_iff is_digit_def)
  then have "split_once CHR ''/'' (localhost @ CHR '':'' # show_nat (unat lp) @ CHR ''/'' # rest)
      = Some (localhost @ CHR '':'' # show_nat (unat lp), rest)" for rest
    using split_once_append [of "CHR ''/''" "localhost @ CHR '':'' # show_nat (unat lp)" rest] by simp
  ultimately show ?thesis
    by (simp add: parse_forward_addrs_def parse_port_forward_def split_forward)
qed

text \<open>
  On every text the guest's parser and the manager's parser of forwarding rules accept the same
  rules and read the same two addresses, and they reject with the same message, as a protocol error
  and as a start error.
\<close>

lemma forward_parsers_agree:
  "(case parse_forward_addrs v6 s of
      Inr (b, d) \<Rightarrow> \<exists>proto. parse_port_forward v6 s = Inr (Port_forward b d proto)
    | Inl e \<Rightarrow> \<exists>msg. e = Protocol msg \<and> parse_port_forward v6 s = Inl (EasyTierStart msg))"
proof (cases "split_once_str ''://'' s")
  case (Some pr)
  obtain proto rest where pr: "pr = (proto, rest)" by (cases pr)
  show ?thesis
  proof (cases "split_once CHR ''/'' rest")
    case (Some bd)
    obtain b d where "bd = (b, d)" by (cases bd)
    with Some pr \<open>split_once_str ''://'' s = Some pr\<close> show ?thesis
      by (cases "parse_socket_addr v6 b"; cases "parse_socket_addr v6 d")
        (simp_all add: parse_forward_addrs_def parse_port_forward_def)
  qed (use Some pr in \<open>simp add: parse_forward_addrs_def parse_port_forward_def\<close>)
qed (simp add: parse_forward_addrs_def parse_port_forward_def)

section \<open>Discovery\<close>

text \<open>The world after \<open>i\<close> rounds of waiting.\<close>

definition after_waits :: "('m, 'i, 'u, 'v, 'j) guest_env \<Rightarrow> nat \<Rightarrow> nat \<Rightarrow> 'm \<Rightarrow> 'm" where
  "after_waits env ct i m = ((\<lambda>m. snd (env_wait env ct 500 m)) ^^ i) m"

lemma after_waits_Suc: "after_waits env ct (Suc i) m = after_waits env ct i (snd (env_wait env ct 500 m))"
  using funpow_swap1 [of "\<lambda>m. snd (env_wait env ct 500 m)" i m] by (simp add: after_waits_def)

lemma after_waits_0 [simp]: "after_waits env ct 0 m = m"
  by (simp add: after_waits_def)

lemma attempts_shift: "attempts (\<lambda>i. body (Suc i)) i n = attempts body (Suc i) n"
  by (induction n arbitrary: i) (simp_all split: option.split)

text \<open>
  Discovery inside the guest, which passes the world on from round to round, finds what the
  polling loop finds on the node lists and cancellations of the successive worlds.
\<close>

lemma discover_from_is_discover:
  "fst (discover_from env mgr ct 60 m) =
     discover (env_rx env) (\<lambda>i. get_nodes (env_lib env) mgr (after_waits env ct i m))
       (\<lambda>i. fst (env_wait env ct 500 (after_waits env ct i m)))"
proof -
  let ?round = "\<lambda>m. discover_round (env_rx env) (\<lambda>i. get_nodes (env_lib env) mgr (after_waits env ct i m))
       (\<lambda>i. fst (env_wait env ct 500 (after_waits env ct i m)))"
  have shift: "?round m (Suc i) = ?round (snd (env_wait env ct 500 m)) i" for m i
    by (simp add: discover_round_def after_waits_Suc)
  have "fst (discover_from env mgr ct n m) =
      (case attempts (?round m) 0 n of
         Some result \<Rightarrow> result | None \<Rightarrow> Inl (CenterNotFound msg_center_not_found))" for n m
  proof (induction n arbitrary: m)
    case (Suc n)
    have "attempts (?round m) (Suc 0) n = attempts (?round (snd (env_wait env ct 500 m))) 0 n"
      using attempts_shift [of "?round m" 0 n] by (simp only: shift)
    moreover have "?round m 0 = (case try_parse_center (env_rx env) (get_nodes (env_lib env) mgr m) of
        Some result \<Rightarrow> Some (Inr result)
      | None \<Rightarrow> if fst (env_wait env ct 500 m) then Some (Inl (CenterNotFound msg_discovery_cancelled)) else None)"
      by (simp add: discover_round_def)
    ultimately show ?case
      using Suc.IH [of "snd (env_wait env ct 500 m)"]
      by (cases "env_wait env ct 500 m") (auto split: option.split)
  qed simp
  then show ?thesis by (simp add: discover_def)
qed

section \<open>What a request changes\<close>

definition negotiated_ok :: "guest \<Rightarrow> bool" where
  "negotiated_ok g \<longleftrightarrow> set (g_negotiated g) \<subseteq> set (my_protocols g)"

text \<open>The guest talked to the centre, and no more: its room, its forwards and its tasks are the same.\<close>

definition same_room :: "guest \<Rightarrow> guest \<Rightarrow> bool" where
  "same_room g g' \<longleftrightarrow>
     g_center g' = g_center g \<and> g_config g' = g_config g \<and> g_use_port_forward g' = g_use_port_forward g
   \<and> g_minecraft_host g' = g_minecraft_host g \<and> g_minecraft_port g' = g_minecraft_port g
   \<and> g_custom_keys g' = g_custom_keys g \<and> g_heartbeat_ct g' = g_heartbeat_ct g
   \<and> g_loops g' = g_loops g \<and> g_easy_tier g' = g_easy_tier g
   \<and> (negotiated_ok g \<longrightarrow> negotiated_ok g')"

lemma same_room_refl [simp]: "same_room g g"
  by (simp add: same_room_def)

lemma same_room_trans [trans]: "same_room g g' \<Longrightarrow> same_room g' g'' \<Longrightarrow> same_room g g''"
  by (simp add: same_room_def)

lemma same_room_tcp [simp]: "same_room g (g\<lparr>g_tcp := c\<rparr>)"
  by (simp add: same_room_def negotiated_ok_def my_protocols_def)

lemma same_room_lost [simp]: "same_room g (report_lost g)" "same_room g (connection_lost_rx g)"
  by (simp_all add: same_room_def negotiated_ok_def my_protocols_def report_lost_def connection_lost_rx_def)

lemma same_room_negotiate [simp]:
  "same_room g (g\<lparr>g_negotiated := negotiate (my_protocols g) ps\<rparr>)"
  by (auto simp: same_room_def negotiated_ok_def my_protocols_def)

lemma send_raw_tcp: "send_raw env req g m = (r, g', m') \<Longrightarrow> \<exists>c. g' = g\<lparr>g_tcp := c\<rparr> \<and> is_connected c = is_connected (g_tcp g)"
  by (auto simp: send_raw_def split: prod.splits dest: send_is_connected)

lemma send_raw_room: "send_raw env req g m = (r, g', m') \<Longrightarrow> same_room g g'"
  by (auto dest: send_raw_tcp)

lemma send_player_ping_room: "send_player_ping env g m = (r, g', m') \<Longrightarrow> same_room g g'"
  by (auto simp: send_player_ping_def Let_def split: if_splits sum.splits prod.splits dest: send_raw_room)

lemma negotiate_protocols_room: "negotiate_protocols env g m = (r, g', m') \<Longrightarrow> same_room g g'"
  by (auto simp: negotiate_protocols_def Let_def split: if_splits sum.splits prod.splits
      dest: send_raw_room intro: same_room_trans [OF _ same_room_negotiate])

lemma hang_up_room: "hang_up env g m = (g', m') \<Longrightarrow> same_room g g' \<and> \<not> is_connected (g_tcp g')"
  by (auto simp: hang_up_def disconnect_def is_connected_def)

text \<open>The requests keep the connection; a failed attempt to connect drops it.\<close>

lemma send_player_ping_connected:
  "send_player_ping env g m = (r, g', m') \<Longrightarrow> is_connected (g_tcp g') = is_connected (g_tcp g)"
  by (auto simp: send_player_ping_def report_lost_def Let_def split: if_splits sum.splits prod.splits dest: send_raw_tcp)

lemma negotiate_protocols_connected:
  "negotiate_protocols env g m = (r, g', m') \<Longrightarrow> is_connected (g_tcp g') = is_connected (g_tcp g)"
  by (auto simp: negotiate_protocols_def Let_def split: if_splits sum.splits prod.splits dest: send_raw_tcp)

lemma tcp_connect_connected: "tcp_connect net host port c w = (Some (Inr ()), c', w') \<Longrightarrow> is_connected c'"
  by (auto simp: tcp_connect_def is_connected_def split: prod.splits connect_outcome.splits)

lemma try_connect_once_result:
  assumes "try_connect_once env host port g m = (r, g', m')"
  shows "same_room g g' \<and> (\<exists>b. r = Inr b \<and> is_connected (g_tcp g') = b)"
proof -
  obtain ok c m1 where t: "tcp_connect (env_net env) host port (g_tcp g) m = (ok, c, m1)"
    by (metis prod_cases3)
  let ?g = "g\<lparr>g_tcp := c\<rparr>"
  consider (dropped) "ok = None \<or> (\<exists>e. ok = Some (Inl e))" | (up) "ok = Some (Inr ())"
    by (cases ok; simp) (metis sum.exhaust old.unit.exhaust)
  then show ?thesis
  proof cases
    case dropped
    with assms t have "r = Inr False" and "hang_up env ?g m1 = (g', m')"
      by (auto simp: try_connect_once_def)
    with hang_up_room [of env ?g m1 g' m'] same_room_trans [of g ?g g'] show ?thesis
      by (intro conjI exI [of _ False]) simp_all
  next
    case up
    with t have conn: "is_connected c" by (auto dest: tcp_connect_connected)
    obtain r1 g1 m2 where p: "send_player_ping env ?g m1 = (r1, g1, m2)" by (metis prod_cases3)
    obtain r2 g2 m3 where n: "negotiate_protocols env g1 m2 = (r2, g2, m3)" by (metis prod_cases3)
    have room: "same_room g g1" "same_room g g2"
      using send_player_ping_room [OF p] negotiate_protocols_room [OF n] by (blast intro: same_room_trans same_room_tcp)+
    have "is_connected (g_tcp g2)"
      using send_player_ping_connected [OF p] negotiate_protocols_connected [OF n] conn by simp
    with up t p n assms room show ?thesis
      by (auto simp: try_connect_once_def split: if_splits dest!: hang_up_room intro: same_room_trans)
  qed
qed

lemma try_connect_with_retry_result:
  "try_connect_with_retry env host port n ct g m = (r, g', m') \<Longrightarrow>
     same_room g g' \<and> (\<exists>b. r = Inr b \<and> (b \<longrightarrow> is_connected (g_tcp g')))"
proof (induction n arbitrary: g m)
  case (Suc n)
  obtain r1 g1 m1 where once: "try_connect_once env host port g m = (r1, g1, m1)" by (metis prod_cases3)
  from try_connect_once_result [OF this] obtain b where "r1 = Inr b" and g1: "same_room g g1"
    "is_connected (g_tcp g1) = b" by blast
  with Suc.prems Suc.IH once show ?case
    by (cases b) (auto split: if_splits intro: same_room_trans)
qed auto

section \<open>Joining\<close>

lemma same_room_push [simp]:
  "g_center (push_forward f g) = g_center g" "g_use_port_forward (push_forward f g) = g_use_port_forward g"
  "g_minecraft_host (push_forward f g) = g_minecraft_host g"
  "g_minecraft_port (push_forward f g) = g_minecraft_port g"
  "g_custom_keys (push_forward f g) = g_custom_keys g" "g_heartbeat_ct (push_forward f g) = g_heartbeat_ct g"
  "g_loops (push_forward f g) = g_loops g" "g_easy_tier (push_forward f g) = g_easy_tier g"
  "g_negotiated (push_forward f g) = g_negotiated g" "g_tcp (push_forward f g) = g_tcp g"
  "g_config (push_forward f g) = None \<longleftrightarrow> g_config g = None"
  by (simp_all add: push_forward_def)

text \<open>What joining leaves as it was, and what it sets when it succeeds.\<close>

definition joined_from :: "nat \<Rightarrow> guest \<Rightarrow> unit res \<Rightarrow> guest \<Rightarrow> bool" where
  "joined_from ct g r g' \<longleftrightarrow>
     g_center g' = g_center g \<and> (g_config g' = None \<longleftrightarrow> g_config g = None)
   \<and> g_minecraft_host g' = g_minecraft_host g \<and> g_minecraft_port g' = g_minecraft_port g
   \<and> (negotiated_ok g \<longrightarrow> negotiated_ok g')
   \<and> (case r of
        Inr _ \<Rightarrow> is_connected (g_tcp g') \<and> g_heartbeat_ct g' = Some ct \<and> g_loops g' = g_loops g @ [ct]
      | Inl _ \<Rightarrow> g_heartbeat_ct g' = g_heartbeat_ct g \<and> g_loops g' = g_loops g
                 \<and> g_use_port_forward g' = g_use_port_forward g)"

lemma negotiated_ok_push [simp]: "negotiated_ok (push_forward f g) = negotiated_ok g"
  by (simp add: negotiated_ok_def my_protocols_def)

lemma negotiated_ok_joined [simp]:
  "negotiated_ok (start_heartbeat ct g) = negotiated_ok g"
  "negotiated_ok (g\<lparr>g_use_port_forward := b\<rparr>) = negotiated_ok g"
  by (simp_all add: negotiated_ok_def my_protocols_def start_heartbeat_def)

lemma joined_from_start:
  "same_room g g' \<Longrightarrow> is_connected (g_tcp g') \<Longrightarrow>
     joined_from ct g (Inr ()) (start_heartbeat ct (g'\<lparr>g_use_port_forward := b\<rparr>))"
  by (simp add: joined_from_def same_room_def) (simp add: start_heartbeat_def)

lemma joined_from_push: "joined_from ct (push_forward f g) r g' \<Longrightarrow> joined_from ct g r g'"
  by (auto simp: joined_from_def split: sum.splits)

lemma joined_from_room: "same_room g g' \<Longrightarrow> joined_from ct g' r g'' \<Longrightarrow> joined_from ct g r g''"
  by (auto simp: joined_from_def same_room_def split: sum.splits)

lemma joined_from_failed: "same_room g g' \<Longrightarrow> joined_from ct g (Inl e) g'"
  by (simp add: joined_from_def same_room_def)

lemma connect_center_result:
  assumes "connect_center env center ct g m = (r, g', m')"
  shows "joined_from ct g r g'"
proof -
  obtain r1 g1 m1 where once: "try_connect_once env (cd_virtual_ip center) (cd_port center) g m = (r1, g1, m1)"
    by (metis prod_cases3)
  from try_connect_once_result [OF this] obtain direct where r1: "r1 = Inr direct" and g1: "same_room g g1"
    "is_connected (g_tcp g1) = direct" by blast
  show ?thesis
  proof (cases direct)
    case True
    with assms once r1 g1 show ?thesis
      by (auto simp: connect_center_def intro: joined_from_start)
  next
    case False
    obtain lp m2 where lp: "env_free_port env m1 = (lp, m2)" by (cases "env_free_port env m1")
    let ?f = "forward_rule lp (cd_virtual_ip center) (cd_port center)"
    obtain pr m3 where patch: "apply_port_forward_patch env ?f (push_forward ?f g1) m2 = (pr, m3)"
      by (cases "apply_port_forward_patch env ?f (push_forward ?f g1) m2")
    obtain r2 g2 m4 where retry:
      "try_connect_with_retry env localhost lp 10 ct (push_forward ?f g1) m3 = (r2, g2, m4)"
      by (metis prod_cases3)
    from try_connect_with_retry_result [OF this] obtain b where r2: "r2 = Inr b"
      and g2: "same_room (push_forward ?f g1) g2" "b \<longrightarrow> is_connected (g_tcp g2)" by blast
    have "joined_from ct (push_forward ?f g1) r g'"
      using assms once r1 False lp patch retry r2 g2
      by (cases pr; cases b)
        (auto simp: connect_center_def intro: joined_from_start joined_from_failed)
    with g1 show ?thesis by (blast intro: joined_from_push joined_from_room)
  qed
qed

definition connected_from :: "nat \<Rightarrow> guest \<Rightarrow> unit res \<Rightarrow> guest \<Rightarrow> bool" where
  "connected_from ct g r g' \<longleftrightarrow>
     (g_center g' = g_center g \<and> g_config g' = g_config g \<and> r \<noteq> Inr ()
        \<or> g_center g' \<noteq> None \<and> g_config g' \<noteq> None)
   \<and> g_minecraft_host g' = g_minecraft_host g \<and> g_minecraft_port g' = g_minecraft_port g
   \<and> (negotiated_ok g \<longrightarrow> negotiated_ok g')
   \<and> (case r of
        Inr _ \<Rightarrow> is_connected (g_tcp g') \<and> g_heartbeat_ct g' = Some ct \<and> g_loops g' = g_loops g @ [ct]
      | Inl _ \<Rightarrow> g_heartbeat_ct g' = g_heartbeat_ct g \<and> g_loops g' = g_loops g
                 \<and> g_use_port_forward g' = g_use_port_forward g)"

lemma connected_from_start_failed: "connected_from ct g (Inl e) (g\<lparr>g_easy_tier := mgr\<rparr>)"
  by (simp add: connected_from_def negotiated_ok_def my_protocols_def)

lemma connected_from_joined:
  assumes "joined_from ct (g\<lparr>g_easy_tier := mgr, g_center := Some center, g_config := Some config\<rparr>) r g'"
  shows "connected_from ct g r g'"
  using assms
  by (auto simp: connected_from_def joined_from_def negotiated_ok_def my_protocols_def split: sum.splits)

lemma connect_result:
  assumes "connect env code ct g m = Some (r, g', m')"
  shows "connected_from ct g r g'"
proof -
  let ?config = "guest_config code g (env_system env m)"
  obtain sr mgr m1 where st: "start (env_lib env) ?config (g_easy_tier g) m = Some (sr, mgr, m1)"
    using assms by (cases "start (env_lib env) ?config (g_easy_tier g) m") (auto simp: connect_def)
  obtain dr m2 where d: "discover_from env mgr ct 60 m1 = (dr, m2)" by (cases "discover_from env mgr ct 60 m1")
  show ?thesis
  proof (cases sr)
    case (Inl e)
    with assms st show ?thesis by (auto simp: connect_def connected_from_start_failed)
  next
    case (Inr u)
    with assms st d show ?thesis
      by (cases dr)
        (auto simp: connect_def connected_from_start_failed intro: connected_from_joined connect_center_result)
  qed
qed

lemma connect_total:
  assumes "clock_advances (env_lib env)"
  shows "\<exists>r g' m'. connect env code ct g m = Some (r, g', m')"
proof -
  obtain sr mgr m1 where "start (env_lib env) (guest_config code g (env_system env m))
      (g_easy_tier g) m = Some (sr, mgr, m1)"
    using start_outcome [OF assms] by blast
  then show ?thesis
    by (cases sr; cases "discover_from env mgr ct 60 m1"; cases "fst (discover_from env mgr ct 60 m1)")
      (auto simp: connect_def split: prod.splits, metis prod_cases3)
qed

text \<open>
  C20: given a clock that advances, joining a room returns.  After success the guest holds a
  connection, knows the centre, and one more heartbeat loop runs under the given token; after any
  failure no heartbeat was started and the way the centre is reached is the one from before.
\<close>

theorem connect_returns:
  assumes "clock_advances (env_lib env)"
  shows "\<exists>r g' m'. connect env code ct g m = Some (r, g', m')
    \<and> (case r of
         Inr _ \<Rightarrow> is_connected (g_tcp g') \<and> g_heartbeat_ct g' = Some ct \<and> g_loops g' = g_loops g @ [ct]
                \<and> g_center g' \<noteq> None \<and> g_config g' \<noteq> None
       | Inl _ \<Rightarrow> g_heartbeat_ct g' = g_heartbeat_ct g \<and> g_loops g' = g_loops g
                \<and> g_use_port_forward g' = g_use_port_forward g)"
  using connect_total [OF assms, of code ct g m] connect_result [of env code ct g m]
  by (fastforce simp: connected_from_def split: sum.splits)

text \<open>An environment for the concrete instances: EasyTier is ready, and a silent network.\<close>

definition sample_env ::
  "(sample_net, string, string, string, string) guest_env" where
  "sample_env =
     \<lparr> env_lib = sample_lib True,
       env_net = \<lparr> net_connect = (\<lambda>_ _ m. (Connected 0, m)), net_write = (\<lambda>_ _ m. (Inr (), m)),
                   net_arrive = (\<lambda>_ _ m. (([], Some Closed), m)), net_close = (\<lambda>_ m. m) \<rparr>,
       env_rx = (\<lambda>_ _. None), env_js = body_json, env_ping_body = (\<lambda>_ _ _ _. Inr []),
       env_wait = (\<lambda>_ d m. (False, m\<lparr>sn_clock := sn_clock m + d\<rparr>)), env_is_cancelled = (\<lambda>_ _. False),
       env_cancel = (\<lambda>_ m. m), env_free_port = (\<lambda>m. (40000, m)), env_system = (\<lambda>_. bare_system) \<rparr>"

theorem connect_returns_witness:
  "\<exists>r g' m'. connect sample_env \<lparr>raw = [], network_name_part = [], secret_part = []\<rparr> 5 (new_guest ''g'' ''m'' ''v'' [] None)
      \<lparr>sn_running = [], sn_next = 0, sn_clock = 0\<rparr> = Some (r, g', m')"
  using connect_returns [of sample_env "\<lparr>raw = [], network_name_part = [], secret_part = []\<rparr>" 5 "new_guest ''g'' ''m'' ''v'' [] None"
      "\<lparr>sn_running = [], sn_next = 0, sn_clock = 0\<rparr>"] sample_lib_clock [of True]
  by (auto simp: sample_env_def)

section \<open>The Minecraft port\<close>

definition minecraft_address :: "guest \<Rightarrow> (string \<times> u16) option" where
  "minecraft_address g =
     (case (g_minecraft_host g, g_minecraft_port g) of (Some h, Some p) \<Rightarrow> Some (h, p) | _ \<Rightarrow> None)"

lemma map_minecraft_port_mapped:
  "g_config g \<noteq> None \<Longrightarrow> g_center g \<noteq> None \<Longrightarrow> minecraft_address g = Some (h, p) \<Longrightarrow>
     map_minecraft_port env g m = (Inr (h, p), g, m)"
  by (auto simp: map_minecraft_port_def minecraft_address_def split: option.splits)

lemma mapped_simps [simp]:
  "minecraft_address (g\<lparr>g_minecraft_host := Some h, g_minecraft_port := Some p\<rparr>) = Some (h, p)"
  "negotiated_ok (g\<lparr>g_minecraft_host := mh, g_minecraft_port := mp\<rparr>) = negotiated_ok g"
  "(\<exists>c. g_config (push_forward f g) = Some c) \<longleftrightarrow> (\<exists>c. g_config g = Some c)"
  by (auto simp: minecraft_address_def negotiated_ok_def my_protocols_def push_forward_def)

lemma get_server_port_room: "get_server_port env g m = (r, g', m') \<Longrightarrow> same_room g g'"
  by (auto simp: get_server_port_def split: prod.splits dest: send_raw_room)

text \<open>What mapping the port leaves: the same address as before, or the one it returned.\<close>

lemma map_minecraft_port_result:
  assumes "map_minecraft_port env g m = (r, g', m')"
  shows "g_center g' = g_center g \<and> (g_config g' = None \<longleftrightarrow> g_config g = None)
       \<and> g_use_port_forward g' = g_use_port_forward g \<and> (negotiated_ok g \<longrightarrow> negotiated_ok g')
       \<and> (case r of
            Inr hp \<Rightarrow> minecraft_address g' = Some hp \<and> g_config g' \<noteq> None \<and> g_center g' \<noteq> None
                    \<and> (\<forall>a. minecraft_address g = Some a \<longrightarrow> a = hp)
          | Inl _ \<Rightarrow> g_minecraft_host g' = g_minecraft_host g \<and> g_minecraft_port g' = g_minecraft_port g)"
proof (cases "g_config g = None \<or> g_center g = None")
  case True
  with assms show ?thesis by (auto simp: map_minecraft_port_def)
next
  case joined: False
  show ?thesis
  proof (cases "minecraft_address g")
    case (Some hp)
    with joined assms map_minecraft_port_mapped [of g _ _ env m] show ?thesis by (cases hp) auto
  next
    case None
    obtain pr g1 m1 where p: "get_server_port env g m = (pr, g1, m1)" by (metis prod_cases3)
    have room: "same_room g g1" using get_server_port_room [OF p] .
    obtain lp m2 where lp: "env_free_port env m1 = (lp, m2)" by (cases "env_free_port env m1")
    from joined obtain center config where c: "g_center g = Some center" "g_config g = Some config" by auto
    have unmapped: "map_minecraft_port env g m =
       (case pr of
          Inl e \<Rightarrow> (Inl e, g1, m1)
        | Inr mc_port \<Rightarrow>
            if \<not> g_use_port_forward g1
            then (Inr (cd_virtual_ip center, mc_port),
                  g1\<lparr>g_minecraft_host := Some (cd_virtual_ip center), g_minecraft_port := Some mc_port\<rparr>, m1)
            else let f = forward_rule lp (cd_virtual_ip center) mc_port; g = push_forward f g1
                 in case apply_port_forward_patch env f g m2 of
                      (Inl e, m) \<Rightarrow> (Inl e, g, m)
                    | (Inr _, m) \<Rightarrow> (Inr (localhost, lp),
                        g\<lparr>g_minecraft_host := Some localhost, g_minecraft_port := Some lp\<rparr>, m))"
      using None p lp c room
      by (cases "g_minecraft_host g"; cases "g_minecraft_port g")
        (simp_all add: map_minecraft_port_def minecraft_address_def same_room_def split: sum.split)
    show ?thesis
      using assms room joined None unfolding unmapped
      by (auto simp: Let_def same_room_def split: sum.splits if_splits prod.splits)
  qed
qed

section \<open>The guest as a system\<close>

text \<open>
  The calls a user of the guest can make, the iterations of the heartbeat loops, and changes of the
  world by others.  A call is one step: the calls run one after the other.  (\<open>send_json\<close> and
  \<open>send_json_req\<close> act as \<open>Sending\<close> or change nothing.)
\<close>

datatype guest_op =
    Connecting room_code nat
  | Pinging
  | Asking_port
  | Mapping
  | Listing
  | Sending protocol_request
  | Leaving
  | Subscribing
  | Beating nat wake
  | World_change

inductive guest_step ::
  "('m, 'i, 'u, 'v, 'j) guest_env \<Rightarrow> guest \<times> 'm \<Rightarrow> guest_op \<Rightarrow> guest \<times> 'm \<Rightarrow> bool"
  for env where
  connecting: "connect env code ct g m = Some (r, g', m') \<Longrightarrow>
     guest_step env (g, m) (Connecting code ct) (g', m')"
| pinging: "ping env g m = (b, g', m') \<Longrightarrow> guest_step env (g, m) Pinging (g', m')"
| asking: "get_server_port env g m = (p, g', m') \<Longrightarrow> guest_step env (g, m) Asking_port (g', m')"
| mapping: "map_minecraft_port env g m = (a, g', m') \<Longrightarrow> guest_step env (g, m) Mapping (g', m')"
| listing: "get_player_list env g m = (ps, g', m') \<Longrightarrow> guest_step env (g, m) Listing (g', m')"
| sending: "send_raw env request g m = (resp, g', m') \<Longrightarrow> guest_step env (g, m) (Sending request) (g', m')"
| leaving: "leave env g m = (g', m') \<Longrightarrow> guest_step env (g, m) Leaving (g', m')"
| subscribing: "guest_step env (g, m) Subscribing (connection_lost_rx g, m)"
| beating: "i < length (g_loops g) \<Longrightarrow> heartbeat_iteration (guest_heartbeat env) w (g, m) = (ended, (g', m')) \<Longrightarrow>
     guest_step env (g, m) (Beating i w)
       ((if ended then g'\<lparr>g_loops := remove_at i (g_loops g')\<rparr> else g'), m')"
| world_change: "guest_step env (g, m) World_change (g, m')"

inductive_cases leavingE: "guest_step env s Leaving s'"
inductive_simps guest_step_mapping: "guest_step env (g, m) Mapping (g', m')"

text \<open>A guest that talked to nobody but the centre, or whose tasks changed.\<close>

definition same_map :: "guest \<Rightarrow> guest \<Rightarrow> bool" where
  "same_map g g' \<longleftrightarrow>
     g_center g' = g_center g \<and> (g_config g' = None \<longleftrightarrow> g_config g = None)
   \<and> g_minecraft_host g' = g_minecraft_host g \<and> g_minecraft_port g' = g_minecraft_port g
   \<and> g_custom_keys g' = g_custom_keys g \<and> (negotiated_ok g \<longrightarrow> negotiated_ok g')"

lemma same_room_map: "same_room g g' \<Longrightarrow> same_map g g'"
  by (simp add: same_room_def same_map_def)

lemma ping_room: "ping env g m = (b, g', m') \<Longrightarrow> same_room g g'"
  by (auto simp: ping_def split: prod.splits dest: send_raw_room)

lemma get_player_list_room: "get_player_list env g m = (ps, g', m') \<Longrightarrow> same_room g g'"
  by (auto simp: get_player_list_def split: prod.splits dest: send_raw_room)

lemma heartbeat_room:
  "heartbeat_iteration (guest_heartbeat env) w (g, m) = (ended, (g', m')) \<Longrightarrow> same_room g g'"
  by (auto simp: heartbeat_iteration_def guest_heartbeat_def
      split: wake.splits if_splits sum.splits prod.splits dest: send_raw_room
      intro: same_room_trans [OF _ same_room_lost(1)])

lemma leave_map: "leave env g m = (g', m') \<Longrightarrow> same_map g g'"
  by (auto simp: leave_def stop_heartbeat_def hang_up_def same_map_def negotiated_ok_def my_protocols_def
      split: prod.splits option.splits)

text \<open>
  The invariant: the configuration and the centre are known together, the two halves of the mapped
  address too, an address is only mapped in a room, and only own protocols are negotiated.
\<close>

fun guest_inv :: "guest \<times> 'm \<Rightarrow> bool" where
  "guest_inv (g, m) \<longleftrightarrow>
     (g_config g = None \<longleftrightarrow> g_center g = None)
   \<and> (g_minecraft_host g = None \<longleftrightarrow> g_minecraft_port g = None)
   \<and> (g_minecraft_host g \<noteq> None \<longrightarrow> g_center g \<noteq> None)
   \<and> negotiated_ok g"

fun guest_init :: "guest \<times> 'm \<Rightarrow> bool" where
  "guest_init (g, m) \<longleftrightarrow> (\<exists>name mid vendor keys nodes. g = new_guest name mid vendor keys nodes)"

lemma guest_init_new: "guest_init (new_guest name mid vendor keys nodes, m)"
  unfolding guest_init.simps by (intro exI, rule refl)

text \<open>The life of a guest in the abstract: it joins, and it maps an address once.\<close>

fun guest_life :: "guest \<times> 'm \<Rightarrow> bool \<times> (string \<times> u16) option" where
  "guest_life (g, m) = (g_center g \<noteq> None, minecraft_address g)"

datatype life_label = Join | Map_address

inductive life_step ::
  "bool \<times> (string \<times> u16) option \<Rightarrow> life_label \<Rightarrow> bool \<times> (string \<times> u16) option \<Rightarrow> bool" where
  join: "life_step (joined, a) Join (True, a)"
| map_address: "life_step (True, None) Map_address (True, Some a)"

definition life_init :: "bool \<times> (string \<times> u16) option \<Rightarrow> bool" where
  "life_init l \<longleftrightarrow> l = (False, None)"

lemma same_map_step:
  assumes "same_map g g'" and "guest_inv (g, m)"
  shows "guest_inv (g', m')" and "guest_life (g', m') = guest_life (g, m)"
  using assms by (auto simp: same_map_def minecraft_address_def)

lemma guest_step_cases:
  assumes "guest_step env (g, m) l (g', m')"
  obtains (same) "same_map g g'"
  | (connected) ct r where "connected_from ct g r g'"
  | (mapped) r where "map_minecraft_port env g m = (r, g', m')"
  using assms
proof (cases rule: guest_step.cases)
  case (connecting code ct r)
  from connect_result [OF connecting(2)] show ?thesis by (rule that(2))
next
  case pinging
  from same_room_map [OF ping_room [OF pinging(2)]] show ?thesis by (rule that(1))
next
  case asking
  from same_room_map [OF get_server_port_room [OF asking(2)]] show ?thesis by (rule that(1))
next
  case mapping
  then show ?thesis using that(3) by simp
next
  case listing
  from same_room_map [OF get_player_list_room [OF listing(2)]] show ?thesis by (rule that(1))
next
  case sending
  from same_room_map [OF send_raw_room [OF sending(2)]] show ?thesis by (rule that(1))
next
  case leaving
  from leave_map [OF leaving(2)] show ?thesis by (rule that(1))
next
  case (subscribing)
  with same_room_map [OF same_room_lost(2), of g] show ?thesis by (intro that(1)) simp
next
  case (beating i w ended g1)
  have "same_room g g1" using heartbeat_room [OF beating(4)] .
  with beating have "same_map g g'"
    by (auto simp: same_map_def same_room_def negotiated_ok_def my_protocols_def)
  then show ?thesis by (rule that(1))
next
  case (world_change)
  with same_room_map [OF same_room_refl, of g] show ?thesis by (intro that(1)) simp
qed

text \<open>Every step keeps the invariant, and is a step of the abstract life or none.\<close>

lemma guest_step_refines:
  assumes "guest_inv (g, m)" and "guest_step env (g, m) l (g', m')"
  shows "guest_inv (g', m') \<and> (guest_life (g', m') = guest_life (g, m)
       \<or> (\<exists>b. life_step (guest_life (g, m)) b (guest_life (g', m'))))"
  using assms(2)
proof (cases rule: guest_step_cases)
  case same
  from same_map_step [OF same assms(1), of m'] show ?thesis by (intro conjI disjI1)
next
  case (connected ct r)
  have same_address: "minecraft_address g' = minecraft_address g"
    using connected by (simp add: connected_from_def minecraft_address_def)
  have "guest_inv (g', m')" using connected assms(1) by (auto simp: connected_from_def)
  with connected same_address show ?thesis
    by (cases "g_center g' = None") (auto simp: connected_from_def intro: join)
next
  case (mapped r)
  note res = map_minecraft_port_result [OF mapped]
  show ?thesis
  proof (cases r)
    case (Inl e)
    with res assms(1) show ?thesis by (auto simp: minecraft_address_def)
  next
    case (Inr hp)
    with res have a': "minecraft_address g' = Some hp" "g_center g' \<noteq> None" "g_center g \<noteq> None"
      "g_config g' \<noteq> None" and keep: "negotiated_ok g \<longrightarrow> negotiated_ok g'"
      by (simp_all only: sum.case) (elim conjE, simp only: not_None_eq; fail | metis)+
    then have "g_minecraft_host g' \<noteq> None" "g_minecraft_port g' \<noteq> None"
      by (auto simp: minecraft_address_def split: option.splits)
    with a' keep assms(1) have "guest_inv (g', m')" by auto
    moreover have "guest_life (g', m') = guest_life (g, m)
        \<or> life_step (guest_life (g, m)) Map_address (guest_life (g', m'))"
    proof (cases "minecraft_address g")
      case None
      with a' show ?thesis by (simp add: map_address)
    next
      case (Some a)
      with Inr res have "a = hp" by simp
      with Some a' show ?thesis by simp
    qed
    ultimately show ?thesis by blast
  qed
qed

interpretation guest_system: refinement_system guest_init "guest_step env" guest_inv
  guest_life life_init life_step
  for env :: "('m, 'i, 'u, 'v, 'j) guest_env"
proof unfold_locales
  fix s s' :: "guest \<times> 'm" and l
  show "guest_inv s" "life_init (guest_life s)" if "guest_init s"
    using that by (cases s; auto simp: new_guest_def negotiated_ok_def life_init_def minecraft_address_def)+
  assume "guest_inv s" "guest_step env s l s'"
  then show "guest_inv s'" "guest_life s' = guest_life s \<or> (\<exists>b. life_step (guest_life s) b (guest_life s'))"
    using guest_step_refines [of "fst s" "snd s" env l "fst s'" "snd s'"] by simp_all
qed

lemma life_keeps_address: "run life_step (j, Some a) ls l' \<Longrightarrow> \<exists>j'. l' = (j', Some a)"
proof (induction "(j, Some a)" ls l' arbitrary: j rule: run.induct)
  case (run_Cons l s' ls s'')
  from run_Cons(1) have "\<exists>j'. s' = (j', Some a)" by (cases rule: life_step.cases) auto
  with run_Cons(3) show ?case by blast
qed simp

text \<open>
  In every reachable state of a guest the network configuration and the centre are known
  together, the two halves of the mapped Minecraft address too, an address is mapped only in a room,
  and only protocols the guest itself offers count as negotiated.
\<close>

lemma guest_invariant:
  assumes "reach guest_init (guest_step env) (g, m)"
  shows "(g_config g = None \<longleftrightarrow> g_center g = None)
       \<and> (g_minecraft_host g = None \<longleftrightarrow> g_minecraft_port g = None)
       \<and> (g_minecraft_host g \<noteq> None \<longrightarrow> g_center g \<noteq> None)
       \<and> set (g_negotiated g) \<subseteq> set (standard_protocols @ g_custom_keys g)"
  using guest_system.inv_reach [OF assms] by (auto simp: negotiated_ok_def my_protocols_def)

text \<open>
  C28: once \<open>map_minecraft_port\<close> has returned an address, it returns that address for the rest of the
  guest's life, whatever calls are made one after the other: it still does after \<open>leave\<close>, where no room is joined,
  and after joining another room.
\<close>

theorem mapped_address_is_final:
  assumes "guest_inv (g, m)" and "map_minecraft_port env g m = (Inr a, g1, m1)"
    and "run (guest_step env) (g1, m1) ls (g2, m2)"
  shows "map_minecraft_port env g2 m2 = (Inr a, g2, m2)"
proof -
  have inv1: "guest_inv (g1, m1)" using guest_system.inv_step [OF assms(1) mapping [OF assms(2)]] .
  have "minecraft_address g1 = Some a" using map_minecraft_port_result [OF assms(2)] by simp
  then have "minecraft_address g2 = Some a"
    using guest_system.abs_run [OF assms(3) inv1] life_keeps_address by fastforce
  moreover have "guest_inv (g2, m2)" using guest_system.inv_run [OF assms(3) inv1] .
  ultimately show ?thesis
    by (cases a) (auto intro!: map_minecraft_port_mapped simp: minecraft_address_def split: option.splits)
qed

theorem mapped_address_is_final_witness:
  "let g = (new_guest ''g'' ''m'' ''v'' [] None)
             \<lparr>g_config := Some default_network_config,
              g_center := Some \<lparr>cd_virtual_ip = ''10.144.144.1'', cd_port = 2000\<rparr>,
              g_minecraft_host := Some ''10.144.144.1'', g_minecraft_port := Some 25565\<rparr>;
       (g', m') = leave sample_env g \<lparr>sn_running = [], sn_next = 0, sn_clock = 0\<rparr>
   in map_minecraft_port sample_env g' m' = (Inr (''10.144.144.1'', 25565), g', m')"
proof -
  let ?m = "\<lparr>sn_running = [], sn_next = 0, sn_clock = 0\<rparr>"
  let ?g = "(new_guest ''g'' ''m'' ''v'' [] None)
             \<lparr>g_config := Some default_network_config,
              g_center := Some \<lparr>cd_virtual_ip = ''10.144.144.1'', cd_port = 2000\<rparr>,
              g_minecraft_host := Some ''10.144.144.1'', g_minecraft_port := Some 25565\<rparr>"
  obtain g' m' where l: "leave sample_env ?g ?m = (g', m')" by (cases "leave sample_env ?g ?m")
  have "guest_inv (?g, ?m)" by (simp add: new_guest_def negotiated_ok_def)
  moreover have "map_minecraft_port sample_env ?g ?m = (Inr (''10.144.144.1'', 25565), ?g, ?m)"
    by (rule map_minecraft_port_mapped) (simp_all add: minecraft_address_def)
  moreover have "run (guest_step sample_env) (?g, ?m) [Leaving] (g', m')"
    by (rule run_Cons [where step = "guest_step sample_env"], rule leaving [OF l], rule run_Nil)
  ultimately have "map_minecraft_port sample_env g' m' = (Inr (''10.144.144.1'', 25565), g', m')"
    by (rule mapped_address_is_final)
  with l show ?thesis by (simp add: Let_def)
qed

section \<open>Custom protocols\<close>

text \<open>
  A custom protocol that was not negotiated is never sent: both JSON calls return the error for it
  and leave the guest and the world as they were.  A negotiated one with a valid key goes out as
  exactly one request, with the namespace and type of the key.
\<close>

lemma only_negotiated_is_sent:
  "(key \<notin> set (g_negotiated g) \<longrightarrow>
      (\<exists>msg. send_json env from_slice key g m = (Inl (ProtocolNotNegotiated msg), g, m)
           \<and> send_json_req env to_vec from_slice key payload g m = (Inl (ProtocolNotNegotiated msg), g, m)))
 \<and> (key \<in> set (g_negotiated g) \<longrightarrow> key = ns @ '':'' @ ty \<longrightarrow> CHR '':'' \<notin> set ns \<longrightarrow> to_vec payload = Inr body \<longrightarrow>
      send_json_req env to_vec from_slice key payload g m =
        (let (r, g', m') = send_raw env \<lparr>namespace = ns, request_type = ty, req_body = body\<rparr> g m
         in (rbind r (json_response key from_slice), g', m')))"
  by (auto simp: send_json_def send_json_req_def ensure_negotiated_def split_key_def split_once_append)

end
