(* ===== verification/Center.thy ===== *)
theory Center
  imports Tcp_Server Easy_Tier Bind_Ip Room_Code Watch
begin

text \<open>
  The centre (\<open>center/scaffolding_center.rs\<close>): the room with its players, the protocols it serves,
  starting, closing, and the operations on machines and peers.  The accept loop of the TCP server
  (\<open>center/tcp_server.rs\<close>) runs in a task that takes the server out of its slot.
\<close>

section \<open>The room\<close>

text \<open>
  The players with what was sent to subscribers, the channel they listen on, and the outcomes of the
  lock attempts: \<open>lock_outcomes r k\<close> are those of the \<open>k\<close>-th call that tries the lock.
\<close>

record center_room =
  room_roster :: roster_state
  players_feed :: "player_info list watch"
  lock_outcomes :: "nat \<Rightarrow> lock_tries"
  lock_calls :: nat

definition new_room :: "(nat \<Rightarrow> lock_tries) \<Rightarrow> center_room" where
  "new_room locks =
     \<lparr> room_roster = \<lparr>players = [], players_changed = []\<rparr>, players_feed = watch_channel [],
       lock_outcomes = locks, lock_calls = 0 \<rparr>"

text \<open>One notification went out.\<close>

definition publish :: "roster_state \<Rightarrow> center_room \<Rightarrow> center_room" where
  "publish s r =
     r\<lparr>room_roster := s, players_feed := watch_send (List.last (players_changed s)) (players_feed r)\<rparr>"

definition handle_player_ping :: "player_info \<Rightarrow> center_room \<Rightarrow> center_room" where
  "handle_player_ping info r =
     publish (on_player_ping_impl (lock_outcomes r (lock_calls r)) (lock_outcomes r (lock_calls r + 1))
                info (room_roster r))
       (r\<lparr>lock_calls := lock_calls r + 2\<rparr>)"

definition client_disconnected :: "string option \<Rightarrow> center_room \<Rightarrow> center_room" where
  "client_disconnected machine_id r =
     publish (on_client_disconnected_impl (lock_outcomes r (lock_calls r)) (lock_outcomes r (lock_calls r + 1))
                machine_id (room_roster r))
       (r\<lparr>lock_calls := lock_calls r + 2\<rparr>)"

definition room_players :: "center_room \<Rightarrow> player_info list \<times> center_room" where
  "room_players r =
     (get_players (lock_outcomes r (lock_calls r)) (room_roster r), r\<lparr>lock_calls := lock_calls r + 1\<rparr>)"

definition players_changed_rx :: "center_room \<Rightarrow> center_room" where
  "players_changed_rx r = r\<lparr>players_feed := watch_subscribe (players_feed r)\<rparr>"

text \<open>Adding the host: an asynchronous write lock, which waits, and the notification.\<close>

definition add_host :: "player_info \<Rightarrow> center_room \<Rightarrow> center_room" where
  "add_host host r =
     publish (notify_players_changed (lock_outcomes r (lock_calls r))
                ((room_roster r)\<lparr>players := players (room_roster r) @ [host]\<rparr>))
       (r\<lparr>lock_calls := lock_calls r + 1\<rparr>)"

section \<open>The protocols\<close>

definition standard_keys :: "string list" where
  "standard_keys =
     [''c:ping'', ''c:protocols'', ''c:server_port'', ''c:player_ping'', ''c:player_profiles_list'',
      ''c:player_easytier_id'']"

text \<open>The check of the custom keys against \<open>seen\<close>, which grows.\<close>

fun check_keys :: "string list \<Rightarrow> 's protocol_handler list \<Rightarrow> unit res" where
  "check_keys seen [] = Inr ()"
| "check_keys seen (proto # protos) =
     (if handler_key proto \<in> set seen then Inl (Protocol (msg_key_conflict @ handler_key proto))
      else check_keys (seen @ [handler_key proto]) protos)"

type_synonym ping_hook = "player_info \<Rightarrow> center_room \<Rightarrow> bool \<times> center_room"

definition center_protocols ::
  "'j serde_json \<Rightarrow> ping_hook option \<Rightarrow> u16 \<Rightarrow> center_room protocol_handler list
     \<Rightarrow> center_room protocol_handler list" where
  "center_protocols js hook mc_port custom =
     [ping_protocol,
      protocols_protocol (standard_keys @ map handler_key custom),
      server_port_protocol mc_port,
      player_ping_protocol js (\<lambda>info r.
        case hook of Some handler \<Rightarrow> handler info r | None \<Rightarrow> (True, handle_player_ping info r)),
      player_profiles_list_protocol js room_players] @ custom"

section \<open>The TCP server and its slot\<close>

record tcp_server =
  ts_protocols :: "string \<rightharpoonup> center_room protocol_handler"
  ts_listening :: bool
  ts_port :: u16
  ts_state :: "center_room server"

definition new_tcp_server ::
  "u16 \<Rightarrow> center_room protocol_handler list \<Rightarrow> nat \<Rightarrow> center_room \<Rightarrow> tcp_server" where
  "new_tcp_server port protocols t room =
     \<lparr> ts_protocols = protocol_map protocols, ts_listening = False, ts_port = port,
       ts_state = new_server t room \<rparr>"

text \<open>The start of \<open>TcpServer::start\<close>, given the outcome of binding; \<open>Inr\<close> is the bound port.\<close>

definition bind_server :: "string + u16 \<Rightarrow> tcp_server \<Rightarrow> unit res \<times> tcp_server" where
  "bind_server bound s =
     (if ts_listening s then (Inl (Protocol msg_tcp_started), s)
      else case bound of
             Inl e \<Rightarrow>
               (Inl (Protocol (msg_tcp_port @ show_nat (unat (ts_port s)) @ msg_bind_failed @ e)), s)
           | Inr p \<Rightarrow> (Inr (), s\<lparr>ts_port := p, ts_listening := True\<rparr>))"

definition stop_server :: "tcp_server \<Rightarrow> tcp_server" where
  "stop_server s = s\<lparr>ts_state := cancel_server (ts_state s), ts_listening := False\<rparr>"

text \<open>The task that serves: not spawned, about to take the server, in the accept loop, or over.\<close>

datatype serve_task = Not_spawned | Spawned | Running tcp_server | Over

record center =
  c_room_code :: room_code
  c_player_name :: string
  c_machine_id :: string
  c_vendor :: string
  c_minecraft_port :: u16
  c_easy_tier :: easy_tier_manager
  c_room :: center_room
  c_slot :: "tcp_server option"
  c_relay_nodes :: "string list option"
  c_custom :: "center_room protocol_handler list"
  c_tcp_port :: u16
  c_server_ct :: "nat option"
  c_hook :: "ping_hook option"
  c_task :: serve_task
  c_consumed :: nat

definition new_center ::
  "room_code \<Rightarrow> string \<Rightarrow> string \<Rightarrow> string \<Rightarrow> u16 \<Rightarrow> string list option \<Rightarrow> center_room protocol_handler list
     \<Rightarrow> (nat \<Rightarrow> lock_tries) \<Rightarrow> center" where
  "new_center code player_name machine_id vendor mc_port nodes custom locks =
     \<lparr> c_room_code = code, c_player_name = player_name, c_machine_id = machine_id, c_vendor = vendor,
       c_minecraft_port = mc_port, c_easy_tier = new_manager, c_room = new_room locks, c_slot = None,
       c_relay_nodes = nodes, c_custom = custom, c_tcp_port = 0, c_server_ct = None, c_hook = None,
       c_task = Not_spawned, c_consumed = 0 \<rparr>"

definition set_player_ping_handler :: "ping_hook \<Rightarrow> center \<Rightarrow> center" where
  "set_player_ping_handler h c = c\<lparr>c_hook := Some h\<rparr>"

text \<open>The task takes the server and binds its port; if that fails it stops it and puts it back.\<close>

definition task_begins :: "string + u16 \<Rightarrow> center \<Rightarrow> center" where
  "task_begins bound c =
     (case c_slot c of
        None \<Rightarrow> c\<lparr>c_task := Over\<rparr>
      | Some s \<Rightarrow>
          (case bind_server bound s of
             (Inr _, s) \<Rightarrow> c\<lparr>c_slot := None, c_task := Running s\<rparr>
           | (Inl _, s) \<Rightarrow> c\<lparr>c_slot := Some (stop_server s), c_task := Over\<rparr>))"

text \<open>The accept loop has ended: the server is stopped and put back.\<close>

definition task_ends :: "center \<Rightarrow> center" where
  "task_ends c =
     (case c_task c of
        Running s \<Rightarrow> c\<lparr>c_slot := Some (stop_server s), c_task := Over\<rparr>
      | _ \<Rightarrow> c)"

text \<open>Cancelling the token the server was started with.\<close>

definition cancel_running :: "center \<Rightarrow> center" where
  "cancel_running c =
     (case c_task c of
        Running s \<Rightarrow> c\<lparr>c_task := Running (s\<lparr>ts_state := cancel_server (ts_state s)\<rparr>)\<rparr>
      | _ \<Rightarrow> c)"

section \<open>Starting\<close>

text \<open>
  The environment: EasyTier, \<open>serde_json\<close>, whether a port can be bound at the moment, binding it
  for the server, cancelling the caller's token, and what the operating system tells.
\<close>

record ('m, 'i, 'u, 'v, 'j) center_env =
  ce_lib :: "('m, 'i, 'u, 'v) easytier_lib"
  ce_js :: "'j serde_json"
  ce_bindable :: "'m \<Rightarrow> u16 \<Rightarrow> bool"
  ce_bind :: "u16 \<Rightarrow> 'm \<Rightarrow> (string + u16) \<times> 'm"
  ce_cancel :: "nat \<Rightarrow> 'm \<Rightarrow> 'm"
  ce_system :: "'m \<Rightarrow> host_system"

definition scan_port :: "(u16 \<Rightarrow> bool) \<Rightarrow> u16" where
  "scan_port can_bind =
     (case find can_bind (map word_of_nat [1025 ..< 65535]) of Some p \<Rightarrow> p | None \<Rightarrow> 25000)"

definition center_config :: "center \<Rightarrow> host_system \<Rightarrow> network_config" where
  "center_config c sys =
     default_network_config\<lparr>
       network_name := easy_tier_network_name (c_room_code c),
       network_secret := easy_tier_network_secret (c_room_code c),
       nc_hostname := ''scaffolding-mc-server-'' @ show_nat (unat (c_tcp_port c)),
       no_tun := \<not> is_elevated (hs_token sys), ipv4 := Some ''10.144.144.1'', dhcp := False,
       tcp_whitelist := [show_nat (unat (c_tcp_port c)), show_nat (unat (c_minecraft_port c))],
       relay_nodes := c_relay_nodes c, bind_ip := resolve_bind_ip (hs_interfaces sys) \<rparr>"

definition host_player :: "center \<Rightarrow> player_info" where
  "host_player c =
     \<lparr> pi_name = c_player_name c, pi_machine_id = c_machine_id c,
       pi_easytier_id = mgr_node_id (c_easy_tier c), pi_vendor = c_vendor c, pi_kind = Host \<rparr>"

text \<open>A server that could not be bound has the caller's token already, and is stopped: the token is cancelled.\<close>

definition bind_effect :: "('m, 'i, 'u, 'v, 'j) center_env \<Rightarrow> nat \<Rightarrow> string + u16 \<Rightarrow> 'm \<Rightarrow> 'm" where
  "bind_effect env ct bound m = (case bound of Inl _ \<Rightarrow> ce_cancel env ct m | Inr _ \<Rightarrow> m)"

text \<open>The second half of \<open>start\<close>: joining the network and listing the host; \<open>None\<close> if EasyTier never returned.\<close>

definition start_network ::
  "('m, 'i, 'u, 'v, 'j) center_env \<Rightarrow> center \<Rightarrow> 'm \<Rightarrow> (unit res \<times> center \<times> 'm) option" where
  "start_network env c m =
     (case start (ce_lib env) (center_config c (ce_system env m)) (c_easy_tier c) m of
        None \<Rightarrow> None
      | Some (Inl e, mgr, m) \<Rightarrow> Some (Inl e, c\<lparr>c_easy_tier := mgr\<rparr>, m)
      | Some (Inr _, mgr, m) \<Rightarrow>
          (let c = c\<lparr>c_easy_tier := mgr\<rparr>
           in Some (Inr (), c\<lparr>c_room := add_host (host_player c) (c_room c)\<rparr>, m)))"

text \<open>
  \<open>start\<close>, when nobody else acts on the centre while it runs.  The task that serves gets its turn during
  the sleep of 200 ms, before EasyTier is started.  What clients and other callers can do meanwhile
  is in \<open>Center_Tasks\<close>.
\<close>

definition center_start ::
  "('m, 'i, 'u, 'v, 'j) center_env \<Rightarrow> nat \<Rightarrow> center \<Rightarrow> 'm \<Rightarrow> (unit res \<times> center \<times> 'm) option" where
  "center_start env ct c m =
     (let tcp_port = scan_port (ce_bindable env m);
          c = c\<lparr>c_tcp_port := tcp_port\<rparr>
      in case check_keys standard_keys (c_custom c) of
           Inl e \<Rightarrow> Some (Inl e, c, m)
         | Inr _ \<Rightarrow>
             (let protocols = center_protocols (ce_js env) (c_hook c) (c_minecraft_port c) (c_custom c);
                  s = new_tcp_server tcp_port protocols (lib_now (ce_lib env) m) (c_room c);
                  c = c\<lparr>c_slot := Some s, c_server_ct := Some ct, c_task := Spawned, c_consumed := 0\<rparr>;
                  (bound, m) = ce_bind env tcp_port m;
                  c = task_begins bound c
              in start_network env c (lib_sleep (ce_lib env) 200 (bind_effect env ct bound m))))"

section \<open>Operations on the room, on machines and on peers\<close>

definition remove_player :: "string \<Rightarrow> center \<Rightarrow> center" where
  "remove_player machine_id c = c\<lparr>c_room := client_disconnected (Some machine_id) (c_room c)\<rparr>"

definition center_get_players :: "center \<Rightarrow> player_info list \<times> center" where
  "center_get_players c = (let (l, r) = room_players (c_room c) in (l, c\<lparr>c_room := r\<rparr>))"

definition center_machine_source_ip :: "string list \<Rightarrow> string \<Rightarrow> center \<Rightarrow> string option" where
  "center_machine_source_ip order machine_id c =
     (case c_slot c of
        Some s \<Rightarrow> machine_source_ip (registry (ts_state s)) order machine_id
      | None \<Rightarrow> None)"

definition center_disconnect_machine :: "string list \<Rightarrow> string \<Rightarrow> center \<Rightarrow> bool \<times> center" where
  "center_disconnect_machine order machine_id c =
     (case c_slot c of
        Some s \<Rightarrow>
          (let (found, st) = disconnect_machine order machine_id (ts_state s)
           in (found, c\<lparr>c_slot := Some (s\<lparr>ts_state := st\<rparr>)\<rparr>))
      | None \<Rightarrow> (False, c))"

definition easy_tier_nodes :: "('m, 'i, 'u, 'v, 'j) center_env \<Rightarrow> center \<Rightarrow> 'm \<Rightarrow> easy_tier_node list" where
  "easy_tier_nodes env c m = get_nodes (ce_lib env) (c_easy_tier c) m"

definition center_disconnect_peer ::
  "('m, 'i, 'u, 'v, 'j) center_env \<Rightarrow> center \<Rightarrow> string \<Rightarrow> 'm \<Rightarrow> unit res \<times> 'm" where
  "center_disconnect_peer env c peer m = disconnect_peer (ce_lib env) (c_easy_tier c) peer m"

definition center_deny_peer ::
  "('m, 'i, 'u, 'v, 'j) center_env \<Rightarrow> center \<Rightarrow> string \<Rightarrow> 'm \<Rightarrow> unit res \<times> 'm" where
  "center_deny_peer env c peer m = deny_peer (ce_lib env) (c_easy_tier c) peer m"

definition center_allow_peer ::
  "('m, 'i, 'u, 'v, 'j) center_env \<Rightarrow> center \<Rightarrow> string \<Rightarrow> 'm \<Rightarrow> unit res \<times> 'm" where
  "center_allow_peer env c peer m = allow_peer (ce_lib env) (c_easy_tier c) peer m"

definition center_close ::
  "('m, 'i, 'u, 'v, 'j) center_env \<Rightarrow> center \<Rightarrow> 'm \<Rightarrow> unit res \<times> center \<times> 'm" where
  "center_close env c m =
     (let c = c\<lparr>c_slot := None\<rparr>;
          (c, m) = (case c_server_ct c of
              Some ct \<Rightarrow> (cancel_running (c\<lparr>c_server_ct := None\<rparr>), ce_cancel env ct m)
            | None \<Rightarrow> (c, m));
          (r, mgr, m) = stop (ce_lib env) (c_easy_tier c) m
      in (r, c\<lparr>c_easy_tier := mgr\<rparr>, m))"

section \<open>The centre at work\<close>

text \<open>
  The tasks of the running server act on the room through its handlers, and so do the connections of a
  stopped one until they have ended; the consumer of the disconnection events takes them in order, the
  empty string standing for no machine id; the owner calls the operations above.
\<close>

datatype center_label =
    Serve server_label
  | Wind_up server_label
  | Consume
  | Remove string
  | Ping_player player_info
  | List_players
  | Subscribe
  | Task_end

text \<open>The server whose connections and events there are: the one that runs, or a stopped one in the slot.\<close>

definition at_work :: "center \<Rightarrow> tcp_server \<Rightarrow> bool" where
  "at_work c s \<longleftrightarrow> c_task c = Running s \<or> c_task c = Over \<and> c_slot c = Some s"

inductive center_step :: "'j serde_json \<Rightarrow> center \<Rightarrow> center_label \<Rightarrow> center \<Rightarrow> bool" for js where
  serve: "c_task c = Running s \<Longrightarrow> l \<noteq> Shared_change \<Longrightarrow>
     server_step js (ts_protocols s) ((ts_state s)\<lparr>shared := c_room c\<rparr>) l st \<Longrightarrow>
     center_step js c (Serve l) (c\<lparr>c_task := Running (s\<lparr>ts_state := st\<rparr>), c_room := shared st\<rparr>)"
| wind_up: "c_task c = Over \<Longrightarrow> c_slot c = Some s \<Longrightarrow> cancelled (ts_state s) server_token \<Longrightarrow> l \<noteq> Shared_change \<Longrightarrow>
     server_step js (ts_protocols s) ((ts_state s)\<lparr>shared := c_room c\<rparr>) l st \<Longrightarrow>
     center_step js c (Wind_up l) (c\<lparr>c_slot := Some (s\<lparr>ts_state := st\<rparr>), c_room := shared st\<rparr>)"
| consume: "at_work c s \<Longrightarrow> c_consumed c < length (disconnected (ts_state s)) \<Longrightarrow>
     mid = disconnected (ts_state s) ! c_consumed c \<Longrightarrow>
     center_step js c Consume
       (c\<lparr>c_room := client_disconnected (if mid = [] then None else Some mid) (c_room c),
          c_consumed := Suc (c_consumed c)\<rparr>)"
| remove: "center_step js c (Remove mid) (remove_player mid c)"
| ping_player: "center_step js c (Ping_player info) (c\<lparr>c_room := handle_player_ping info (c_room c)\<rparr>)"
| list_players: "center_step js c List_players (snd (center_get_players c))"
| subscribe: "center_step js c Subscribe (c\<lparr>c_room := players_changed_rx (c_room c)\<rparr>)"
| task_end: "c_task c = Running s \<Longrightarrow> \<not> accepting (ts_state s) \<Longrightarrow> center_step js c Task_end (task_ends c)"

inductive_cases serveE: "center_step js c (Serve l) c'"

end
