(* ===== verification/Center_Session.thy ===== *)
theory Center_Session
  imports Center
begin

text \<open>
  What holds of a centre: the protocols it serves are the ones it advertises, starting returns and
  says what is left behind when it fails, and what subscribers and the operations on machines get while
  the server runs.
\<close>

section \<open>The protocols\<close>

lemma check_keys_ok:
  "check_keys seen protos = Inr () \<longleftrightarrow>
     distinct (map handler_key protos) \<and> set (map handler_key protos) \<inter> set seen = {}"
  by (induction seen protos rule: check_keys.induct) auto

lemma check_keys_error: "check_keys seen protos = Inl e \<Longrightarrow> \<exists>p \<in> set protos. e = Protocol (msg_key_conflict @ handler_key p)"
  by (induction seen protos rule: check_keys.induct) (auto split: if_splits)

text \<open>Handlers with different keys are all found under their keys.\<close>

lemma protocol_map_distinct:
  "distinct (map handler_key ps) \<Longrightarrow> p \<in> set ps \<Longrightarrow> protocol_map ps (handler_key p) = Some p"
  unfolding protocol_map_def
  by (rule map_of_is_SomeI) (auto simp: rev_map [symmetric] comp_def)

lemma protocol_map_None: "key \<notin> set (map handler_key ps) \<Longrightarrow> protocol_map ps key = None"
  by (auto simp: protocol_map_def map_of_eq_None_iff)

lemma protocol_map_ran: "protocol_map ps key = Some p \<Longrightarrow> p \<in> set ps"
  unfolding protocol_map_def by (drule map_of_SomeD) auto

lemma center_keys:
  "map handler_key (center_protocols js hook port custom) =
     butlast standard_keys @ map handler_key custom"
  by (simp add: center_protocols_def standard_keys_def)

text \<open>
  C27: when the keys of the custom protocols pass the check, every protocol of the centre, standard or
  custom, answers under its own key and none shadows another; of the keys the centre advertises
  exactly one has no handler, \<open>c:player_easytier_id\<close>, and a request for it gets status 255.
\<close>

theorem advertised_protocols_served:
  assumes "check_keys standard_keys custom = Inr ()"
  shows "(\<forall>p \<in> set (center_protocols js hook port custom).
            protocol_map (center_protocols js hook port custom) (handler_key p) = Some p)
       \<and> {key \<in> set (standard_keys @ map handler_key custom).
            protocol_map (center_protocols js hook port custom) key = None} = {''c:player_easytier_id''}
       \<and> (request_key request = ''c:player_easytier_id'' \<longrightarrow>
            status (fst (dispatch (protocol_map (center_protocols js hook port custom)) request r)) = 255)"
proof -
  let ?ps = "center_protocols js hook port custom"
  from assms have custom: "distinct (map handler_key custom)"
    "set (map handler_key custom) \<inter> set standard_keys = {}" by (simp_all only: check_keys_ok)
  have split: "standard_keys = butlast standard_keys @ [''c:player_easytier_id'']"
    and last: "''c:player_easytier_id'' \<notin> set (butlast standard_keys)" "distinct (butlast standard_keys)"
    by (simp_all add: standard_keys_def)
  from arg_cong [OF split, of set]
  have keys: "set standard_keys = set (butlast standard_keys) \<union> {''c:player_easytier_id''}"
    unfolding set_append by simp
  have distinct: "distinct (map handler_key ?ps)"
    unfolding center_keys using custom last keys by (auto simp: distinct_append)
  have found: "\<forall>p \<in> set ?ps. protocol_map ?ps (handler_key p) = Some p"
    using protocol_map_distinct [OF distinct] by blast
  have "protocol_map ?ps key = None \<longleftrightarrow> key \<notin> set (map handler_key ?ps)" for key
    using found protocol_map_None [of key ?ps] by auto
  then have none: "protocol_map ?ps key = None \<longleftrightarrow>
      key \<notin> set (butlast standard_keys) \<and> key \<notin> set (map handler_key custom)" for key
    unfolding center_keys by auto
  have missing: "protocol_map ?ps ''c:player_easytier_id'' = None"
    unfolding none using custom(2) last keys by blast
  have "{key \<in> set (standard_keys @ map handler_key custom). protocol_map ?ps key = None}
      = {''c:player_easytier_id''}"
    unfolding none set_append using custom(2) last keys by blast
  with found missing show ?thesis by (auto simp: dispatch_def)
qed

theorem advertised_protocols_served_witness:
  "{key \<in> set (standard_keys @ [''qml:game_info'']).
     protocol_map (center_protocols body_json None 25565
        [\<lparr>handler_key = ''qml:game_info'', handle = (\<lambda>_ r. (\<lparr>status = 0, resp_body = []\<rparr>, r))\<rparr>]) key = None}
   = {''c:player_easytier_id''}"
  using advertised_protocols_served [of
      "[\<lparr>handler_key = ''qml:game_info'', handle = (\<lambda>_ r. (\<lparr>status = 0, resp_body = []\<rparr>, r))\<rparr>]" body_json None 25565]
  by (simp add: check_keys_ok standard_keys_def)

section \<open>Starting\<close>

text \<open>The scan takes the lowest port that can be bound, and falls back to 25000.\<close>

lemma find_port:
  assumes "hi < 65536"
  shows "case find can_bind (map word_of_nat [lo ..< hi]) of
      Some (p :: u16) \<Rightarrow> lo \<le> unat p \<and> unat p < hi \<and> can_bind p
           \<and> (\<forall>q. lo \<le> unat q \<longrightarrow> unat q < unat p \<longrightarrow> \<not> can_bind q)
    | None \<Rightarrow> \<forall>q. lo \<le> unat q \<longrightarrow> unat q < hi \<longrightarrow> \<not> can_bind q"
proof (cases "find can_bind (map word_of_nat [lo ..< hi])")
  case None
  then have none: "\<forall>i \<in> {lo ..< hi}. \<not> can_bind (word_of_nat i)" by (auto simp: find_None_iff)
  have "\<not> can_bind q" if "lo \<le> unat q" "unat q < hi" for q :: u16
    using none [rule_format, of "unat q"] that by simp
  with None show ?thesis by simp
next
  case (Some p)
  then obtain i where i: "i < hi - lo" "p = word_of_nat (lo + i)" "can_bind p"
    and before: "\<forall>j < i. \<not> can_bind (word_of_nat (lo + j))"
    by (auto simp: find_Some_iff)
  have p: "unat p = lo + i"
    unfolding i(2) using assms i(1) by (intro unat_of_nat_small) simp
  have "\<not> can_bind q" if "lo \<le> unat q" "unat q < unat p" for q :: u16
    using before [rule_format, of "unat q - lo"] that p by simp
  with i p Some show ?thesis by simp
qed

lemma scan_port_first:
  "if \<exists>q. 1025 \<le> unat q \<and> unat q < 65535 \<and> can_bind q
   then 1025 \<le> unat (scan_port can_bind) \<and> unat (scan_port can_bind) < 65535 \<and> can_bind (scan_port can_bind)
      \<and> (\<forall>q. 1025 \<le> unat q \<longrightarrow> unat q < unat (scan_port can_bind) \<longrightarrow> \<not> can_bind q)
   else scan_port can_bind = 25000"
proof -
  obtain r where r: "find can_bind (map word_of_nat [1025 ..< 65535]) = r" by blast
  have "scan_port can_bind = (case r of Some p \<Rightarrow> p | None \<Rightarrow> 25000)"
    unfolding scan_port_def r by (rule refl)
  moreover have "case r of
      Some (p :: u16) \<Rightarrow> 1025 \<le> unat p \<and> unat p < 65535 \<and> can_bind p
           \<and> (\<forall>q. 1025 \<le> unat q \<longrightarrow> unat q < unat p \<longrightarrow> \<not> can_bind q)
    | None \<Rightarrow> \<forall>q. 1025 \<le> unat q \<longrightarrow> unat q < 65535 \<longrightarrow> \<not> can_bind q"
    unfolding r [symmetric] by (rule find_port) simp
  ultimately show ?thesis by (cases r) auto
qed

text \<open>
  The centre at the moment EasyTier is started: the server serves, or its port could not be bound.
\<close>

definition server_begun :: "('m, 'i, 'u, 'v, 'j) center_env \<Rightarrow> center \<Rightarrow> string + u16 \<Rightarrow> center \<Rightarrow> bool" where
  "server_begun env c bound c' \<longleftrightarrow>
     (case bound of
        Inr p \<Rightarrow> (\<exists>s. c_task c' = Running s \<and> ts_port s = p \<and> ts_listening s
                 \<and> ts_protocols s = protocol_map (center_protocols (ce_js env) (c_hook c)
                      (c_minecraft_port c) (c_custom c))
                 \<and> \<not> cancelled (ts_state s) server_token) \<and> c_slot c' = None
      | Inl _ \<Rightarrow> c_task c' = Over \<and> (\<exists>s. c_slot c' = Some s \<and> \<not> ts_listening s))"

lemma server_begun_more [simp]:
  "server_begun env c bound (c'\<lparr>c_easy_tier := mgr\<rparr>) = server_begun env c bound c'"
  "server_begun env c bound (c'\<lparr>c_room := r\<rparr>) = server_begun env c bound c'"
  by (cases bound; simp add: server_begun_def)+

text \<open>The first half of starting.\<close>

lemma center_start_eq:
  assumes "check_keys standard_keys (c_custom c) = Inr ()"
    and "ce_bind env (scan_port (ce_bindable env m)) m = (bound, m1)"
  shows "\<exists>c1. server_begun env c bound c1 \<and> c_room c1 = c_room c \<and> c_machine_id c1 = c_machine_id c
    \<and> c_server_ct c1 = Some ct \<and> c_easy_tier c1 = c_easy_tier c
    \<and> center_start env ct c m =
        start_network env c1 (lib_sleep (ce_lib env) 200 (bind_effect env ct bound m1))"
proof -
  let ?port = "scan_port (ce_bindable env m)"
  define c1 where "c1 = task_begins bound (c\<lparr>c_tcp_port := ?port\<rparr>
      \<lparr>c_slot := Some (new_tcp_server ?port
          (center_protocols (ce_js env) (c_hook (c\<lparr>c_tcp_port := ?port\<rparr>))
             (c_minecraft_port (c\<lparr>c_tcp_port := ?port\<rparr>)) (c_custom (c\<lparr>c_tcp_port := ?port\<rparr>)))
          (lib_now (ce_lib env) m) (c_room (c\<lparr>c_tcp_port := ?port\<rparr>))),
       c_server_ct := Some ct, c_task := Spawned, c_consumed := 0\<rparr>)"
  show ?thesis
  proof (intro exI [of _ c1] conjI)
    show "center_start env ct c m =
        start_network env c1 (lib_sleep (ce_lib env) 200 (bind_effect env ct bound m1))"
      using assms
      by (simp only: center_start_def Let_def sum.case prod.case c1_def [symmetric] center.select_convs
          center.update_convs) simp
  qed (cases bound; simp add: server_begun_def c1_def task_begins_def bind_server_def new_tcp_server_def
        stop_server_def new_server_def)+
qed

text \<open>Starting returns, and what it leaves.\<close>

lemma start_network_outcome:
  assumes "clock_advances (ce_lib env)"
  shows "\<exists>r mgr m'. start_network env c m =
      Some (r, (let c' = c\<lparr>c_easy_tier := mgr\<rparr>
                in if is_ok r then c'\<lparr>c_room := add_host (host_player c') (c_room c')\<rparr> else c'), m')"
proof -
  obtain sr mgr m2 where "start (ce_lib env) (center_config c (ce_system env m)) (c_easy_tier c) m = Some (sr, mgr, m2)"
    using start_outcome [OF assms, of "center_config c (ce_system env m)" "c_easy_tier c" m] by blast
  then show ?thesis
    by (intro exI [of _ sr] exI [of _ mgr] exI [of _ m2]; cases sr) (simp_all add: start_network_def Let_def)
qed

lemma center_start_outcome:
  assumes "clock_advances (ce_lib env)"
  shows "\<exists>r c' m'. center_start env ct c m = Some (r, c', m')
    \<and> (case check_keys standard_keys (c_custom c) of
         Inl e \<Rightarrow> r = Inl e \<and> c_task c' = c_task c \<and> c_slot c' = c_slot c \<and> m' = m
       | Inr _ \<Rightarrow> server_begun env c (fst (ce_bind env (scan_port (ce_bindable env m)) m)) c')
    \<and> (case r of
         Inr _ \<Rightarrow> c_room c' = add_host (host_player c') (c_room c)
       | Inl _ \<Rightarrow> c_room c' = c_room c)
    \<and> c_machine_id c' = c_machine_id c \<and> (r = Inr () \<longrightarrow> c_server_ct c' = Some ct)"
proof (cases "check_keys standard_keys (c_custom c)")
  case (Inl e)
  then show ?thesis by (simp add: center_start_def Let_def)
next
  case (Inr u)
  obtain bound m1 where b: "ce_bind env (scan_port (ce_bindable env m)) m = (bound, m1)"
    by (cases "ce_bind env (scan_port (ce_bindable env m)) m")
  from Inr b center_start_eq [of c env m bound m1 ct] obtain c1 where c1: "server_begun env c bound c1"
    "c_room c1 = c_room c" "c_machine_id c1 = c_machine_id c" "c_server_ct c1 = Some ct"
    and eq: "center_start env ct c m =
        start_network env c1 (lib_sleep (ce_lib env) 200 (bind_effect env ct bound m1))"
    by auto
  obtain r mgr m' where "center_start env ct c m =
      Some (r, (let c' = c1\<lparr>c_easy_tier := mgr\<rparr>
                in if is_ok r then c'\<lparr>c_room := add_host (host_player c') (c_room c')\<rparr> else c'), m')"
    unfolding eq using start_network_outcome [OF assms] by blast
  then show ?thesis
    using Inr b c1 by (cases r) (simp_all add: Let_def host_player_def)
qed

section \<open>The centre as a system\<close>

lemma room_roster_publish [simp]: "room_roster (publish s r) = s"
  by (simp add: publish_def)

text \<open>A server changes what its handlers share only by dispatching a request.\<close>

lemma server_step_shared:
  assumes "server_step js protocols s l s'" and "l \<noteq> Shared_change"
  shows "shared s' = shared s \<or> (\<exists>request. shared s' = snd (dispatch protocols request (shared s)))"
  using assms(1)
proof (cases rule: server_step.cases)
  case (conn i io)
  then show ?thesis
    by (cases "(js, protocols, i, conns s ! i, conn_pc (conns s ! i), io, s)" rule: conn_step.cases)
      (auto simp: update_conn_def split: if_splits sum.splits prod.splits option.splits, metis snd_conv)
next
  case (sweep order)
  then show ?thesis
    by (cases "(sweep s, order, s)" rule: sweep_step.cases) (auto split: option.splits)
next
  case (kick k)
  then show ?thesis
    by (cases "(k, kicks s ! k, s)" rule: kick_step.cases) (auto split: option.splits)
qed (use assms(2) in \<open>auto simp: accept_client_def kick_find_def cancel_server_def split: option.splits\<close>)

text \<open>While the accept loop runs the server is with its task, and not in its slot.\<close>

definition serving :: "center \<Rightarrow> bool" where
  "serving c \<longleftrightarrow> (\<exists>s. c_task c = Running s) \<and> c_slot c = None"

lemma serving_run:
  "run (center_step js) c ls c' \<Longrightarrow> serving c \<Longrightarrow> Task_end \<notin> set ls \<Longrightarrow> serving c'"
proof (induction rule: run.induct)
  case (run_Cons c l c' ls c'')
  from run_Cons(1) run_Cons.prems have "serving c'"
    by (cases rule: center_step.cases)
      (auto simp: serving_def remove_player_def center_get_players_def split: prod.split)
  with run_Cons show ?case by simp
qed simp

section \<open>A concrete centre\<close>

text \<open>EasyTier is ready, every port can be bound, and there are no custom protocols.\<close>

definition sample_center_env :: "(sample_net, string, string, string, string) center_env" where
  "sample_center_env =
     \<lparr> ce_lib = sample_lib True, ce_js = body_json, ce_bindable = (\<lambda>_ _. True),
       ce_bind = (\<lambda>p m. (Inr p, m)), ce_cancel = (\<lambda>_ m. m), ce_system = (\<lambda>_. bare_system) \<rparr>"

definition sample_center :: center where
  "sample_center =
     new_center \<lparr>raw = ''U/0000-0000-0000-0000'', network_name_part = ''0000-0000'', secret_part = ''0000-0000''\<rparr>
       ''Host'' ''h1'' ''v'' 25565 None [] (\<lambda>_ _. True)"

definition sample_world :: sample_net where
  "sample_world = \<lparr>sn_running = [], sn_next = 0, sn_clock = 0\<rparr>"

lemma sample_center_sel [simp]:
  "c_custom sample_center = []" "c_machine_id sample_center = ''h1''" "c_hook sample_center = None"
  "c_room sample_center = new_room (\<lambda>_ _. True)" "c_easy_tier sample_center = new_manager"
  "c_task sample_center = Not_spawned" "c_slot sample_center = None"
  "players (room_roster (new_room locks)) = []"
  by (simp_all add: sample_center_def new_center_def new_room_def)

lemma sample_center_env_sel [simp]:
  "clock_advances (sample_lib b)" "ce_lib sample_center_env = sample_lib True"
  "ce_bind sample_center_env p m = (Inr p, m)"
  by (simp_all add: sample_center_env_def sample_lib_clock)

lemma sample_room_starts:
  "\<exists>c m'. center_start sample_center_env ct (new_center code name mid vendor port nodes [] locks) m = Some (Inr (), c, m')"
proof -
  let ?c = "new_center code name mid vendor port nodes [] locks"
  have "check_keys standard_keys (c_custom ?c) = Inr ()" "c_easy_tier ?c = new_manager" by (simp_all add: new_center_def)
  with center_start_eq [of ?c sample_center_env m _ m ct]
  obtain c1 m2 where "c_easy_tier c1 = new_manager"
    and "center_start sample_center_env ct ?c m = start_network sample_center_env c1 m2"
    by auto
  moreover have "is_ok (build_toml_config (sample_lib True) (center_config c i))" for c i
    by (rule sample_config_ok) (simp add: center_config_def default_network_config_def)
  ultimately show ?thesis
    using sample_start [of "center_config c1 (ce_system sample_center_env m2)" "c_easy_tier c1" m2]
    by (auto simp: start_network_def new_manager_def Let_def)
qed

lemma sample_center_starts: "\<exists>c1 m1. center_start sample_center_env 7 sample_center m = Some (Inr (), c1, m1)"
  unfolding sample_center_def by (rule sample_room_starts)

section \<open>Properties\<close>

text \<open>
  C21: given a clock that advances, starting a centre returns.  Colliding custom keys are refused
  before anything is started.  Otherwise the server serves all protocols of the centre, or its port
  could not be bound and it is back in its slot; both also when EasyTier then fails to start, where
  nothing stops the server.  After success the host is listed.
\<close>

theorem center_start_returns:
  assumes "clock_advances (ce_lib env)"
  shows "\<exists>r c' m'. center_start env ct c m = Some (r, c', m')
    \<and> (case check_keys standard_keys (c_custom c) of
         Inl e \<Rightarrow> r = Inl e \<and> c_task c' = c_task c \<and> c_slot c' = c_slot c \<and> m' = m
       | Inr _ \<Rightarrow>
           (case fst (ce_bind env (scan_port (ce_bindable env m)) m) of
              Inr p \<Rightarrow> (\<exists>s. c_task c' = Running s \<and> ts_port s = p \<and> ts_listening s
                       \<and> ts_protocols s = protocol_map (center_protocols (ce_js env) (c_hook c)
                            (c_minecraft_port c) (c_custom c))
                       \<and> \<not> cancelled (ts_state s) server_token) \<and> c_slot c' = None
            | Inl _ \<Rightarrow> c_task c' = Over \<and> (\<exists>s. c_slot c' = Some s \<and> \<not> ts_listening s)))
    \<and> (r = Inr () \<longrightarrow> host_player c' \<in> set (players (room_roster (c_room c'))))"
proof -
  obtain r c' m' where out: "center_start env ct c m = Some (r, c', m')"
    "case check_keys standard_keys (c_custom c) of
       Inl e \<Rightarrow> r = Inl e \<and> c_task c' = c_task c \<and> c_slot c' = c_slot c \<and> m' = m
     | Inr _ \<Rightarrow> server_begun env c (fst (ce_bind env (scan_port (ce_bindable env m)) m)) c'"
    "case r of Inr _ \<Rightarrow> c_room c' = add_host (host_player c') (c_room c) | Inl _ \<Rightarrow> c_room c' = c_room c"
    using center_start_outcome [OF assms, of ct c m] by blast
  from out(3) have "r = Inr () \<longrightarrow> host_player c' \<in> set (players (room_roster (c_room c')))"
    by (auto simp: add_host_def)
  with out(1,2) show ?thesis unfolding server_begun_def by blast
qed

theorem center_start_returns_witness:
  "\<exists>c' m'. center_start sample_center_env 7 sample_center sample_world = Some (Inr (), c', m')
     \<and> (\<exists>s. c_task c' = Running s \<and> ts_listening s) \<and> c_slot c' = None"
  using center_start_returns [of sample_center_env 7 sample_center sample_world]
    sample_center_starts [of sample_world]
  by (auto split: sum.splits)

text \<open>
  While the server of a started centre serves, the centre can neither disconnect a machine nor
  tell its address: both answer that the machine is unknown, for every machine and whatever clients
  are connected, because the server is not in the slot they look into.
\<close>

lemma machine_operations_fail_while_serving:
  assumes "clock_advances (ce_lib env)" and "center_start env ct c m = Some (Inr (), c1, m1)"
    and "fst (ce_bind env (scan_port (ce_bindable env m)) m) = Inr p"
    and "run (center_step js) c1 ls c2" and "Task_end \<notin> set ls"
  shows "(\<exists>s. c_task c2 = Running s) \<and> center_disconnect_machine order mid c2 = (False, c2)
       \<and> center_machine_source_ip order mid c2 = None"
proof -
  have "serving c1"
    using center_start_outcome [OF assms(1), of ct c m] assms(2,3) by (auto simp: serving_def server_begun_def split: sum.splits)
  from serving_run [OF assms(4) this assms(5)] show ?thesis
    by (auto simp: serving_def center_disconnect_machine_def center_machine_source_ip_def)
qed

text \<open>
  C33: the notification of the host reaches nobody: who subscribes to the player list after the start,
  which is the first moment a caller of \<open>create_room\<close> can, sees an empty list, although the host is
  on it.
\<close>

theorem first_subscriber_misses_host:
  assumes "clock_advances (ce_lib env)" and "center_start env ct c m = Some (Inr (), c1, m1)"
    and "c_room c = new_room locks"
  shows "players (room_roster (c_room c1)) = [host_player c1]
       \<and> watch_value (players_feed (players_changed_rx (c_room c1))) = []"
proof -
  have "c_room c1 = add_host (host_player c1) (new_room locks)"
    using center_start_outcome [OF assms(1), of ct c m] assms(2,3) by auto
  then show ?thesis
    by (simp add: add_host_def new_room_def publish_def watch_channel_def watch_send_def
        players_changed_rx_def watch_subscribe_def)
qed

theorem first_subscriber_misses_host_witness:
  "\<exists>c1 m1. center_start sample_center_env 7 sample_center sample_world = Some (Inr (), c1, m1)
     \<and> players (room_roster (c_room c1)) = [host_player c1]
     \<and> watch_value (players_feed (players_changed_rx (c_room c1))) = []"
proof -
  obtain c1 m1 where st: "center_start sample_center_env 7 sample_center sample_world = Some (Inr (), c1, m1)"
    using sample_center_starts by blast
  from first_subscriber_misses_host [OF _ st] st show ?thesis by simp
qed

end
