(* ===== verification/Room_Session.thy ===== *)
theory Room_Session
  imports Guest_Session Center_Session
begin

text \<open>
  A guest and a centre over the wire: the requests of the guest, encoded, decoded by the connection
  task of the centre, dispatched to its handlers, and the responses on the way back.
\<close>

section \<open>A guest whose requests are answered\<close>

text \<open>
  What the guest's operations rely on: a request that the format can carry is answered with what the
  other side serves.
\<close>

locale answered_guest =
  fixes env :: "('m, 'i, 'u, 'v, 'j) guest_env"
    and served :: "protocol_request \<Rightarrow> 'm \<Rightarrow> protocol_response \<times> 'm"
    and ready :: "guest \<Rightarrow> 'm \<Rightarrow> bool"
  assumes send_served:
      "ready g m \<Longrightarrow> wf_request r \<Longrightarrow> wf_response (fst (served r m)) \<Longrightarrow>
         send_raw env r g m = (Inr (fst (served r m)), g, snd (served r m))"
    and ready_connected: "ready g m \<Longrightarrow> is_connected (g_tcp g)"
begin

lemma server_port:
  assumes "ready g m" and "wf_request (standard_request ''server_port'' [])"
    and "served (standard_request ''server_port'' []) m = (\<lparr>status = 0, resp_body = be16 p\<rparr>, m')"
  shows "get_server_port env g m = (Inr p, g, m')"
proof -
  have "wf_response (fst (served (standard_request ''server_port'' []) m))"
    by (simp add: assms(3) wf_response_def)
  from send_served [OF assms(1,2) this] show ?thesis
    by (simp add: get_server_port_def assms(3) port_of_response_def is_success_def)
qed

lemma negotiation:
  assumes "ready g m"
    and "wf_request (standard_request ''protocols'' (into_bytes (join [CHR 0x00] (my_protocols g))))"
    and "served (standard_request ''protocols'' (into_bytes (join [CHR 0x00] (my_protocols g)))) m
       = (\<lparr>status = 0, resp_body = into_bytes (join [CHR 0x00] theirs)\<rparr>, m')"
    and "length (join [CHR 0x00] theirs) < 2 ^ 32" and "theirs \<noteq> []"
    and "\<forall>p \<in> set theirs. valid_str p \<and> CHR 0x00 \<notin> set p"
  shows "negotiate_protocols env g m = (Inr (), g\<lparr>g_negotiated := negotiate (my_protocols g) theirs\<rparr>, m')"
proof -
  have "valid_str (join [CHR 0x00] theirs)"
    using assms(6) by (intro valid_str_join) (simp_all add: valid_str_ascii)
  then have "split_on CHR 0x00 (from_utf8_lossy (into_bytes (join [CHR 0x00] theirs))) = theirs"
    using assms(5,6) by (simp add: from_utf8_lossy_into_bytes split_on_join)
  moreover have "wf_response (fst (served (standard_request ''protocols''
      (into_bytes (join [CHR 0x00] (my_protocols g)))) m))"
    using assms(4) by (simp add: assms(3) wf_response_def)
  from send_served [OF assms(1,2) this]
  have "send_raw env (standard_request ''protocols'' (into_bytes (join [CHR 0x00] (my_protocols g)))) g m
      = (Inr \<lparr>status = 0, resp_body = into_bytes (join [CHR 0x00] theirs)\<rparr>, g, m')"
    by (simp add: assms(3))
  ultimately show ?thesis
    by (simp add: negotiate_protocols_def Let_def is_success_def)
qed

lemma player_ping:
  assumes "ready g m"
    and "sj_entry_to_vec (env_js env) \<lparr>pe_name = g_player_name g, pe_machine_id = g_machine_id g,
        pe_easytier_id = ping_node_id g, pe_vendor = g_vendor g, pe_kind = None\<rparr> = Inr body"
    and "wf_request (standard_request ''player_ping'' body)"
    and "served (standard_request ''player_ping'' body) m = (response, m')" and "wf_response response"
  shows "send_player_ping env g m = (Inr (), g, m')"
  using assms ready_connected [OF assms(1)] send_served [OF assms(1,3)]
  by (simp add: send_player_ping_def)

lemma player_list:
  assumes "ready g m" and "wf_request (standard_request ''player_profiles_list'' [])"
    and "served (standard_request ''player_profiles_list'' []) m = (response, m')" and "wf_response response"
  shows "get_player_list env g m = (players_of_body (env_js env) (resp_body response), g, m')"
  using assms send_served [OF assms(1,2)] by (simp add: get_player_list_def)

end

section \<open>The link\<close>

text \<open>
  A connection between the two: what has arrived for the guest, and what the handlers of the centre
  share.  Writing a request lets the connection task read it, dispatch it and write the response.
\<close>

record 's link =
  link_inbox :: "u8 list"
  link_shared :: 's

definition link_net :: "(string \<rightharpoonup> 's protocol_handler) \<Rightarrow> ('s, 'e) link_scheme tcp_net" where
  "link_net protocols =
     \<lparr> net_connect = (\<lambda>_ _ w. (Connected 0, w\<lparr>link_inbox := []\<rparr>)),
       net_write = (\<lambda>_ bytes w.
         (Inr (), case fst (deserialize_request_async \<lparr>incoming = bytes, stream_end = Closed\<rparr>) of
                    Inr request \<Rightarrow>
                      (let (response, s) = dispatch protocols request (link_shared w)
                       in w\<lparr>link_inbox := link_inbox w @ serialize_response response, link_shared := s\<rparr>)
                  | Inl _ \<Rightarrow> w)),
       net_arrive = (\<lambda>_ _ w. ((link_inbox w, None), w\<lparr>link_inbox := []\<rparr>)),
       net_close = (\<lambda>_ w. w) \<rparr>"

text \<open>That is what the connection task does with a request it reads.\<close>

lemma link_net_is_conn_steps:
  assumes "i < length (conns s)" and "conn_pc (conns s ! i) = Serving"
    and "\<not> cancelled s server_token" and "\<not> cancelled s (conn_ct (conns s ! i))"
    and "fst (deserialize_request_async \<lparr>incoming = bytes, stream_end = Closed\<rparr>) = Inr request"
  shows "\<exists>response s'. conn_step js protocols i (conns s ! i) Serving
           (Read (fst (deserialize_request_async \<lparr>incoming = bytes, stream_end = Closed\<rparr>))) s = Some s'
       \<and> conn_pc (conns s' ! i) = Handling request response
       \<and> snd (net_write (link_net protocols) h bytes \<lparr>link_inbox = inbox, link_shared = shared s\<rparr>)
           = \<lparr>link_inbox = inbox @ serialize_response response, link_shared = shared s'\<rparr>"
  using assms
  by (auto simp: link_net_def set_pc_def update_conn_def split: prod.split)

definition link_served ::
  "(string \<rightharpoonup> 's protocol_handler) \<Rightarrow> protocol_request \<Rightarrow> ('s, 'e) link_scheme
     \<Rightarrow> protocol_response \<times> ('s, 'e) link_scheme" where
  "link_served protocols r w =
     (let (response, s) = dispatch protocols (wire_request r) (link_shared w)
      in (response, w\<lparr>link_shared := s\<rparr>))"

definition link_ready :: "guest \<Rightarrow> ('s, 'e) link_scheme \<Rightarrow> bool" where
  "link_ready g w \<longleftrightarrow> link_inbox w = [] \<and> (\<exists>h. g_tcp g = \<lparr>client_stream = Some (h, [])\<rparr>)"

lemma link_send:
  assumes "link_ready g w" and "wf_request r" and "wf_response (fst (link_served protocols r w))"
    and "env_net env = link_net protocols"
  shows "send_raw env r g w = (Inr (fst (link_served protocols r w)), g, snd (link_served protocols r w))"
proof -
  obtain h where tcp: "g_tcp g = \<lparr>client_stream = Some (h, [])\<rparr>" and inbox: "link_inbox w = []"
    using assms(1) by (auto simp: link_ready_def)
  obtain response s where d: "dispatch protocols (wire_request r) (link_shared w) = (response, s)"
    by (cases "dispatch protocols (wire_request r) (link_shared w)")
  have dec: "fst (deserialize_request_async \<lparr>incoming = serialize_request r, stream_end = Closed\<rparr>)
      = Inr (wire_request r)"
    using request_frames.decode_encode [OF assms(2), of "[]" Closed] by simp
  have wf: "wf_response response" using assms(3) d by (simp add: link_served_def)
  have "read_response key (serialize_response response) None = (Inr response, [])" for key
    using read_response_frame [OF wf, of key "[]" None] by simp
  then have "send (link_net protocols) r (g_tcp g) w
      = (Inr response, g_tcp g, w\<lparr>link_inbox := [], link_shared := s\<rparr>)"
    by (simp add: send_def tcp link_net_def dec d inbox)
  moreover have "w\<lparr>link_inbox := [], link_shared := s\<rparr> = w\<lparr>link_shared := s\<rparr>"
    using inbox by (cases w) simp
  ultimately show ?thesis
    by (simp add: send_raw_def assms(4) link_served_def d)
qed

interpretation link: answered_guest "env\<lparr>env_net := link_net protocols\<rparr>" "link_served protocols" link_ready
  for env :: "(('s, 'e) link_scheme, 'i, 'u, 'v, 'j) guest_env" and protocols
  by unfold_locales (auto intro: link_send simp: link_ready_def)

section \<open>Standard requests at the centre\<close>

lemma wf_standard_request:
  "ascii_str ty \<Longrightarrow> length ty < 250 \<Longrightarrow> length body < 2 ^ 32 \<Longrightarrow> wf_request (standard_request ty body)"
  by (simp add: wf_request_def standard_request_def request_key_def valid_str_ascii ascii_bytes_id)

text \<open>The handlers of the centre under their keys.\<close>

abbreviation center_map ::
  "'j serde_json \<Rightarrow> ping_hook option \<Rightarrow> u16 \<Rightarrow> center_room protocol_handler list
     \<Rightarrow> string \<rightharpoonup> center_room protocol_handler" where
  "center_map js hook port custom \<equiv> protocol_map (center_protocols js hook port custom)"

lemma center_map_found:
  assumes "check_keys standard_keys custom = Inr ()" and "h \<in> set (center_protocols js hook port custom)"
  shows "center_map js hook port custom (handler_key h) = Some h"
proof -
  from assms(1) have custom: "distinct (map handler_key custom)"
    "set (map handler_key custom) \<inter> set standard_keys = {}" by (simp_all only: check_keys_ok)
  have "set (butlast standard_keys) \<subseteq> set standard_keys" "distinct (butlast standard_keys)"
    by (simp_all add: standard_keys_def)
  then have "distinct (map handler_key (center_protocols js hook port custom))"
    unfolding center_keys using custom by (auto simp: distinct_append)
  then show ?thesis using assms(2) by (rule protocol_map_distinct)
qed

lemma center_map_standard:
  assumes "check_keys standard_keys custom = Inr ()"
  shows "center_map js hook port custom ''c:protocols'' =
           Some (protocols_protocol (standard_keys @ map handler_key custom))"
    and "center_map js hook port custom ''c:server_port'' = Some (server_port_protocol port)"
    and "center_map js hook port custom ''c:player_ping'' =
           Some (player_ping_protocol js (\<lambda>info r.
             case hook of Some handler \<Rightarrow> handler info r | None \<Rightarrow> (True, handle_player_ping info r)))"
    and "center_map js hook port custom ''c:player_profiles_list'' =
           Some (player_profiles_list_protocol js room_players)"
  using center_map_found [OF assms, of _ js hook port]
  unfolding center_protocols_def by (force simp: handler_keys)+

lemma link_served_standard:
  assumes "ascii_str ty" and "protocols (''c:'' @ ty) = Some h"
  shows "link_served protocols (standard_request ty body) w =
     (fst (handle h (standard_request ty body) (link_shared w)),
      w\<lparr>link_shared := snd (handle h (standard_request ty body) (link_shared w))\<rparr>)"
  using assms
  by (simp add: link_served_def dispatch_def request_key_def standard_request_def Let_def split: prod.split)

section \<open>JSON\<close>

text \<open>
  What is used of \<open>serde_json\<close> on a ping body and on a list body: the text written for an entry parses
  to an object with its fields, and the text written for a list to an array of such objects.
\<close>

definition json_carries_ping :: "'j serde_json \<Rightarrow> player_profile_entry \<Rightarrow> u8 list \<Rightarrow> bool" where
  "json_carries_ping js e body \<longleftrightarrow>
     sj_entry_to_vec js e = Inr body
   \<and> (\<exists>root. sj_from_slice js body = Inr root
        \<and> str_or js root ''name'' = pe_name e \<and> str_or js root ''machine_id'' = pe_machine_id e
        \<and> str_or js root ''vendor'' = pe_vendor e
        \<and> Option.bind (sj_get js root ''easytier_id'') (value_to_string js) = pe_easytier_id e)"

definition json_describes :: "'j serde_json \<Rightarrow> 'j \<Rightarrow> player_profile_entry \<Rightarrow> bool" where
  "json_describes js item e \<longleftrightarrow>
     (\<exists>obj. sj_as_object js item = Some obj
        \<and> Option.bind (obj ''name'') (value_to_string js) = Some (pe_name e)
        \<and> Option.bind (obj ''machine_id'') (value_to_string js) = Some (pe_machine_id e)
        \<and> Option.bind (obj ''vendor'') (value_to_string js) = Some (pe_vendor e)
        \<and> Option.bind (obj ''easytier_id'') (value_to_string js) = pe_easytier_id e
        \<and> Option.bind (obj ''kind'') (sj_as_str js) = pe_kind e)"

definition json_carries_list :: "'j serde_json \<Rightarrow> player_profile_entry list \<Rightarrow> u8 list \<Rightarrow> bool" where
  "json_carries_list js es body \<longleftrightarrow>
     sj_entries_to_vec js es = Inr body
   \<and> (\<exists>root items. sj_from_slice js body = Inr root \<and> sj_as_array js root = Some items
        \<and> list_all2 (json_describes js) items es)"

lemma player_of_described_item:
  "json_describes js item (player_to_entry p) \<Longrightarrow> player_of_item js item = Some p"
  by (cases "pi_kind p") (auto simp: json_describes_def player_of_item_def player_to_entry_def Let_def)

lemma players_of_carried_list:
  assumes "json_carries_list js (map player_to_entry ps) body"
  shows "players_of_body js body = Inr ps"
proof -
  obtain root items where root: "sj_from_slice js body = Inr root" "sj_as_array js root = Some items"
    and items: "list_all2 (json_describes js) items (map player_to_entry ps)"
    using assms by (auto simp: json_carries_list_def)
  from items have "List.map_filter (player_of_item js) items = ps"
  proof (induction items arbitrary: ps)
    case (Cons item items)
    then obtain p rest where "ps = p # rest" "json_describes js item (player_to_entry p)"
      "list_all2 (json_describes js) items (map player_to_entry rest)"
      by (cases ps) auto
    with Cons.IH show ?case by (simp add: map_filter_simps player_of_described_item)
  qed (simp add: map_filter_simps)
  with root show ?thesis by (simp add: players_of_body_def)
qed

section \<open>A concrete room\<close>

text \<open>
  A reader of JSON in which a value is a table of texts (a text is a table with the empty key) and
  every body is the given value, alone in an array.
\<close>

definition one_json :: "(string \<rightharpoonup> string) \<Rightarrow> (string \<rightharpoonup> string) serde_json" where
  "one_json root =
     \<lparr> sj_from_slice = (\<lambda>_. Inr root),
       sj_get = (\<lambda>v key. map_option (\<lambda>s. [[] \<mapsto> s]) (v key)),
       sj_as_str = (\<lambda>v. v []), sj_as_i64 = (\<lambda>_. None), sj_as_u64 = (\<lambda>_. None), sj_f64_text = (\<lambda>_. None),
       sj_as_array = (\<lambda>v. Some [v]),
       sj_as_object = (\<lambda>v. Some (\<lambda>key. map_option (\<lambda>s. [[] \<mapsto> s]) (v key))),
       sj_entry_to_vec = (\<lambda>_. Inr [1]), sj_entries_to_vec = (\<lambda>_. Inr [1]) \<rparr>"

definition sample_json :: "(string \<rightharpoonup> string) serde_json" where
  "sample_json = one_json [''name'' \<mapsto> ''H'', ''machine_id'' \<mapsto> ''h1'', ''vendor'' \<mapsto> ''v'', ''kind'' \<mapsto> ''HOST'']"

definition sample_link :: "center_room link" where
  "sample_link =
     \<lparr> link_inbox = [],
       link_shared = (new_room (\<lambda>_ _. True))\<lparr>room_roster :=
         \<lparr>players = [sample_player ''H'' ''h1'' Host], players_changed = []\<rparr>\<rparr> \<rparr>"

definition sample_guest :: guest where
  "sample_guest = (new_guest ''H'' ''h1'' ''v'' [''x:y''] None)\<lparr>g_tcp := \<lparr>client_stream = Some (3, [])\<rparr>\<rparr>"

lemma sample_lock [simp]: "obtains_lock (\<lambda>_. True)"
  unfolding obtains_lock_iff by (rule exI [of _ 0]) (simp add: lock_retry_limit_def)

lemma sample_link_sel [simp]:
  "link_ready sample_guest sample_link"
  "players (room_roster (link_shared sample_link)) = [sample_player ''H'' ''h1'' Host]"
  "lock_outcomes (link_shared sample_link) k = (\<lambda>_. True)"
  "g_custom_keys sample_guest = [''x:y'']"
  by (auto simp: link_ready_def sample_guest_def sample_link_def new_room_def new_guest_def)

lemma sample_json_ping:
  "json_carries_ping sample_json \<lparr>pe_name = g_player_name sample_guest, pe_machine_id = g_machine_id sample_guest,
     pe_easytier_id = ping_node_id sample_guest, pe_vendor = g_vendor sample_guest, pe_kind = None\<rparr> [1]"
  by (simp add: json_carries_ping_def sample_json_def one_json_def str_or_def value_to_string_def
      sample_guest_def new_guest_def ping_node_id_def has_easytier_id_def)

lemma sample_json_list:
  "json_carries_list sample_json (map player_to_entry [sample_player ''H'' ''h1'' Host]) [1]"
  by (simp add: json_carries_list_def json_describes_def sample_json_def one_json_def value_to_string_def
      player_to_entry_def sample_player_def)

section \<open>Negotiation and the list over the link\<close>

lemma link_negotiation:
  assumes "check_keys standard_keys custom = Inr ()" and "link_ready g w"
    and "\<forall>k \<in> set (map handler_key custom). valid_str k \<and> CHR 0x00 \<notin> set k"
    and "length (join [CHR 0x00] (my_protocols g)) < 2 ^ 32"
    and "length (join [CHR 0x00] (standard_keys @ map handler_key custom)) < 2 ^ 32"
  shows "negotiate_protocols (env\<lparr>env_net := link_net (center_map js hook port custom)\<rparr>) g w =
    (Inr (), g\<lparr>g_negotiated := negotiate (my_protocols g) (standard_keys @ map handler_key custom)\<rparr>, w)"
proof (rule link.negotiation [OF assms(2)])
  let ?theirs = "standard_keys @ map handler_key custom"
  show "wf_request (standard_request ''protocols'' (into_bytes (join [CHR 0x00] (my_protocols g))))"
    using assms(4) by (intro wf_standard_request) simp_all
  show "link_served (center_map js hook port custom)
      (standard_request ''protocols'' (into_bytes (join [CHR 0x00] (my_protocols g)))) w
    = (\<lparr>status = 0, resp_body = into_bytes (join [CHR 0x00] ?theirs)\<rparr>, w)"
    using center_map_standard(1) [OF assms(1), of js hook port]
    by (subst link_served_standard [where h = "protocols_protocol ?theirs"]) simp_all
  show "\<forall>p \<in> set ?theirs. valid_str p \<and> CHR 0x00 \<notin> set p"
    using assms(3) by (simp add: standard_keys_def valid_str_ascii)
  show "length (join [CHR 0x00] ?theirs) < 2 ^ 32" by (rule assms(5))
  show "?theirs \<noteq> []" by (simp add: standard_keys_def)
qed

lemma link_player_list:
  assumes "check_keys standard_keys custom = Inr ()" and "link_ready g w"
    and "sj_entries_to_vec (env_js env) (map player_to_entry (players (room_roster (link_shared w)))) = Inr body"
    and "length body < 2 ^ 32"
    and "obtains_lock (lock_outcomes (link_shared w) (lock_calls (link_shared w)))"
  shows "get_player_list (env\<lparr>env_net := link_net (center_map (env_js env) hook port custom)\<rparr>) g w
    = (players_of_body (env_js env) body, g, w\<lparr>link_shared := snd (room_players (link_shared w))\<rparr>)"
proof -
  let ?env = "env\<lparr>env_net := link_net (center_map (env_js env) hook port custom)\<rparr>"
  let ?w' = "w\<lparr>link_shared := snd (room_players (link_shared w))\<rparr>"
  have list: "fst (room_players (link_shared w)) = players (room_roster (link_shared w))"
    using assms(5) by (simp add: room_players_def get_players_def)
  have "get_player_list ?env g w = (players_of_body (env_js ?env) (resp_body \<lparr>status = 0, resp_body = body\<rparr>), g, ?w')"
  proof (rule link.player_list [OF assms(2)])
    show "wf_request (standard_request ''player_profiles_list'' [])" by (rule wf_standard_request) simp_all
    show "link_served (center_map (env_js env) hook port custom) (standard_request ''player_profiles_list'' []) w
        = (\<lparr>status = 0, resp_body = body\<rparr>, ?w')"
      using center_map_standard(4) [OF assms(1), of "env_js env" hook port]
      by (subst link_served_standard [where h = "player_profiles_list_protocol (env_js env) room_players"])
        (simp_all add: handle_profiles list assms(3))
    show "wf_response \<lparr>status = 0, resp_body = body\<rparr>" using assms(4) by (simp add: wf_response_def)
  qed
  then show ?thesis by simp
qed

section \<open>Properties\<close>

text \<open>
  Over the wire a guest that asks for the Minecraft port gets exactly the port of the centre, and
  neither side changes.
\<close>

lemma guest_gets_server_port:
  assumes "check_keys standard_keys custom = Inr ()" and "link_ready g w"
  shows "get_server_port (env\<lparr>env_net := link_net (center_map js hook port custom)\<rparr>) g w = (Inr port, g, w)"
proof (rule link.server_port [OF assms(2)])
  show "wf_request (standard_request ''server_port'' [])" by (rule wf_standard_request) simp_all
  show "link_served (center_map js hook port custom) (standard_request ''server_port'' []) w
      = (\<lparr>status = 0, resp_body = be16 port\<rparr>, w)"
    using center_map_standard(2) [OF assms(1), of js hook port]
    by (subst link_served_standard [where h = "server_port_protocol port"]) simp_all
qed

text \<open>
  C15: over the wire negotiation leaves the guest with the standard protocols and those of its own
  protocols that the centre serves too, in the order of the guest, for all keys that are valid text
  without a zero byte and whose list fits a frame.
\<close>

theorem negotiation_is_intersection:
  assumes "check_keys standard_keys custom = Inr ()" and "link_ready g w"
    and "\<forall>k \<in> set (map handler_key custom). valid_str k \<and> CHR 0x00 \<notin> set k"
    and "length (join [CHR 0x00] (my_protocols g)) < 2 ^ 32"
    and "length (join [CHR 0x00] (standard_keys @ map handler_key custom)) < 2 ^ 32"
  shows "negotiate_protocols (env\<lparr>env_net := link_net (center_map js hook port custom)\<rparr>) g w =
    (Inr (), g\<lparr>g_negotiated := standard_protocols
        @ filter (\<lambda>k. k \<in> set standard_keys \<or> k \<in> set (map handler_key custom)) (g_custom_keys g)\<rparr>, w)"
proof -
  let ?theirs = "standard_keys @ map handler_key custom"
  have "negotiate_protocols (env\<lparr>env_net := link_net (center_map js hook port custom)\<rparr>) g w
      = (Inr (), g\<lparr>g_negotiated := negotiate (my_protocols g) ?theirs\<rparr>, w)"
    using assms by (rule link_negotiation)
  moreover have "negotiate (my_protocols g) ?theirs = standard_protocols
        @ filter (\<lambda>k. k \<in> set standard_keys \<or> k \<in> set (map handler_key custom)) (g_custom_keys g)"
    by (simp add: negotiate_def my_protocols_def standard_protocols_def standard_keys_def Let_def)
  ultimately show ?thesis by simp
qed

theorem negotiation_is_intersection_witness:
  "\<forall>env. negotiate_protocols (env\<lparr>env_net := link_net (center_map sample_json None 25565 [])\<rparr>)
        sample_guest sample_link
     = (Inr (), sample_guest\<lparr>g_negotiated := standard_protocols\<rparr>, sample_link)"
proof
  fix env :: "(center_room link, 'i, 'u, 'v, 'j) guest_env"
  show "negotiate_protocols (env\<lparr>env_net := link_net (center_map sample_json None 25565 [])\<rparr>)
        sample_guest sample_link
     = (Inr (), sample_guest\<lparr>g_negotiated := standard_protocols\<rparr>, sample_link)"
    using negotiation_is_intersection [where g = sample_guest and w = sample_link and custom = "[]"
        and js = sample_json and hook = None and port = 25565 and env = env]
    by (simp add: check_keys_ok my_protocols_def standard_protocols_def standard_keys_def)
qed

text \<open>
  C12: a player ping sent by a guest enters the player list of the centre: over the wire the list comes
  to represent the old roster with this player merged in, under the name, vendor and node id the
  guest gave, as a guest unless the machine is known already.
\<close>

theorem guest_ping_enters_list:
  assumes "check_keys standard_keys custom = Inr ()" and "link_ready g w"
    and "json_carries_ping (env_js env) \<lparr>pe_name = g_player_name g, pe_machine_id = g_machine_id g,
        pe_easytier_id = ping_node_id g, pe_vendor = g_vendor g, pe_kind = None\<rparr> body"
    and "length body < 2 ^ 32" and "unique_ids (players (room_roster (link_shared w)))"
    and "obtains_lock (lock_outcomes (link_shared w) (lock_calls (link_shared w)))"
  shows "\<exists>w'. send_player_ping (env\<lparr>env_net := link_net (center_map (env_js env) None port custom)\<rparr>) g w
        = (Inr (), g, w')
    \<and> unique_ids (players (room_roster (link_shared w')))
    \<and> roster_of (players (room_roster (link_shared w'))) =
        roster_ping \<lparr>pi_name = g_player_name g, pi_machine_id = g_machine_id g,
            pi_easytier_id = ping_node_id g, pi_vendor = g_vendor g, pi_kind = Host\<rparr>
          (roster_of (players (room_roster (link_shared w))))"
proof -
  let ?info = "\<lparr>pi_name = g_player_name g, pi_machine_id = g_machine_id g,
            pi_easytier_id = ping_node_id g, pi_vendor = g_vendor g, pi_kind = Host\<rparr>"
  let ?w' = "w\<lparr>link_shared := handle_player_ping ?info (link_shared w)\<rparr>"
  let ?env = "env\<lparr>env_net := link_net (center_map (env_js env) None port custom)\<rparr>"
  have parse: "parse_player_info (env_js env) body = Inr ?info"
    using assms(3) by (auto simp: json_carries_ping_def parse_player_info_def)
  have "send_player_ping ?env g w = (Inr (), g, ?w')"
  proof (rule link.player_ping [OF assms(2)])
    show "sj_entry_to_vec (env_js ?env) \<lparr>pe_name = g_player_name g, pe_machine_id = g_machine_id g,
        pe_easytier_id = ping_node_id g, pe_vendor = g_vendor g, pe_kind = None\<rparr> = Inr body"
      using assms(3) by (simp add: json_carries_ping_def)
    show "wf_request (standard_request ''player_ping'' body)"
      using assms(4) by (intro wf_standard_request) simp_all
    show "link_served (center_map (env_js env) None port custom) (standard_request ''player_ping'' body) w
        = (\<lparr>status = 0, resp_body = []\<rparr>, ?w')"
      using center_map_standard(3) [OF assms(1), of "env_js env" None port]
      by (subst link_served_standard [where h = "player_ping_protocol (env_js env)
            (\<lambda>info r. (True, handle_player_ping info r))"])
        (simp_all add: handle_player_ping parse, simp_all add: standard_request_def parse)
    show "wf_response \<lparr>status = 0, resp_body = []\<rparr>" by (simp add: wf_response_def)
  qed
  moreover have "players (room_roster (link_shared ?w')) = ping_section ?info (players (room_roster (link_shared w)))"
    using assms(6) by (simp add: Center.handle_player_ping_def players_ping)
  ultimately show ?thesis
    using player_list.ping_invar [OF assms(5), of ?info] player_list.ping_abs [OF assms(5), of ?info] by simp
qed

theorem guest_ping_enters_list_witness:
  "\<forall>env. \<exists>w'. send_player_ping (env\<lparr>env_js := sample_json,
        env_net := link_net (center_map sample_json None 25565 [])\<rparr>) sample_guest sample_link
     = (Inr (), sample_guest, w') \<and> unique_ids (players (room_roster (link_shared w')))"
proof
  fix env
  show "\<exists>w'. send_player_ping (env\<lparr>env_js := sample_json,
        env_net := link_net (center_map sample_json None 25565 [])\<rparr>) sample_guest sample_link
     = (Inr (), sample_guest, w') \<and> unique_ids (players (room_roster (link_shared w')))"
    using guest_ping_enters_list [where g = sample_guest and w = sample_link and custom = "[]" and port = 25565
        and env = "env\<lparr>env_js := sample_json\<rparr>" and body = "[1]"] sample_json_ping
    by (auto simp: check_keys_ok unique_ids_def)
qed

text \<open>
  C16: the player list a guest fetches over the wire is exactly the list of the centre: every player
  with name, machine id, node id, vendor and kind, in the order of the centre.
\<close>

theorem guest_sees_player_list:
  assumes "check_keys standard_keys custom = Inr ()" and "link_ready g w"
    and "json_carries_list (env_js env) (map player_to_entry (players (room_roster (link_shared w)))) body"
    and "length body < 2 ^ 32"
    and "obtains_lock (lock_outcomes (link_shared w) (lock_calls (link_shared w)))"
  shows "\<exists>w'. get_player_list (env\<lparr>env_net := link_net (center_map (env_js env) hook port custom)\<rparr>) g w
        = (Inr (players (room_roster (link_shared w))), g, w')
    \<and> room_roster (link_shared w') = room_roster (link_shared w)"
proof -
  let ?env = "env\<lparr>env_net := link_net (center_map (env_js env) hook port custom)\<rparr>"
  have "get_player_list ?env g w =
      (players_of_body (env_js env) body, g, w\<lparr>link_shared := snd (room_players (link_shared w))\<rparr>)"
    using assms(1,2) _ assms(4,5)
    by (rule link_player_list) (use assms(3) in \<open>simp add: json_carries_list_def\<close>)
  then show ?thesis
    using players_of_carried_list [OF assms(3)] by (simp add: room_players_def)
qed

theorem guest_sees_player_list_witness:
  "\<forall>env. \<exists>w'. get_player_list (env\<lparr>env_js := sample_json,
        env_net := link_net (center_map sample_json None 25565 [])\<rparr>) sample_guest sample_link
     = (Inr [sample_player ''H'' ''h1'' Host], sample_guest, w')"
proof
  fix env
  show "\<exists>w'. get_player_list (env\<lparr>env_js := sample_json,
        env_net := link_net (center_map sample_json None 25565 [])\<rparr>) sample_guest sample_link
     = (Inr [sample_player ''H'' ''h1'' Host], sample_guest, w')"
    using guest_sees_player_list [where g = sample_guest and w = sample_link and custom = "[]" and port = 25565
        and env = "env\<lparr>env_js := sample_json\<rparr>" and body = "[1]" and hook = None] sample_json_list
    by (auto simp: check_keys_ok)
qed

end
