(* ===== verification/Room_Network.thy ===== *)
theory Room_Network
  imports Tcp_Client Tcp_Server
begin

text \<open>
  The TCP server of a centre and any number of clients over one network: the tasks of the server of
  \<open>Client_Registry\<close>, the requests of \<open>Tcp_Client\<close>, and the bytes between them, in every interleaving.
  What the clients see is an atomic service: each request takes effect at one instant between being
  sent and being answered.  The environment may cut any of it short: a write that fails, a read that
  is late, a connection that is cancelled.
\<close>

section \<open>The network\<close>

text \<open>
  The connection with the same number as the connection task: bytes on the way in both directions,
  the bytes the client has and has not used, the request it waits for, and the outcomes so far.
  Two fields only record: the response that was computed for the request that is pending, and
  whether every request and response fitted the format and every read was in time.
\<close>

record wire =
  w_up :: "u8 list"
  w_down :: "u8 list"
  w_unread :: "u8 list"
  w_pending :: "protocol_request option"
  w_received :: "(protocol_request \<times> protocol_response res) list"
  w_answer :: "protocol_response option"
  w_intact :: bool

definition new_wire :: wire where
  "new_wire =
     \<lparr> w_up = [], w_down = [], w_unread = [], w_pending = None, w_received = [], w_answer = None,
       w_intact = True \<rparr>"

record 's network =
  net_server :: "'s server"
  wires :: "nat \<Rightarrow> wire"

definition set_wire :: "nat \<Rightarrow> wire \<Rightarrow> 's network \<Rightarrow> 's network" where
  "set_wire i w n = n\<lparr>wires := (wires n)(i := w)\<rparr>"

text \<open>
  The two halves of \<open>send\<close>: writing the request, of which a failed write has sent a part at most, and
  reading what arrived in time.
\<close>

definition wire_request_out :: "protocol_request \<Rightarrow> wire \<Rightarrow> wire" where
  "wire_request_out q w =
     w\<lparr> w_up := w_up w @ serialize_request q, w_pending := Some q, w_answer := None,
        w_intact := (w_intact w \<and> wf_request q) \<rparr>"

definition wire_request_failed :: "protocol_request \<Rightarrow> string \<Rightarrow> u8 list \<Rightarrow> wire \<Rightarrow> wire" where
  "wire_request_failed q e out w =
     w\<lparr> w_up := w_up w @ out, w_answer := None,
        w_received := w_received w @
          [(q, Inl (CenterConnection (msg_send_failed @ request_key q @ '': '' @ e)))],
        w_intact := False \<rparr>"

definition wire_response_in :: "protocol_request \<Rightarrow> nat \<Rightarrow> stream_end option \<Rightarrow> wire \<Rightarrow> wire" where
  "wire_response_in q k ending w =
     (let (r, rest) = read_response (request_key q) (w_unread w @ take k (w_down w)) ending
      in w\<lparr> w_down := drop k (w_down w), w_unread := rest, w_pending := None, w_answer := None,
            w_received := w_received w @ [(q, r)], w_intact := (w_intact w \<and> is_ok r) \<rparr>)"

text \<open>
  The two halves are \<open>send\<close> over this connection, whatever happens to the bytes between them.
\<close>

definition wire_net ::
  "(u8 list \<times> u8 list \<Rightarrow> u8 list \<times> u8 list) \<Rightarrow> nat \<Rightarrow> stream_end option \<Rightarrow> (u8 list \<times> u8 list) tcp_net" where
  "wire_net between k ending =
     \<lparr> net_connect = (\<lambda>_ _ w. (Connected 0, w)),
       net_write = (\<lambda>_ bytes (up, down). (Inr (), (up @ bytes, down))),
       net_arrive = (\<lambda>_ _ w. case between w of (up, down) \<Rightarrow> ((take k down, ending), (up, drop k down))),
       net_close = (\<lambda>_ w. w) \<rparr>"

lemma send_in_two_halves:
  fixes w :: wire and q :: protocol_request and k :: nat and ending :: "stream_end option"
    and up down :: "u8 list"
  defines "w1 \<equiv> wire_request_out q w"
  assumes "between (w_up w1, w_down w1) = (up, down)"
  defines "w2 \<equiv> wire_response_in q k ending (w1\<lparr>w_up := up, w_down := down\<rparr>)"
  shows "send (wire_net between k ending) q \<lparr>client_stream = Some (h, w_unread w)\<rparr> (w_up w, w_down w) =
    (snd (last (w_received w2)), \<lparr>client_stream = Some (h, w_unread w2)\<rparr>, (w_up w2, w_down w2))"
  using assms(2)
  by (simp add: send_def wire_net_def w2_def w1_def wire_request_out_def wire_response_in_def
      Let_def case_prod_beta)

text \<open>The two sides of a connection task: the request it has read, what it has written of the response.\<close>

definition wire_request_in :: "protocol_response \<Rightarrow> u8 list \<Rightarrow> wire \<Rightarrow> wire" where
  "wire_request_in r rest w =
     w\<lparr> w_up := rest, w_answer := Some r, w_intact := (w_intact w \<and> wf_response r) \<rparr>"

definition wire_response_out :: "u8 list \<Rightarrow> wire \<Rightarrow> wire" where
  "wire_response_out out w = w\<lparr>w_down := w_down w @ out\<rparr>"

section \<open>Its steps\<close>

text \<open>The steps of the server in which a connection task reads a request or has written, or failed to.\<close>

fun talks :: "server_label \<Rightarrow> bool" where
  "talks (Conn i (Read (Inr q))) = True"
| "talks (Conn i (Written u)) = True"
| "talks l = False"

datatype net_label =
    Request nat protocol_request
  | Request_fails nat protocol_request string
  | Deliver nat protocol_request protocol_response
  | Reply nat "string + unit"
  | Receive nat nat "stream_end option"
  | Server server_label

inductive net_step ::
  "'v serde_json \<Rightarrow> (string \<rightharpoonup> 's protocol_handler) \<Rightarrow> 's network \<Rightarrow> net_label \<Rightarrow> 's network \<Rightarrow> bool"
  for js protocols where
  request: "w_pending (wires n i) = None \<Longrightarrow>
     net_step js protocols n (Request i q) (set_wire i (wire_request_out q (wires n i)) n)"
| request_fails: "w_pending (wires n i) = None \<Longrightarrow> serialize_request q = out @ unsent \<Longrightarrow>
     net_step js protocols n (Request_fails i q e) (set_wire i (wire_request_failed q e out (wires n i)) n)"
| deliver: "deserialize_request_async \<lparr>incoming = w_up (wires n i), stream_end = Closed\<rparr> = (Inr q, rest) \<Longrightarrow>
     server_step js protocols (net_server n) (Conn i (Read (Inr q))) st \<Longrightarrow>
     conn_pc (conns st ! i) = Handling q r \<Longrightarrow>
     net_step js protocols n (Deliver i q r)
       (set_wire i (wire_request_in r (incoming rest) (wires n i)) (n\<lparr>net_server := st\<rparr>))"
| reply: "conn_pc (conns (net_server n) ! i) = Handling q r \<Longrightarrow>
     server_step js protocols (net_server n) (Conn i (Written u)) st \<Longrightarrow>
     serialize_response r = out @ unsent \<Longrightarrow> \<not> is_ok u \<or> unsent = [] \<Longrightarrow>
     net_step js protocols n (Reply i u)
       (set_wire i (wire_response_out out (wires n i)) (n\<lparr>net_server := st\<rparr>))"
| receive: "w_pending (wires n i) = Some q \<Longrightarrow>
     net_step js protocols n (Receive i k ending) (set_wire i (wire_response_in q k ending (wires n i)) n)"
| server: "\<not> talks l \<Longrightarrow> server_step js protocols (net_server n) l st \<Longrightarrow>
     net_step js protocols n (Server l) (n\<lparr>net_server := st\<rparr>)"

definition net_init :: "'s network \<Rightarrow> bool" where
  "net_init n \<longleftrightarrow> server_init (net_server n) \<and> wires n = (\<lambda>_. new_wire)"

section \<open>The atomic service\<close>

text \<open>
  What a caller is promised: it asks, at one instant the service answers from its state, and it is
  told that answer.  A caller that gave up or asked for what the format cannot carry is cut off and
  promised nothing, but what it asked may still take effect, as it was read.  \<open>Disturb\<close> is a change of
  the state by its owner, which is not a request.
\<close>

datatype caller = Idle | Asked protocol_request | Told protocol_request protocol_response | Cut_off

record 's service =
  callers :: "nat \<Rightarrow> caller"
  answers :: "nat \<Rightarrow> (protocol_request \<times> protocol_response) list"
  svc_state :: 's

datatype service_label =
    Invoke nat protocol_request
  | Take_effect nat protocol_request protocol_response
  | Respond nat
  | Cut nat
  | Stray nat protocol_request protocol_response
  | Disturb

inductive service_step ::
  "(string \<rightharpoonup> 's protocol_handler) \<Rightarrow> 's service \<Rightarrow> service_label \<Rightarrow> 's service \<Rightarrow> bool"
  for protocols where
  invoke: "callers v i = Idle \<Longrightarrow>
     service_step protocols v (Invoke i q) (v\<lparr>callers := (callers v)(i := Asked q)\<rparr>)"
| take_effect: "callers v i = Asked q \<Longrightarrow> dispatch protocols (wire_request q) (svc_state v) = (r, st) \<Longrightarrow>
     service_step protocols v (Take_effect i (wire_request q) r)
       (v\<lparr>callers := (callers v)(i := Told q r), svc_state := st\<rparr>)"
| respond: "callers v i = Told q r \<Longrightarrow>
     service_step protocols v (Respond i)
       (v\<lparr>callers := (callers v)(i := Idle), answers := (answers v)(i := answers v i @ [(q, r)])\<rparr>)"
| cut: "service_step protocols v (Cut i)
     (v\<lparr>callers := (callers v)(i := Cut_off), answers := (answers v)(i := [])\<rparr>)"
| stray: "dispatch protocols q (svc_state v) = (r, st) \<Longrightarrow> service_step protocols v (Stray i q r)
     (v\<lparr>callers := (callers v)(i := Cut_off), answers := (answers v)(i := []), svc_state := st\<rparr>)"
| disturb: "service_step protocols v Disturb (v\<lparr>svc_state := st\<rparr>)"

text \<open>
  Which steps of the service a step of the network may be.  Only a delivery changes the state of the
  service, by the request that was read, once; a disturbance only where the owner changed the state.
\<close>

fun matches :: "net_label \<Rightarrow> service_label list \<Rightarrow> bool" where
  "matches (Request i q) bs \<longleftrightarrow> bs = [Invoke i q] \<or> bs = [Cut i]"
| "matches (Request_fails i q e) bs \<longleftrightarrow> bs = [Cut i]"
| "matches (Deliver i q r) bs \<longleftrightarrow> bs = [Take_effect i q r] \<or> bs = [Stray i q r]"
| "matches (Reply i u) bs \<longleftrightarrow> bs = []"
| "matches (Receive i k e) bs \<longleftrightarrow> bs = [Respond i] \<or> bs = [Cut i]"
| "matches (Server l) bs \<longleftrightarrow> bs = (if l = Shared_change then [Disturb] else [])"

definition service_init :: "'s service \<Rightarrow> bool" where
  "service_init v \<longleftrightarrow> callers v = (\<lambda>_. Idle) \<and> answers v = (\<lambda>_. [])"

text \<open>What a state of the network stands for.\<close>

definition caller_of :: "wire \<Rightarrow> caller" where
  "caller_of w =
     (if \<not> w_intact w then Cut_off
      else case (w_pending w, w_answer w) of
             (None, _) \<Rightarrow> Idle
           | (Some q, None) \<Rightarrow> Asked q
           | (Some q, Some r) \<Rightarrow> Told q r)"

definition answers_of :: "wire \<Rightarrow> (protocol_request \<times> protocol_response) list" where
  "answers_of w = (if w_intact w then map (\<lambda>(q, r). (q, projr r)) (w_received w) else [])"

definition service_of :: "'s network \<Rightarrow> 's service" where
  "service_of n =
     \<lparr> callers = (\<lambda>i. caller_of (wires n i)), answers = (\<lambda>i. answers_of (wires n i)),
       svc_state = shared (net_server n) \<rparr>"

section \<open>The invariant\<close>

lemma set_wire_sel [simp]:
  "net_server (set_wire i w n) = net_server n" "wires (set_wire i w n) = (wires n)(i := w)"
  by (simp_all add: set_wire_def)

text \<open>What a connection task that is answering holds.\<close>

definition handling :: "'s server \<Rightarrow> nat \<Rightarrow> (protocol_request \<times> protocol_response) option" where
  "handling s i =
     (if i < length (conns s)
      then case conn_pc (conns s ! i) of Handling q r \<Rightarrow> Some (q, r) | _ \<Rightarrow> None
      else None)"

text \<open>
  While everything fits and is in time, the bytes on an intact wire are exactly the pending request,
  or what was written of its response, or none, and the task holds that response and no other.
\<close>

definition wire_ok :: "(protocol_request \<times> protocol_response) option \<Rightarrow> wire \<Rightarrow> bool" where
  "wire_ok held w \<longleftrightarrow> w_unread w = [] \<and> list_all (\<lambda>(q, r). is_ok r) (w_received w) \<and>
     (case (w_pending w, w_answer w) of
        (None, None) \<Rightarrow> w_up w = [] \<and> w_down w = [] \<and> held = None
      | (None, Some r) \<Rightarrow> False
      | (Some q, None) \<Rightarrow> wf_request q \<and> w_up w = serialize_request q \<and> w_down w = [] \<and> held = None
      | (Some q, Some r) \<Rightarrow> wf_response r \<and> w_up w = []
          \<and> (w_down w = [] \<and> (held = None \<or> held = Some (wire_request q, r))
             \<or> (\<exists>unsent. serialize_response r = w_down w @ unsent) \<and> held = None))"

definition net_inv :: "'s network \<Rightarrow> bool" where
  "net_inv n \<longleftrightarrow> (\<forall>i. w_intact (wires n i) \<longrightarrow> wire_ok (handling (net_server n) i) (wires n i))"

lemma net_inv_init: "net_init n \<Longrightarrow> net_inv n"
  by (auto simp: net_init_def net_inv_def new_wire_def wire_ok_def server_init_def new_server_def handling_def)

text \<open>Only the two talking steps change what a task holds; only reading a request changes the shared state.\<close>

lemma own_step_handling:
  assumes "conn_step js protocols i (conns s ! i) (conn_pc (conns s ! i)) io s = Some s'"
    and "i < length (conns s)" and "\<not> talks (Conn i io)"
  shows "(handling s' i = handling s i \<or> handling s' i = None) \<and> shared s' = shared s"
  using assms
  by (cases "(js, protocols, i, conns s ! i, conn_pc (conns s ! i), io, s)" rule: conn_step.cases)
    (auto simp: handling_def update_conn_def split: if_splits sum.splits option.splits)

lemma handling_other:
  assumes "server_step js protocols s l s'" and "\<forall>io. l \<noteq> Conn i io"
  shows "handling s' i = handling s i"
proof (cases "i < length (conns s)")
  case True
  with other_steps_frame [OF assms(1) True assms(2)] show ?thesis by (simp add: handling_def)
next
  case False
  have "handling s' i = None"
    using assms(1)
  proof (cases rule: server_step.cases)
    case (accept cid ip)
    with False show ?thesis by (auto simp: handling_def accept_client_def nth_append split: nat.splits)
  next
    case (conn j io)
    with conn_step_frame [OF conn(3)] False show ?thesis by (auto simp: handling_def)
  next
    case (sweep order)
    with False show ?thesis
      by (cases "(sweep s, order, s)" rule: sweep_step.cases) (auto simp: handling_def split: option.splits)
  next
    case (kick k)
    with False show ?thesis by (cases "kicks s ! k") (auto simp: handling_def split: option.splits)
  qed (use False in \<open>auto simp: handling_def kick_find_def cancel_server_def split: option.splits\<close>)
  with False show ?thesis by (simp add: handling_def)
qed

lemma silent_step:
  assumes "server_step js protocols s l s'" and "\<not> talks l"
  shows "(handling s' i = handling s i \<or> handling s' i = None) \<and> (l \<noteq> Shared_change \<longrightarrow> shared s' = shared s)"
proof (cases "\<exists>j io. l = Conn j io")
  case True
  then obtain j io where l: "l = Conn j io" by blast
  with assms(1) have "j < length (conns s)"
    "conn_step js protocols j (conns s ! j) (conn_pc (conns s ! j)) io s = Some s'"
    by (auto elim: conn_stepE)
  from own_step_handling [OF this(2,1)] assms l handling_other [OF assms(1), of i] show ?thesis
    by (cases "j = i") auto
next
  case False
  then have "handling s' i = handling s i" using handling_other [OF assms(1)] by blast
  moreover have "l \<noteq> Shared_change \<longrightarrow> shared s' = shared s"
    using assms(1)
  proof (cases rule: server_step.cases)
    case (sweep order)
    then show ?thesis
      by (cases "(sweep s, order, s)" rule: sweep_step.cases) (auto split: option.splits)
  next
    case (kick k)
    then show ?thesis by (cases "kicks s ! k") (auto split: option.splits)
  qed (use False in \<open>auto simp: accept_client_def kick_find_def cancel_server_def split: option.splits\<close>)
  ultimately show ?thesis by simp
qed

text \<open>Reading a request, and having written a response.\<close>

lemma deliver_handling:
  assumes "server_step js protocols s (Conn i (Read (Inr q))) s'" and "conn_pc (conns s' ! i) = Handling q r"
  shows "dispatch protocols q (shared s) = (r, shared s') \<and> handling s' i = Some (q, r) \<and> handling s i = None"
  using assms
  by (cases "conn_pc (conns s ! i)")
    (auto simp: server_step_conn handling_def update_conn_def split: if_splits prod.splits)

lemma reply_handling:
  assumes "server_step js protocols s (Conn i (Written u)) s'" and "conn_pc (conns s ! i) = Handling q r"
  shows "handling s i = Some (q, r) \<and> handling s' i = None \<and> shared s' = shared s"
  using assms by (auto simp: server_step_conn handling_def update_conn_def split: if_splits sum.splits)

section \<open>One wire\<close>

lemma wire_ok_request:
  assumes "wire_ok held w" and "w_pending w = None" and "wf_request q"
  shows "wire_ok held (wire_request_out q w)"
  using assms by (auto simp: wire_ok_def wire_request_out_def split: option.splits)

lemma wire_ok_delivered:
  assumes "wire_ok held w"
    and "deserialize_request_async \<lparr>incoming = w_up w, stream_end = Closed\<rparr> = (Inr q', rest)"
  shows "\<exists>q. w_pending w = Some q \<and> w_answer w = None \<and> q' = wire_request q \<and> incoming rest = []"
proof -
  have "w_up w \<noteq> []" using assms(2) by (auto simp: deserialize_request_Inr)
  then obtain q where q: "w_pending w = Some q" "w_answer w = None" "wf_request q" "w_up w = serialize_request q"
    using assms(1) by (auto simp: wire_ok_def split: option.splits)
  with assms(2) request_frames.decode_encode [OF q(3), of "[]" Closed] show ?thesis by auto
qed

lemma wire_ok_deliver:
  assumes "wire_ok held w" and "w_pending w = Some q" and "w_answer w = None" and "wf_response r"
  shows "wire_ok (Some (wire_request q, r)) (wire_request_in r [] w)"
  using assms by (auto simp: wire_ok_def wire_request_in_def)

lemma wire_ok_reply:
  assumes "wire_ok (Some (q, r)) w" and "serialize_response r = out @ unsent"
  shows "wire_ok None (wire_response_out out w)"
  using assms by (auto simp: wire_ok_def wire_response_out_def split: option.splits)

lemma wire_ok_task_gone: "wire_ok held w \<Longrightarrow> wire_ok None w"
  by (auto simp: wire_ok_def split: option.splits)

lemma read_response_Inr:
  assumes "read_response key bytes ending = (Inr m, rest)"
  shows "\<exists>e r. deserialize_response_async \<lparr>incoming = bytes, stream_end = e\<rparr> = (Inr m, r) \<and> incoming r = rest"
  using assms
  by (auto simp: read_response_def Let_def split: prod.splits sum.splits option.splits)

lemma wire_ok_received:
  assumes "wire_ok held w" and "w_pending w = Some q"
    and "read_response key (w_unread w @ take k (w_down w)) ending = (Inr m, rest)"
  shows "w_answer w = Some m \<and> rest = [] \<and> drop k (w_down w) = [] \<and> held = None \<and> w_up w = []"
proof -
  obtain e r where dec: "deserialize_response_async \<lparr>incoming = take k (w_down w), stream_end = e\<rparr> = (Inr m, r)"
    and rest: "incoming r = rest"
    using read_response_Inr [OF assms(3)] assms(1) by (auto simp: wire_ok_def)
  then have "w_down w \<noteq> []" by (auto simp: deserialize_response_Inr)
  with assms(1,2) obtain a unsent where a: "w_answer w = Some a" "wf_response a"
    "serialize_response a = w_down w @ unsent" "held = None" "w_up w = []"
    by (auto simp: wire_ok_def split: option.splits)
  have "take k (w_down w) @ drop k (w_down w) @ unsent = serialize_response a"
    using a(3) by (simp flip: append_assoc)
  with response_frames.decode_extend [OF dec, of "drop k (w_down w) @ unsent" Closed]
  have "deserialize_response_async \<lparr>incoming = serialize_response a, stream_end = Closed\<rparr>
      = (Inr m, \<lparr>incoming = rest @ drop k (w_down w) @ unsent, stream_end = Closed\<rparr>)"
    using rest by simp
  with response_frames.decode_encode [OF a(2), of "[]" Closed] a show ?thesis by simp
qed

lemma wire_ok_receive:
  assumes "wire_ok held w" and "w_pending w = Some q" and "w_intact (wire_response_in q k ending w)"
  shows "\<exists>r. w_answer w = Some r \<and> w_received (wire_response_in q k ending w) = w_received w @ [(q, Inr r)]
    \<and> wire_ok held (wire_response_in q k ending w)"
proof -
  obtain res rest where rr: "read_response (request_key q) (w_unread w @ take k (w_down w)) ending = (res, rest)"
    by fastforce
  with assms(3) obtain m where "res = Inr m" by (cases res) (auto simp: wire_response_in_def)
  with wire_ok_received [OF assms(1,2), of "request_key q" k ending m rest] rr assms(1) show ?thesis
    by (auto simp: wire_response_in_def wire_ok_def)
qed

section \<open>The network refines the service\<close>

lemma net_inv_set_wire:
  assumes "net_inv n" and "\<And>j. j \<noteq> i \<Longrightarrow> handling st j = handling (net_server n) j"
    and "w_intact w \<Longrightarrow> wire_ok (handling st i) w"
  shows "net_inv (set_wire i w (n\<lparr>net_server := st\<rparr>))"
  using assms by (auto simp: net_inv_def)

lemma net_inv_set_wire_only:
  assumes "net_inv n" and "w_intact w \<Longrightarrow> wire_ok (handling (net_server n) i) w"
  shows "net_inv (set_wire i w n)"
  using assms by (auto simp: net_inv_def)

lemma net_inv_intact: "net_inv n \<Longrightarrow> w_intact (wires n i) \<Longrightarrow> wire_ok (handling (net_server n) i) (wires n i)"
  by (simp add: net_inv_def)

lemma service_of_set_wire:
  "service_of (set_wire i w (n\<lparr>net_server := st\<rparr>)) =
     (service_of n)\<lparr>callers := (callers (service_of n))(i := caller_of w),
        answers := (answers (service_of n))(i := answers_of w), svc_state := shared st\<rparr>"
  by (auto simp: service_of_def)

lemma service_of_set_wire_only:
  "service_of (set_wire i w n) =
     (service_of n)\<lparr>callers := (callers (service_of n))(i := caller_of w),
        answers := (answers (service_of n))(i := answers_of w)\<rparr>"
  by (auto simp: service_of_def)

lemma callers_service_of [simp]: "callers (service_of n) i = caller_of (wires n i)"
  "answers (service_of n) i = answers_of (wires n i)" "svc_state (service_of n) = shared (net_server n)"
  by (simp_all add: service_of_def)

lemma service_of_kept:
  assumes "caller_of w = caller_of (wires n i)"
  shows "(callers (service_of n))(i := caller_of w) = callers (service_of n)"
  using assms by (simp add: fun_eq_iff)

lemma answers_of_kept:
  assumes "answers_of w = answers_of (wires n i)"
  shows "(answers (service_of n))(i := answers_of w) = answers (service_of n)"
  using assms by (simp add: fun_eq_iff)

lemma service_fields_kept [simp]:
  "v\<lparr>callers := c, answers := answers v\<rparr> = v\<lparr>callers := c\<rparr>"
  "v\<lparr>callers := c, answers := answers v, svc_state := st\<rparr> = v\<lparr>callers := c, svc_state := st\<rparr>"
  "v\<lparr>callers := callers v, svc_state := svc_state v\<rparr> = (v :: 's service)"
  by (cases v; simp)+

text \<open>A wire that is no longer intact stays so, and stands for a caller that is cut off.\<close>

lemma cut_wire:
  assumes "\<not> w_intact w'"
  shows "caller_of w' = Cut_off" and "answers_of w' = []"
  using assms by (simp_all add: caller_of_def answers_of_def)

text \<open>What a step must do: keep the invariant, and be steps of the service that match its label.\<close>

definition simulated ::
  "(string \<rightharpoonup> 's protocol_handler) \<Rightarrow> 's network \<Rightarrow> net_label \<Rightarrow> 's network \<Rightarrow> bool" where
  "simulated protocols n l n' \<longleftrightarrow> net_inv n' \<and>
     (\<exists>bs. matches l bs \<and> run (service_step protocols) (service_of n) bs (service_of n'))"

lemma simulated_step:
  assumes "net_inv n'" and "service_step protocols (service_of n) b (service_of n')" and "matches l [b]"
  shows "simulated protocols n l n'"
  using assms run_Cons [where step = "service_step protocols", OF assms(2) run_Nil] by (auto simp: simulated_def)

lemma simulated_cut:
  assumes "net_inv (set_wire i w n)" and "\<not> w_intact w" and "matches l [Cut i]"
  shows "simulated protocols n l (set_wire i w n)"
  using assms(1,3) service_step.cut [of protocols "service_of n" i]
  by (auto simp: service_of_set_wire_only cut_wire [OF assms(2)] intro: simulated_step)

lemma request_simulated:
  assumes "net_inv n" and "w_pending (wires n i) = None"
  shows "simulated protocols n (Request i q) (set_wire i (wire_request_out q (wires n i)) n)"
proof -
  let ?w = "wires n i" and ?w' = "wire_request_out q (wires n i)"
  have ok: "w_intact ?w' \<Longrightarrow> w_intact ?w \<and> wf_request q" by (simp add: wire_request_out_def)
  then have inv: "net_inv (set_wire i ?w' n)"
    using net_inv_set_wire_only [OF assms(1)] net_inv_intact [OF assms(1), of i]
      wire_ok_request [OF _ assms(2)] by blast
  show ?thesis
  proof (cases "w_intact ?w'")
    case True
    with ok assms(2) have "caller_of ?w = Idle" "caller_of ?w' = Asked q" "answers_of ?w' = answers_of ?w"
      by (simp_all add: caller_of_def answers_of_def wire_request_out_def)
    moreover from this have "service_of (set_wire i ?w' n)
        = (service_of n)\<lparr>callers := (callers (service_of n))(i := Asked q)\<rparr>"
      by (simp only: service_of_set_wire_only answers_of_kept service_fields_kept)
    ultimately have "service_step protocols (service_of n) (Invoke i q) (service_of (set_wire i ?w' n))"
      using service_step.invoke [of "service_of n" i protocols q] by simp
    with inv show ?thesis by (rule simulated_step) simp
  next
    case False
    with inv show ?thesis by (intro simulated_cut) simp_all
  qed
qed

lemma request_fails_simulated:
  assumes "net_inv n"
  shows "simulated protocols n (Request_fails i q e) (set_wire i (wire_request_failed q e out (wires n i)) n)"
  by (intro simulated_cut net_inv_set_wire_only [OF assms]) (simp_all add: wire_request_failed_def)

lemma deliver_simulated:
  assumes "net_inv n"
    and "deserialize_request_async \<lparr>incoming = w_up (wires n i), stream_end = Closed\<rparr> = (Inr q, rest)"
    and "server_step js protocols (net_server n) (Conn i (Read (Inr q))) st"
    and "conn_pc (conns st ! i) = Handling q r"
  shows "simulated protocols n (Deliver i q r)
    (set_wire i (wire_request_in r (incoming rest) (wires n i)) (n\<lparr>net_server := st\<rparr>))"
proof -
  let ?w = "wires n i" and ?w' = "wire_request_in r (incoming rest) (wires n i)"
  from deliver_handling [OF assms(3,4)]
  have d: "dispatch protocols q (shared (net_server n)) = (r, shared st)" and held: "handling st i = Some (q, r)"
    by simp_all
  have others: "j \<noteq> i \<Longrightarrow> handling st j = handling (net_server n) j" for j
    using handling_other [OF assms(3)] by simp
  have ok: "w_intact ?w' \<Longrightarrow> w_intact ?w \<and> wf_response r" by (simp add: wire_request_in_def)
  have asked: "\<exists>p. w_pending ?w = Some p \<and> w_answer ?w = None \<and> q = wire_request p \<and> incoming rest = []"
    if "w_intact ?w" using wire_ok_delivered [OF net_inv_intact [OF assms(1) that] assms(2)] .
  have inv: "net_inv (set_wire i ?w' (n\<lparr>net_server := st\<rparr>))"
  proof (rule net_inv_set_wire [OF assms(1) others])
    assume "w_intact ?w'"
    with ok have "w_intact ?w" "wf_response r" by simp_all
    with asked wire_ok_deliver [OF net_inv_intact [OF assms(1)], of i _ r] held
    show "wire_ok (handling st i) ?w'" by auto
  qed
  show ?thesis
  proof (cases "w_intact ?w'")
    case True
    with ok asked obtain p where p: "w_pending ?w = Some p" "w_answer ?w = None" "q = wire_request p" by blast
    have "w_intact ?w" "wf_response r" using True ok by blast+
    with p(1,2) have "caller_of ?w = Asked p" "caller_of ?w' = Told p r" "answers_of ?w' = answers_of ?w"
      by (simp_all add: caller_of_def answers_of_def wire_request_in_def)
    moreover from this have "service_of (set_wire i ?w' (n\<lparr>net_server := st\<rparr>))
        = (service_of n)\<lparr>callers := (callers (service_of n))(i := Told p r), svc_state := shared st\<rparr>"
      by (simp only: service_of_set_wire answers_of_kept service_fields_kept)
    ultimately have "service_step protocols (service_of n) (Take_effect i q r)
        (service_of (set_wire i ?w' (n\<lparr>net_server := st\<rparr>)))"
      using service_step.take_effect [of "service_of n" i p protocols r "shared st"] d p(3) by simp
    with inv show ?thesis by (rule simulated_step) simp
  next
    case False
    have "service_step protocols (service_of n) (Stray i q r) (service_of (set_wire i ?w' (n\<lparr>net_server := st\<rparr>)))"
      using service_step.stray [of protocols q "service_of n" r "shared st" i] d
      by (simp add: service_of_set_wire cut_wire [OF False])
    with inv show ?thesis by (rule simulated_step) simp
  qed
qed

lemma reply_simulated:
  assumes "net_inv n" and "conn_pc (conns (net_server n) ! i) = Handling q r"
    and "server_step js protocols (net_server n) (Conn i (Written u)) st"
    and "serialize_response r = out @ unsent"
  shows "simulated protocols n (Reply i u) (set_wire i (wire_response_out out (wires n i)) (n\<lparr>net_server := st\<rparr>))"
proof -
  let ?w = "wires n i" and ?w' = "wire_response_out out (wires n i)"
  from reply_handling [OF assms(3,2)]
  have h: "handling (net_server n) i = Some (q, r)" "handling st i = None" "shared st = shared (net_server n)"
    by simp_all
  have "net_inv (set_wire i ?w' (n\<lparr>net_server := st\<rparr>))"
  proof (rule net_inv_set_wire [OF assms(1)])
    show "handling st j = handling (net_server n) j" if "j \<noteq> i" for j
      using handling_other [OF assms(3)] that by simp
    assume "w_intact ?w'"
    with net_inv_intact [OF assms(1), of i] wire_ok_reply [OF _ assms(4), of q ?w] h
    show "wire_ok (handling st i) ?w'" by (simp add: wire_response_out_def)
  qed
  moreover have "service_of (set_wire i ?w' (n\<lparr>net_server := st\<rparr>)) = service_of n"
  proof -
    have "caller_of ?w' = caller_of ?w" "answers_of ?w' = answers_of ?w"
      by (simp_all add: wire_response_out_def caller_of_def answers_of_def)
    moreover have "shared st = svc_state (service_of n)" using h(3) by simp
    ultimately show ?thesis
      by (simp only: service_of_set_wire service_of_kept answers_of_kept service_fields_kept)
  qed
  ultimately show ?thesis by (simp add: simulated_def run_Nil)
qed

lemma receive_simulated:
  assumes "net_inv n" and "w_pending (wires n i) = Some q"
  shows "simulated protocols n (Receive i k ending) (set_wire i (wire_response_in q k ending (wires n i)) n)"
proof -
  let ?w = "wires n i" and ?w' = "wire_response_in q k ending (wires n i)"
  have ok: "w_intact ?w' \<Longrightarrow> w_intact ?w" by (simp add: wire_response_in_def case_prod_beta Let_def)
  have step: "\<exists>r. w_answer ?w = Some r \<and> w_received ?w' = w_received ?w @ [(q, Inr r)]
      \<and> wire_ok (handling (net_server n) i) ?w'" if "w_intact ?w'"
    using wire_ok_receive [OF net_inv_intact [OF assms(1) ok [OF that]] assms(2) that] .
  then have inv: "net_inv (set_wire i ?w' n)"
    using net_inv_set_wire_only [OF assms(1)] by blast
  show ?thesis
  proof (cases "w_intact ?w'")
    case True
    with step obtain r where r: "w_answer ?w = Some r" "w_received ?w' = w_received ?w @ [(q, Inr r)]" by blast
    have "w_pending ?w' = None" by (simp add: wire_response_in_def case_prod_beta Let_def)
    with r True ok assms(2) have "caller_of ?w = Told q r" "caller_of ?w' = Idle"
      "answers_of ?w' = answers_of ?w @ [(q, r)]"
      by (simp_all add: caller_of_def answers_of_def)
    then have "service_step protocols (service_of n) (Respond i) (service_of (set_wire i ?w' n))"
      using service_step.respond [of "service_of n" i q r protocols]
      by (simp add: service_of_set_wire_only)
    with inv show ?thesis by (rule simulated_step) simp
  next
    case False
    with inv show ?thesis by (intro simulated_cut) simp_all
  qed
qed

lemma server_simulated:
  assumes "net_inv n" and "\<not> talks l" and "server_step js protocols (net_server n) l st"
  shows "simulated protocols n (Server l) (n\<lparr>net_server := st\<rparr>)"
proof -
  have held: "handling st i = handling (net_server n) i \<or> handling st i = None"
    and same: "l \<noteq> Shared_change \<Longrightarrow> shared st = shared (net_server n)" for i
    using silent_step [OF assms(3,2), of i] by simp_all
  have "net_inv (n\<lparr>net_server := st\<rparr>)"
    using held net_inv_intact [OF assms(1)] wire_ok_task_gone by (auto simp: net_inv_def) metis
  moreover have "service_of (n\<lparr>net_server := st\<rparr>) = (service_of n)\<lparr>svc_state := shared st\<rparr>"
    by (simp add: service_of_def)
  moreover have "(service_of n)\<lparr>svc_state := shared (net_server n)\<rparr> = service_of n"
    by (simp add: service_of_def)
  ultimately show ?thesis
    using service_step.disturb [of protocols "service_of n" "shared st"] same
    by (cases "l = Shared_change") (simp_all add: simulated_step simulated_def [of protocols n "Server l"] run_Nil)
qed

lemma net_step_simulated: "net_inv n \<Longrightarrow> net_step js protocols n l n' \<Longrightarrow> simulated protocols n l n'"
  by (erule net_step.cases)
    (auto intro: request_simulated request_fails_simulated deliver_simulated reply_simulated receive_simulated server_simulated)

interpretation network: matched_system net_init "net_step js protocols" net_inv
  service_of service_init "service_step protocols" matches
  for js :: "'v serde_json" and protocols :: "string \<rightharpoonup> 's protocol_handler"
proof unfold_locales
  fix n n' :: "'s network" and l
  show "net_inv n" if "net_init n" using that by (rule net_inv_init)
  show "service_init (service_of n)" if "net_init n"
    using that by (simp add: net_init_def service_init_def service_of_def caller_of_def answers_of_def new_wire_def)
  show "net_inv n'" if "net_inv n" "net_step js protocols n l n'"
    using net_step_simulated [OF that] by (simp add: simulated_def)
  show "\<exists>bs. matches l bs \<and> run (service_step protocols) (service_of n) bs (service_of n')"
    if "net_inv n" "net_step js protocols n l n'"
    using net_step_simulated [OF that] by (auto simp: simulated_def)
qed

section \<open>What an answer is\<close>

definition answered ::
  "(string \<rightharpoonup> 's protocol_handler) \<Rightarrow> protocol_request \<times> protocol_response \<Rightarrow> bool" where
  "answered protocols = (\<lambda>(q, r). \<exists>st. r = fst (dispatch protocols (wire_request q) st))"

definition service_inv :: "(string \<rightharpoonup> 's protocol_handler) \<Rightarrow> 's service \<Rightarrow> bool" where
  "service_inv protocols v \<longleftrightarrow>
     (\<forall>i. (\<forall>q r. callers v i = Told q r \<longrightarrow> answered protocols (q, r))
        \<and> list_all (answered protocols) (answers v i))"

lemma service_inv_step:
  assumes "service_inv protocols v" and "service_step protocols v l v'"
  shows "service_inv protocols v'"
  using assms(2)
proof cases
  case (take_effect i q r st)
  then have "answered protocols (q, r)" by (auto simp: answered_def intro: exI [of _ "svc_state v"])
  with assms(1) take_effect show ?thesis by (simp add: service_inv_def)
qed (use assms(1) in \<open>auto simp: service_inv_def\<close>)

interpretation service: invariant_system service_init "service_step protocols" "service_inv protocols"
  for protocols :: "string \<rightharpoonup> 's protocol_handler"
proof unfold_locales
  show "service_inv protocols v" if "service_init v" for v
    using that by (simp add: service_init_def service_inv_def)
qed (rule service_inv_step)

section \<open>What took effect\<close>

text \<open>The requests that connection tasks read, and those that take effect in the service.\<close>

fun deliveries :: "net_label list \<Rightarrow> (nat \<times> protocol_request \<times> protocol_response) list" where
  "deliveries [] = []"
| "deliveries (Deliver i q r # ls) = (i, q, r) # deliveries ls"
| "deliveries (l # ls) = deliveries ls"

fun effects :: "service_label list \<Rightarrow> (nat \<times> protocol_request \<times> protocol_response) list" where
  "effects [] = []"
| "effects (Take_effect i q r # bs) = (i, q, r) # effects bs"
| "effects (Stray i q r # bs) = (i, q, r) # effects bs"
| "effects (b # bs) = effects bs"

lemma effects_append [simp]: "effects (bs @ cs) = effects bs @ effects cs"
  by (induction bs rule: effects.induct) simp_all

lemma deliveries_append: "deliveries (ls @ ls') = deliveries ls @ deliveries ls'"
  by (induction ls rule: deliveries.induct) simp_all

lemma matched_effects: "list_all2 matches ls bss \<Longrightarrow> effects (concat bss) = deliveries ls"
proof (induction ls bss rule: list_all2_induct)
  case (Cons l ls bs bss)
  then show ?case by (cases l) (auto split: if_splits)
qed simp

lemma matched_undisturbed:
  "list_all2 matches ls bss \<Longrightarrow> Server Shared_change \<notin> set ls \<Longrightarrow> Disturb \<notin> set (concat bss)"
proof (induction ls bss rule: list_all2_induct)
  case (Cons l ls bs bss)
  then show ?case by (cases l) (auto split: if_splits)
qed simp

text \<open>The callers that are cut off in a run of the service: for good.\<close>

fun cut_by :: "service_label \<Rightarrow> nat set" where
  "cut_by (Cut i) = {i}"
| "cut_by (Stray i q r) = {i}"
| "cut_by _ = {}"

definition cuts :: "service_label list \<Rightarrow> nat set" where
  "cuts bs = (\<Union>b \<in> set bs. cut_by b)"

lemma cuts_simps [simp]: "cuts [] = {}" "cuts (b # bs) = cut_by b \<union> cuts bs"
  by (simp_all add: cuts_def)

lemma service_step_cut:
  "service_step protocols v b v' \<Longrightarrow> callers v i = Cut_off \<or> i \<in> cut_by b \<Longrightarrow> callers v' i = Cut_off"
  by (erule service_step.cases) auto

lemma service_run_cut:
  "run (service_step protocols) v bs v' \<Longrightarrow> callers v i = Cut_off \<or> i \<in> cuts bs \<Longrightarrow> callers v' i = Cut_off"
proof (induction rule: run.induct)
  case (run_Cons v b v' bs v'')
  then show ?case using service_step_cut [OF run_Cons.hyps(1)] by auto
qed simp

text \<open>What a caller has been told, and what it is about to be told.\<close>

definition history :: "'s service \<Rightarrow> nat \<Rightarrow> (protocol_request \<times> protocol_response) list" where
  "history v i =
     map (apfst wire_request) (answers v i)
       @ (case callers v i of Told q r \<Rightarrow> [(wire_request q, r)] | _ \<Rightarrow> [])"

lemma service_run_effects:
  "run (service_step protocols) v bs v' \<Longrightarrow> i \<notin> cuts bs \<Longrightarrow>
     history v' i = history v i @ map snd (filter (\<lambda>d. fst d = i) (effects bs))"
proof (induction rule: run.induct)
  case (run_Cons v b v' bs v'')
  from run_Cons.hyps(1) run_Cons.prems
  have "history v' i = history v i @ map snd (filter (\<lambda>d. fst d = i) (effects [b]))"
    by (cases rule: service_step.cases) (auto simp: history_def split: caller.splits)
  with run_Cons.IH run_Cons.prems show ?case using effects_append [of "[b]" bs] by simp
qed simp

lemma service_run_state:
  "run (service_step protocols) v bs v' \<Longrightarrow> Disturb \<notin> set bs \<Longrightarrow>
     svc_state v' = fold (\<lambda>(i, q, r) st. snd (dispatch protocols q st)) (effects bs) (svc_state v)"
proof (induction rule: run.induct)
  case (run_Cons v b v' bs v'')
  from run_Cons.hyps(1) run_Cons.prems
  have "svc_state v' = fold (\<lambda>(i, q, r) st. snd (dispatch protocols q st)) (effects [b]) (svc_state v)"
    by (cases rule: service_step.cases) auto
  with run_Cons.IH run_Cons.prems show ?case using effects_append [of "[b]" bs] by simp
qed simp

text \<open>The same on a wire.\<close>

definition answered_on :: "wire \<Rightarrow> (protocol_request \<times> protocol_response) list" where
  "answered_on w =
     map (\<lambda>(q, r). (wire_request q, projr r)) (w_received w)
       @ (case (w_pending w, w_answer w) of (Some q, Some r) \<Rightarrow> [(wire_request q, r)] | _ \<Rightarrow> [])"

lemma history_answered: "w_intact (wires n i) \<Longrightarrow> history (service_of n) i = answered_on (wires n i)"
  by (auto simp: history_def answered_on_def answers_of_def caller_of_def split: option.splits)

section \<open>An exchange\<close>

text \<open>A wire on which nothing is under way.\<close>

definition quiet :: "wire \<Rightarrow> bool" where
  "quiet w \<longleftrightarrow> w_up w = [] \<and> w_down w = [] \<and> w_unread w = [] \<and> w_pending w = None"

text \<open>
  When its connection task serves and nobody else moves, a client gets the response to its request
  in four steps, and everything is quiet again.
\<close>

lemma exchange:
  fixes protocols :: "string \<rightharpoonup> 's protocol_handler"
  assumes "i < length (conns (net_server n))" and "conn_pc (conns (net_server n) ! i) = Serving"
    and "\<not> cancelled (net_server n) server_token"
    and "\<not> cancelled (net_server n) (conn_ct (conns (net_server n) ! i))"
    and "quiet (wires n i)" and "wf_request q"
    and "dispatch protocols (wire_request q) (shared (net_server n)) = (r, st)" and "wf_response r"
  shows "\<exists>n'. run (net_step js protocols) n
      [Request i q, Deliver i (wire_request q) r, Reply i (Inr ()), Receive i (length (serialize_response r)) None] n'
    \<and> w_received (wires n' i) = w_received (wires n i) @ [(q, Inr r)]
    \<and> w_intact (wires n' i) = w_intact (wires n i) \<and> quiet (wires n' i) \<and> shared (net_server n') = st"
proof -
  let ?p = "wire_request q" and ?c = "conns (net_server n) ! i"
  define s1 where "s1 = update_conn i (set_pc (Handling ?p r) ?c) (net_server n\<lparr>shared := st\<rparr>)"
  define s2 where "s2 = update_conn i ((conns s1 ! i)\<lparr>conn_served := conn_served (conns s1 ! i) @ [(?p, r)],
      conn_pc := (if request_key ?p = ''c:player_ping'' \<and> is_success r then Note_heartbeat ?p else Serving)\<rparr>) s1"
  define w1 where "w1 = wire_request_out q (wires n i)"
  define w2 where "w2 = wire_request_in r [] w1"
  define w3 where "w3 = wire_response_out (serialize_response r) w2"
  define w4 where "w4 = wire_response_in q (length (serialize_response r)) None w3"
  define n1 where "n1 = set_wire i w1 n"
  define n2 where "n2 = set_wire i w2 (n1\<lparr>net_server := s1\<rparr>)"
  define n3 where "n3 = set_wire i w3 (n2\<lparr>net_server := s2\<rparr>)"
  define n4 where "n4 = set_wire i w4 n3"
  note news = n1_def n2_def n3_def
  have pc: "i < length (conns s1)" "conn_pc (conns s1 ! i) = Handling ?p r"
    using assms(1) by (simp_all add: s1_def update_conn_def set_pc_def)
  have "net_step js protocols n (Request i q) n1"
    using net_step.request [of n i js protocols q] assms(5) by (simp add: n1_def w1_def quiet_def)
  moreover have "net_step js protocols n1 (Deliver i ?p r) n2"
  proof -
    have up: "deserialize_request_async \<lparr>incoming = w_up (wires n1 i), stream_end = Closed\<rparr>
        = (Inr ?p, \<lparr>incoming = [], stream_end = Closed\<rparr>)"
      using request_frames.decode_encode [OF assms(6), of "[]" Closed] assms(5)
      by (simp add: n1_def w1_def wire_request_out_def quiet_def)
    have "server_step js protocols (net_server n1) (Conn i (Read (Inr ?p))) s1"
      using assms(1-4,7) by (simp add: server_step_conn n1_def s1_def)
    from net_step.deliver [OF up this pc(2)] show ?thesis by (simp add: n2_def w2_def n1_def)
  qed
  moreover have "net_step js protocols n2 (Reply i (Inr ())) n3"
  proof -
    have "server_step js protocols (net_server n2) (Conn i (Written (Inr ()))) s2"
      using pc by (simp add: server_step_conn n2_def s2_def)
    from net_step.reply [OF _ this, of ?p r "serialize_response r" "[]"] pc(2)
    show ?thesis by (simp add: n3_def w3_def n2_def)
  qed
  moreover have "net_step js protocols n3 (Receive i (length (serialize_response r)) None) n4"
    using net_step.receive [of n3 i q js protocols "length (serialize_response r)" None]
    by (simp add: n4_def w4_def n3_def w3_def w2_def w1_def wire_response_out_def wire_request_in_def
        wire_request_out_def)
  moreover have "w_received w4 = w_received (wires n i) @ [(q, Inr r)]"
    "w_intact w4 = w_intact (wires n i)" "quiet w4"
    using assms(5,6,8) read_response_frame [OF assms(8), of "request_key q" "[]" None]
    by (simp_all add: w4_def w3_def w2_def w1_def wire_response_in_def wire_response_out_def
        wire_request_in_def wire_request_out_def quiet_def)
  moreover have "shared (net_server n4) = st"
    by (simp add: n4_def n3_def s2_def s1_def update_conn_def)
  ultimately show ?thesis
    by (intro exI [of _ n4]) (auto intro!: run.intros simp: n4_def)
qed

section \<open>Properties\<close>

text \<open>
  C4: The server and its clients together are linearizable.  Whatever the interleaving of the
  connection tasks, the heartbeat loop, the calls from outside and the clients, a run of the network
  is, step by step, a run of an atomic service: sending a request invokes it, the delivery to its
  connection task is the one instant at which it takes effect, through its handler, and receiving the
  response returns it.  As long as everything on a connection fits its format and is in time, the
  requests that were delivered on it are exactly those answered, and the one whose answer is due, in
  order and with the responses computed when they took effect: none is dropped or applied twice.
  What the handlers share is the effect of all delivered requests in order, if only they change it.
\<close>

theorem requests_linearize:
  fixes protocols :: "string \<rightharpoonup> 's protocol_handler"
  assumes "net_init n0" and "run (net_step js protocols) n0 ls n"
  shows "(\<exists>bss. list_all2 matches ls bss
        \<and> run (service_step protocols) (service_of n0) (concat bss) (service_of n))
    \<and> (\<forall>i. w_intact (wires n i) \<longrightarrow> answered_on (wires n i) = map snd (filter (\<lambda>d. fst d = i) (deliveries ls)))
    \<and> (Server Shared_change \<notin> set ls \<longrightarrow> shared (net_server n) =
         fold (\<lambda>(i, q, r) st. snd (dispatch protocols q st)) (deliveries ls) (shared (net_server n0)))"
proof -
  obtain bss where bss: "list_all2 matches ls bss"
    "run (service_step protocols) (service_of n0) (concat bss) (service_of n)"
    using network.view_run [OF assms(2) network.inv_init [OF assms(1)]] by blast
  have "answered_on (wires n i) = map snd (filter (\<lambda>d. fst d = i) (deliveries ls))" if "w_intact (wires n i)" for i
  proof -
    have "callers (service_of n) i \<noteq> Cut_off" using that by (auto simp: caller_of_def split: option.splits)
    with service_run_cut [OF bss(2)] have "i \<notin> cuts (concat bss)" by blast
    with service_run_effects [OF bss(2)] matched_effects [OF bss(1)]
    have "history (service_of n) i = history (service_of n0) i @ map snd (filter (\<lambda>d. fst d = i) (deliveries ls))"
      by simp
    moreover have "history (service_of n0) i = []"
      using assms(1) by (simp add: net_init_def history_def caller_of_def answers_of_def new_wire_def)
    ultimately show ?thesis using history_answered [OF that] by simp
  qed
  moreover have "shared (net_server n) =
      fold (\<lambda>(i, q, r) st. snd (dispatch protocols q st)) (deliveries ls) (shared (net_server n0))"
    if "Server Shared_change \<notin> set ls"
    using service_run_state [OF bss(2)] matched_effects [OF bss(1)] matched_undisturbed [OF bss(1) that] by simp
  ultimately show ?thesis using bss by blast
qed

text \<open>Two clients, the first of which has its answer while the second one's request is under way.\<close>

definition ping_map :: "string \<rightharpoonup> unit protocol_handler" where
  "ping_map = protocol_map [ping_protocol]"

definition ping_request :: protocol_request where
  "ping_request = \<lparr>namespace = ''c'', request_type = ''ping'', req_body = [7, 8]\<rparr>"

lemma wire_ping_request [simp]: "wire_request ping_request = ping_request"
  by (simp add: wire_request_def ping_request_def)

lemma wf_ping_request [simp]: "wf_request ping_request"
  by (simp add: wf_request_def ping_request_def request_key_def valid_str_ascii ascii_bytes_id)

lemma dispatch_ping [simp]: "dispatch ping_map ping_request st = (\<lparr>status = 0, resp_body = [7, 8]\<rparr>, st)"
  by (simp add: dispatch_def ping_map_def protocol_map_def ping_request_def request_key_def ping_protocol_def)

definition greeted :: "unit network" where
  "greeted = \<lparr> net_server =
       (new_server 0 ())\<lparr> conns := [\<lparr> conn_id = ''a'', conn_ip = ''a'', conn_ct = 1, conn_pc = Serving,
            conn_served = [] \<rparr>],
          next_token := 2,
          registry := new_registry\<lparr>active_clients := [''a'' \<mapsto> 1], client_ip := [''a'' \<mapsto> ''a'']\<rparr> \<rparr>,
     wires = (\<lambda>_. new_wire) \<rparr>"

lemma greeted_run:
  obtains n0 ls where "net_init n0" and "run (net_step js ping_map) n0 ls greeted" and "deliveries ls = []"
proof -
  let ?n = "\<lambda>s. \<lparr>net_server = s, wires = (\<lambda>_. new_wire)\<rparr>"
  let ?s0 = "new_server 0 () :: unit server"
  let ?s1 = "accept_client ''a'' ''a'' ?s0"
  let ?s2 = "update_conn 0 (set_pc Register_ip (conns ?s1 ! 0))
    (?s1\<lparr>registry := (registry ?s1)\<lparr>active_clients := (active_clients (registry ?s1))(''a'' \<mapsto> 1)\<rparr>\<rparr>)"
  have go: "net_step js ping_map (?n s) (Server l) (?n s')"
    if "server_step js ping_map s l s'" "\<not> talks l" for s s' l
    using net_step.server [of l js ping_map "?n s" s'] that by simp
  have 1: "net_step js ping_map (?n ?s0) (Server (Accept ''a'' ''a'')) (?n ?s1)"
    by (intro go server_step.accept) (simp_all add: new_server_def)
  have 2: "net_step js ping_map (?n ?s1) (Server (Conn 0 No_io)) (?n ?s2)"
    by (intro go server_step.conn) (simp_all add: new_server_def accept_client_def server_token_def)
  have "net_step js ping_map (?n ?s2) (Server (Conn 0 No_io)) (?n (net_server greeted))"
    by (intro go server_step.conn)
      (simp_all add: new_server_def accept_client_def server_token_def greeted_def update_conn_def
        set_pc_def new_registry_def numeral_2_eq_2)
  moreover have "?n (net_server greeted) = greeted" by (simp add: greeted_def)
  ultimately have 3: "net_step js ping_map (?n ?s2) (Server (Conn 0 No_io)) greeted" by simp
  have "run (net_step js ping_map) (?n ?s0)
      [Server (Accept ''a'' ''a''), Server (Conn 0 No_io), Server (Conn 0 No_io)] greeted"
    by (rule run_Cons [where step = "net_step js ping_map", OF 1],
        rule run_Cons [where step = "net_step js ping_map", OF 2],
        rule run_Cons [where step = "net_step js ping_map", OF 3], rule run_Nil)
  moreover have "net_init (?n ?s0)" by (auto simp: net_init_def server_init_def)
  moreover have "deliveries [Server (Accept ''a'' ''a''), Server (Conn 0 No_io), Server (Conn 0 No_io)] = []" by simp
  ultimately show thesis by (intro that)
qed

text \<open>The client asks and is answered.\<close>

lemma greeted_ping:
  obtains ls n where "run (net_step js ping_map) greeted ls n" and "w_intact (wires n 0)"
    and "deliveries ls = [(0, ping_request, \<lparr>status = 0, resp_body = [7, 8]\<rparr>)]"
    and "w_received (wires n 0) = [(ping_request, Inr \<lparr>status = 0, resp_body = [7, 8]\<rparr>)]"
proof -
  let ?r = "\<lparr>status = 0, resp_body = [7, 8]\<rparr> :: protocol_response"
  let ?ls = "[Request 0 ping_request, Deliver 0 (wire_request ping_request) ?r, Reply 0 (Inr ()),
    Receive 0 (length (serialize_response ?r)) None]"
  have "\<exists>n'. run (net_step js ping_map) greeted ?ls n'
      \<and> w_received (wires n' 0) = w_received (wires greeted 0) @ [(ping_request, Inr ?r)]
      \<and> w_intact (wires n' 0) = w_intact (wires greeted 0) \<and> quiet (wires n' 0) \<and> shared (net_server n') = ()"
    by (rule exchange) (simp_all add: greeted_def new_server_def new_wire_def quiet_def wf_response_def)
  then obtain n where "run (net_step js ping_map) greeted ?ls n" "w_intact (wires n 0)"
    "w_received (wires n 0) = [(ping_request, Inr ?r)]" by (auto simp: greeted_def new_wire_def)
  then show thesis by (intro that [of ?ls n]) simp_all
qed

lemma answered_ping:
  "\<exists>n. reach net_init (net_step js ping_map) n \<and> w_intact (wires n 0)
    \<and> w_received (wires n 0) = [(ping_request, Inr \<lparr>status = 0, resp_body = [7, 8]\<rparr>)]"
proof -
  obtain n0 ls0 where greet: "net_init n0" "run (net_step js ping_map) n0 ls0 greeted"
    by (rule greeted_run)
  obtain ls n where ping: "run (net_step js ping_map) greeted ls n" "w_intact (wires n 0)"
    "w_received (wires n 0) = [(ping_request, Inr \<lparr>status = 0, resp_body = [7, 8]\<rparr>)]"
    by (rule greeted_ping)
  with reach_run [OF ping(1) reach_run [OF greet(2) reach_init [where init = net_init, OF greet(1)]]] show ?thesis by blast
qed

theorem requests_linearize_witness:
  "\<exists>n0 n ls. run (net_step body_json ping_map) n0 ls n
    \<and> answered_on (wires n 0) = [(ping_request, \<lparr>status = 0, resp_body = [7, 8]\<rparr>)]
    \<and> deliveries ls = [(0, ping_request, \<lparr>status = 0, resp_body = [7, 8]\<rparr>)]"
proof -
  obtain n0 ls0 where greet: "net_init n0" "run (net_step body_json ping_map) n0 ls0 greeted" "deliveries ls0 = []"
    by (rule greeted_run)
  obtain ls n where ping: "run (net_step body_json ping_map) greeted ls n" "w_intact (wires n 0)"
    "deliveries ls = [(0, ping_request, \<lparr>status = 0, resp_body = [7, 8]\<rparr>)]"
    by (rule greeted_ping)
  have "run (net_step body_json ping_map) n0 (ls0 @ ls) n" using greet(2) ping(1) by (rule run_append)
  moreover have "deliveries (ls0 @ ls) = [(0, ping_request, \<lparr>status = 0, resp_body = [7, 8]\<rparr>)]"
    using greet(3) ping(3) by (simp add: deliveries_append)
  ultimately show ?thesis
    using requests_linearize [OF greet(1), THEN conjunct2, THEN conjunct1, of body_json ping_map "ls0 @ ls" n] ping(2)
    by (intro exI [of _ n0] exI [of _ n] exI [of _ "ls0 @ ls"]) simp
qed

text \<open>
  C5: No client is given another's answer, nor the answer to another request of its own: while every
  request and response fits its format and comes in time, each response that a client receives is
  the one the handlers computed for the request it had sent, from the state at some instant.
\<close>

theorem clients_get_their_own_answers:
  fixes protocols :: "string \<rightharpoonup> 's protocol_handler"
  assumes "reach net_init (net_step js protocols) n" and "w_intact (wires n i)"
    and "(q, r) \<in> set (w_received (wires n i))"
  shows "\<exists>st. r = Inr (fst (dispatch protocols (wire_request q) st))"
proof -
  have "service_inv protocols (service_of n)"
    using service.inv_reach network.view_reach [OF assms(1)] .
  then have "list_all (answered protocols) (answers_of (wires n i))" by (simp add: service_inv_def)
  with assms(2,3) have "answered protocols (q, projr r)"
    by (auto simp: answers_of_def list_all_iff)
  moreover have "is_ok r"
    using net_inv_intact [OF network.inv_reach [OF assms(1)] assms(2)] assms(3)
    by (auto simp: wire_ok_def list_all_iff)
  then have "r = Inr (projr r)" by (cases r) simp_all
  ultimately show ?thesis by (auto simp: answered_def)
qed

theorem clients_get_their_own_answers_witness:
  "\<exists>st. (Inr \<lparr>status = 0, resp_body = [7, 8]\<rparr> :: protocol_response res)
      = Inr (fst (dispatch ping_map (wire_request ping_request) st))"
proof -
  obtain n where n: "reach net_init (net_step body_json ping_map) n" "w_intact (wires n 0)"
    "w_received (wires n 0) = [(ping_request, Inr \<lparr>status = 0, resp_body = [7, 8]\<rparr>)]"
    using answered_ping by blast
  from clients_get_their_own_answers [OF n(1,2)] n(3) show ?thesis by simp
qed

end
