(* ===== verification/Tasks.thy ===== *)
theory Tasks
  imports Systems
begin

text \<open>
  Asynchronous functions as programs of atomic actions, and pools of tasks that interleave them.  An
  action is what a task does while it holds a lock, or in one call outside; between two actions any
  other task may act.  The locale \<open>cooperation\<close> is the rely-guarantee contract of a pool: what every
  task does to the shared state in one action, and may expect of the others.
\<close>

section \<open>Programs\<close>

text \<open>
  A program has returned, or its next action changes the state and leads to the rest, which may
  depend on what was read.  An action is \<open>None\<close> where it never returns.
\<close>

datatype ('s, 'r) prog =
    Done 'r
  | Act "'s \<Rightarrow> 's option" "'s \<Rightarrow> ('s, 'r) prog"

text \<open>An action with a result, which is handed to the rest of the program.\<close>

definition try_call :: "('s \<Rightarrow> ('a \<times> 's) option) \<Rightarrow> ('a \<Rightarrow> ('s, 'r) prog) \<Rightarrow> ('s, 'r) prog" where
  "try_call f k =
     Act (\<lambda>s. map_option snd (f s)) (\<lambda>s. k (fst (the (f s))))"

definition call :: "('s \<Rightarrow> 'a \<times> 's) \<Rightarrow> ('a \<Rightarrow> ('s, 'r) prog) \<Rightarrow> ('s, 'r) prog" where
  "call f k = Act (\<lambda>s. Some (snd (f s))) (\<lambda>s. k (fst (f s)))"

definition look :: "('s \<Rightarrow> 'a) \<Rightarrow> ('a \<Rightarrow> ('s, 'r) prog) \<Rightarrow> ('s, 'r) prog" where
  "look f k = Act Some (\<lambda>s. k (f s))"

definition put :: "('s \<Rightarrow> 's) \<Rightarrow> ('s, 'r) prog \<Rightarrow> ('s, 'r) prog" where
  "put f p = Act (\<lambda>s. Some (f s)) (\<lambda>_. p)"

text \<open>A program that no other task interrupts.\<close>

primrec alone :: "('s, 'r) prog \<Rightarrow> 's \<Rightarrow> ('r \<times> 's) option" where
  "alone (Done r) s = Some (r, s)"
| "alone (Act u k) s = (case u s of None \<Rightarrow> None | Some t \<Rightarrow> alone (k s) t)"

lemma alone_simps [simp]:
  "alone (call f k) s = (let (a, t) = f s in alone (k a) t)"
  "alone (look g h) s = alone (h (g s)) s"
  "alone (put e p) s = alone p (e s)"
  by (simp_all add: call_def look_def put_def case_prod_beta)

lemma alone_try_call [simp]:
  "alone (try_call f k) s = (case f s of None \<Rightarrow> None | Some (a, t) \<Rightarrow> alone (k a) t)"
  by (simp add: try_call_def split: option.split prod.split)

section \<open>Pools\<close>

text \<open>
  The tasks of a pool, each with the job it was started for; \<open>program\<close> is what a job runs, and
  \<open>may_start\<close> which jobs are started in a state.  The world may change by itself.
\<close>

record ('s, 'j, 'r) pool =
  tasks :: "('j \<times> ('s, 'r) prog) list"
  common :: 's

datatype 'j pool_label = Start 'j | Turn nat | Outside

inductive pool_step ::
  "('j \<Rightarrow> ('s, 'r) prog) \<Rightarrow> (('s, 'j, 'r) pool \<Rightarrow> 'j \<Rightarrow> bool) \<Rightarrow> ('s \<Rightarrow> 's \<Rightarrow> bool)
     \<Rightarrow> ('s, 'j, 'r) pool \<Rightarrow> 'j pool_label \<Rightarrow> ('s, 'j, 'r) pool \<Rightarrow> bool"
  for program may_start outside where
  start: "may_start p j \<Longrightarrow>
     pool_step program may_start outside p (Start j) (p\<lparr>tasks := tasks p @ [(j, program j)]\<rparr>)"
| turn: "i < length (tasks p) \<Longrightarrow> tasks p ! i = (j, Act u k) \<Longrightarrow> u (common p) = Some s \<Longrightarrow>
     pool_step program may_start outside p (Turn i)
       (p\<lparr>tasks := (tasks p)[i := (j, k (common p))], common := s\<rparr>)"
| outside: "outside (common p) s \<Longrightarrow>
     pool_step program may_start outside p Outside (p\<lparr>common := s\<rparr>)"

text \<open>A task left alone runs to its end.\<close>

lemma alone_runs:
  assumes "i < length (tasks p)" and "tasks p ! i = (j, c)" and "alone c (common p) = Some (r, s)"
  shows "\<exists>n. run (pool_step program may_start outside) p (replicate n (Turn i))
           (p\<lparr>tasks := (tasks p)[i := (j, Done r)], common := s\<rparr>)"
  using assms
proof (induction c arbitrary: p)
  case (Done r')
  then have "p\<lparr>tasks := (tasks p)[i := (j, Done r)], common := s\<rparr> = p"
    by (cases p) (auto simp: list_update_same_conv)
  then show ?case by (intro exI [of _ 0]) (simp add: run_Nil)
next
  case (Act u k)
  obtain t where t: "u (common p) = Some t" "alone (k (common p)) t = Some (r, s)"
    using Act.prems(3) by (auto split: option.splits)
  let ?p = "p\<lparr>tasks := (tasks p)[i := (j, k (common p))], common := t\<rparr>"
  have "pool_step program may_start outside p (Turn i) ?p"
    using Act.prems(1,2) t(1) by (rule turn)
  moreover obtain n where "run (pool_step program may_start outside) ?p (replicate n (Turn i))
      (?p\<lparr>tasks := (tasks ?p)[i := (j, Done r)], common := s\<rparr>)"
    using Act.IH [of "k (common p)" ?p] Act.prems(1) t(2) by auto
  ultimately show ?case
    by (intro exI [of _ "Suc n"]) (auto intro: run_Cons [where step = "pool_step program may_start outside"])
qed

text \<open>A given order of turns, executed.\<close>

fun turns :: "nat list \<Rightarrow> ('s, 'j, 'r) pool \<Rightarrow> ('s, 'j, 'r) pool option" where
  "turns [] p = Some p"
| "turns (i # is) p =
     (if i < length (tasks p)
      then case tasks p ! i of
             (j, Act u k) \<Rightarrow>
               (case u (common p) of
                  Some s \<Rightarrow> turns is (p\<lparr>tasks := (tasks p)[i := (j, k (common p))], common := s\<rparr>)
                | None \<Rightarrow> None)
           | (j, Done r) \<Rightarrow> None
      else None)"

lemma turns_run:
  "turns is p = Some p' \<Longrightarrow> run (pool_step program may_start outside) p (map Turn is) p'"
proof (induction "is" p rule: turns.induct)
  case (2 i "is" p)
  then obtain j u k s where act: "i < length (tasks p)" "tasks p ! i = (j, Act u k)" "u (common p) = Some s"
    and rest: "turns is (p\<lparr>tasks := (tasks p)[i := (j, k (common p))], common := s\<rparr>) = Some p'"
    by (auto split: if_splits prod.splits prog.splits option.splits)
  from "2.IH" [OF act(1) act(2) [symmetric] refl act(3) rest] turn [OF act, of program may_start outside]
  show ?case by (auto intro: run_Cons [where step = "pool_step program may_start outside"])
qed (simp add: run_Nil)

section \<open>How many actions a program takes\<close>

primrec within :: "('s, 'r) prog \<Rightarrow> nat \<Rightarrow> bool" where
  "within (Done r) n = True"
| "within (Act u k) n = (0 < n \<and> (\<forall>s. within (k s) (n - 1)))"

lemma within_mono: "within c n \<Longrightarrow> n \<le> m \<Longrightarrow> within c m"
proof (induction c arbitrary: n m)
  case (Act u k)
  then have "within (k s) (n - 1)" "n - 1 \<le> m - 1" for s by simp_all
  then have "within (k s) (m - 1)" for s using Act.IH [of "k s"] by blast
  with Act.prems show ?case by simp
qed simp

lemma within_actions [simp]:
  "within (call f k) (Suc n) \<longleftrightarrow> (\<forall>s. within (k (fst (f s))) n)"
  "within (look g h) (Suc n) \<longleftrightarrow> (\<forall>s. within (h (g s)) n)"
  "within (put e p) (Suc n) \<longleftrightarrow> within p n"
  "within (try_call t c) (Suc n) \<longleftrightarrow> (\<forall>s. within (c (fst (the (t s)))) n)"
  unfolding call_def look_def put_def try_call_def by simp_all

text \<open>In no interleaving does a task take more turns.\<close>

lemma within_turns:
  assumes "run (pool_step program may_start outside) p ls p'"
    and "i < length (tasks p)" and "within (snd (tasks p ! i)) n"
  shows "count_list ls (Turn i) \<le> n"
  using assms
proof (induction arbitrary: n rule: run.induct)
  case (run_Cons p l p1 ls p2)
  from run_Cons.hyps(1) have "(l \<noteq> Turn i \<longrightarrow> tasks p1 ! i = tasks p ! i) \<and> length (tasks p) \<le> length (tasks p1)"
    using run_Cons.prems(1) by (cases rule: pool_step.cases) (auto simp: nth_append)
  moreover have "0 < n \<and> within (snd (tasks p1 ! i)) (n - 1)" if "l = Turn i"
    using run_Cons.hyps(1) run_Cons.prems that by (cases rule: pool_step.cases) auto
  ultimately show ?case
    using run_Cons.IH [of n] run_Cons.IH [of "n - 1"] run_Cons.prems
    by (cases "l = Turn i") auto
qed simp

section \<open>Rely and guarantee\<close>

text \<open>
  From the state \<open>s\<close>, with the others acting within \<open>step\<close> in between, every action of the program
  is within \<open>step\<close>, and \<open>post\<close> holds of its result.
\<close>

primrec keeps ::
  "('s \<Rightarrow> bool) \<Rightarrow> ('s \<Rightarrow> 's \<Rightarrow> bool) \<Rightarrow> ('r \<Rightarrow> 's \<Rightarrow> bool) \<Rightarrow> ('s, 'r) prog \<Rightarrow> 's \<Rightarrow> bool" where
  "keeps safe step post (Done r) s = (safe s \<longrightarrow> post r s)"
| "keeps safe step post (Act u k) s =
     (safe s \<longrightarrow> (\<forall>t. u s = Some t \<longrightarrow> step s t \<and> (\<forall>t'. step t t' \<longrightarrow> keeps safe step post (k s) t')))"

locale cooperation =
  fixes init :: "'s \<Rightarrow> bool" and safe :: "'s \<Rightarrow> bool" and step :: "'s \<Rightarrow> 's \<Rightarrow> bool"
    and post :: "'r \<Rightarrow> 's \<Rightarrow> bool"
    and program :: "'j \<Rightarrow> ('s, 'r) prog" and may_start :: "('s, 'j, 'r) pool \<Rightarrow> 'j \<Rightarrow> bool"
    and outside :: "'s \<Rightarrow> 's \<Rightarrow> bool"
  assumes init_inv: "init s \<Longrightarrow> safe s"
    and step_inv: "step s t \<Longrightarrow> safe s \<Longrightarrow> safe t"
    and step_refl: "step s s"
    and step_trans: "step s t \<Longrightarrow> step t t' \<Longrightarrow> step s t'"
    and outside_step: "outside s t \<Longrightarrow> step s t"
    and program_keeps: "may_start p j \<Longrightarrow> keeps safe step post (program j) s"
begin

definition pool_inv :: "('s, 'j, 'r) pool \<Rightarrow> bool" where
  "pool_inv p \<longleftrightarrow> safe (common p) \<and>
     (\<forall>(j, c) \<in> set (tasks p). \<forall>t. step (common p) t \<longrightarrow> keeps safe step post c t)"

definition pool_init :: "('s, 'j, 'r) pool \<Rightarrow> bool" where
  "pool_init p \<longleftrightarrow> tasks p = [] \<and> init (common p)"

lemma pool_inv_moved:
  assumes "pool_inv p" and "step (common p) t"
  shows "pool_inv (p\<lparr>common := t\<rparr>)"
  using assms step_inv step_trans by (fastforce simp: pool_inv_def)

lemma pool_inv_step:
  assumes "pool_inv p" and "pool_step program may_start outside p l p'"
  shows "pool_inv p'"
  using assms(2)
proof cases
  case (start j)
  with assms(1) program_keeps show ?thesis by (auto simp: pool_inv_def)
next
  case (turn i j u k s)
  have "(j, Act u k) \<in> set (tasks p)" using turn(3,4) by (metis nth_mem)
  then have keeps: "keeps safe step post (Act u k) (common p)" and safe: "safe (common p)"
    using assms(1) step_refl by (auto simp: pool_inv_def)
  then have moved: "step (common p) s" and rest: "\<And>t. step s t \<Longrightarrow> keeps safe step post (k (common p)) t"
    using turn(5) by auto
  from pool_inv_moved [OF assms(1) moved] rest turn(2) show ?thesis
    by (fastforce simp: pool_inv_def dest: set_update_subset_insert [THEN subsetD])
next
  case (outside s)
  with pool_inv_moved [OF assms(1)] outside_step show ?thesis by simp
qed

sublocale invariant_system pool_init "pool_step program may_start outside" pool_inv
proof unfold_locales
  show "pool_inv p" if "pool_init p" for p
    using that init_inv by (simp add: pool_init_def pool_inv_def)
qed (rule pool_inv_step)

lemma reached:
  assumes "reach (\<lambda>p. tasks p = [] \<and> init (common p)) (pool_step program may_start outside) p"
  shows "safe (common p)" and "(j, Done r) \<in> set (tasks p) \<Longrightarrow> post r (common p)"
proof -
  have "pool_inv p"
    using inv_reach assms unfolding pool_init_def [abs_def] by blast
  then show "safe (common p)" "(j, Done r) \<in> set (tasks p) \<Longrightarrow> post r (common p)"
    using step_refl by (auto simp: pool_inv_def)
qed

end

text \<open>The rules for the actions.\<close>

lemma keeps_look:
  assumes "safe s \<Longrightarrow> step s s" and "\<And>t. safe s \<Longrightarrow> step s t \<Longrightarrow> keeps safe step post (k (f s)) t"
  shows "keeps safe step post (look f k) s"
  using assms by (simp add: look_def)

lemma keeps_put:
  assumes "safe s \<Longrightarrow> step s (f s)" and "\<And>t. safe s \<Longrightarrow> step (f s) t \<Longrightarrow> keeps safe step post p t"
  shows "keeps safe step post (put f p) s"
  using assms by (simp add: put_def)

lemma keeps_call:
  assumes "\<And>a t. safe s \<Longrightarrow> f s = (a, t) \<Longrightarrow> step s t"
    and "\<And>a t t'. safe s \<Longrightarrow> f s = (a, t) \<Longrightarrow> step t t' \<Longrightarrow> keeps safe step post (k a) t'"
  shows "keeps safe step post (call f k) s"
  using assms by (cases "f s") (simp add: call_def)

lemma keeps_try_call:
  assumes "\<And>a t. safe s \<Longrightarrow> f s = Some (a, t) \<Longrightarrow> step s t"
    and "\<And>a t t'. safe s \<Longrightarrow> f s = Some (a, t) \<Longrightarrow> step t t' \<Longrightarrow> keeps safe step post (k a) t'"
  shows "keeps safe step post (try_call f k) s"
  using assms by (cases "f s") (auto simp: try_call_def)

section \<open>Programs within a relation\<close>

text \<open>
  A relation that every task keeps to, and the states in which it does: from every state that the
  others can lead to from \<open>s\<close>, the program keeps to the relation and its result to \<open>post\<close>.
\<close>

locale task_relation =
  fixes safe :: "'s \<Rightarrow> bool" and moves :: "'s \<Rightarrow> 's \<Rightarrow> bool" and post :: "'r \<Rightarrow> 's \<Rightarrow> bool"
  assumes moves_refl: "moves s s"
    and moves_trans [trans]: "moves s t \<Longrightarrow> moves t t' \<Longrightarrow> moves s t'"
    and moves_safe: "moves s t \<Longrightarrow> safe s \<Longrightarrow> safe t"
begin

definition ok_after :: "'s \<Rightarrow> ('s, 'r) prog \<Rightarrow> bool" where
  "ok_after s c \<longleftrightarrow> (\<forall>t. moves s t \<longrightarrow> safe t \<longrightarrow> keeps safe moves post c t)"

lemma ok_later: "ok_after s c \<Longrightarrow> moves s t \<Longrightarrow> ok_after t c"
  unfolding ok_after_def using moves_trans by blast

lemma ok_Done: "(\<And>t. moves s t \<Longrightarrow> safe t \<Longrightarrow> post r t) \<Longrightarrow> ok_after s (Done r)"
  by (simp add: ok_after_def)

lemma keeps_unsafe: "\<not> safe t \<Longrightarrow> keeps safe moves post c t"
  by (cases c) simp_all

lemma ok_keeps: "ok_after s c \<Longrightarrow> moves s t \<Longrightarrow> keeps safe moves post c t"
  unfolding ok_after_def using keeps_unsafe by blast

lemma ok_look_state:
  assumes "\<And>t. moves s t \<Longrightarrow> safe t \<Longrightarrow> ok_after t (k (f t))"
  shows "ok_after s (look f k)"
  unfolding ok_after_def by (intro allI impI keeps_look moves_refl) (erule ok_keeps [OF assms])

lemma ok_look_any:
  assumes "\<And>v. ok_after s (k v)"
  shows "ok_after s (look f k)"
  using assms by (intro ok_look_state) (rule ok_later)

lemma ok_put_state:
  assumes "\<And>t. moves s t \<Longrightarrow> safe t \<Longrightarrow> moves t (f t) \<and> ok_after (f t) c"
  shows "ok_after s (put f c)"
  unfolding ok_after_def using assms ok_keeps by (intro allI impI keeps_put) blast+

lemma ok_call_state:
  assumes "\<And>t a u. moves s t \<Longrightarrow> safe t \<Longrightarrow> f t = (a, u) \<Longrightarrow> moves t u \<and> ok_after u (k a)"
  shows "ok_after s (call f k)"
  unfolding ok_after_def using assms ok_keeps by (intro allI impI keeps_call) blast+

lemma ok_try_call_state:
  assumes "\<And>t a u. moves s t \<Longrightarrow> safe t \<Longrightarrow> f t = Some (a, u) \<Longrightarrow> moves t u \<and> ok_after u (k a)"
  shows "ok_after s (try_call f k)"
  unfolding ok_after_def using assms ok_keeps by (intro allI impI keeps_try_call) blast+

text \<open>Actions that are within the relation whatever the state.\<close>

lemma ok_put_any:
  assumes "\<And>t. moves t (f t)" and "ok_after s c"
  shows "ok_after s (put f c)"
  using assms by (intro ok_put_state) (blast intro: ok_later moves_trans)

lemma ok_call_any:
  assumes "\<And>t a u. f t = (a, u) \<Longrightarrow> moves t u" and "\<And>a. ok_after s (k a)"
  shows "ok_after s (call f k)"
  using assms by (intro ok_call_state) (blast intro: ok_later moves_trans)

lemma ok_try_call_any:
  assumes "\<And>t a u. f t = Some (a, u) \<Longrightarrow> moves t u" and "\<And>a. ok_after s (k a)"
  shows "ok_after s (try_call f k)"
  using assms by (intro ok_try_call_state) (blast intro: ok_later moves_trans)

end

end
