(* ===== verification/Guest_Tasks.thy ===== *)
theory Guest_Tasks
  imports Guest_Session Tasks
begin

text \<open>
  The operations of a guest as the asynchronous functions they are: every lock of a field is taken
  for one access and released, so operations of several callers and the heartbeat interleave between
  them.  Each operation is a program of \<open>Tasks\<close> over the guest and the world; run alone it is the
  atomic operation of \<open>Guest\<close>, and what is proved of the pool holds in every interleaving.
\<close>

section \<open>Access to the fields\<close>

type_synonym ('m, 'r) guest_prog = "(guest \<times> 'm, 'r) prog"

definition look_g :: "(guest \<Rightarrow> 'a) \<Rightarrow> ('a \<Rightarrow> ('m, 'r) guest_prog) \<Rightarrow> ('m, 'r) guest_prog" where
  "look_g f = look (\<lambda>(g, m). f g)"

definition put_g :: "(guest \<Rightarrow> guest) \<Rightarrow> ('m, 'r) guest_prog \<Rightarrow> ('m, 'r) guest_prog" where
  "put_g f = put (\<lambda>(g, m). (f g, m))"

definition on_world :: "('m \<Rightarrow> 'a \<times> 'm) \<Rightarrow> ('a \<Rightarrow> ('m, 'r) guest_prog) \<Rightarrow> ('m, 'r) guest_prog" where
  "on_world f = call (\<lambda>(g, m). case f m of (a, m) \<Rightarrow> (a, (g, m)))"

text \<open>An operation under the lock of the field it works on.\<close>

definition locked ::
  "(guest \<Rightarrow> 'm \<Rightarrow> 'a \<times> guest \<times> 'm) \<Rightarrow> ('a \<Rightarrow> ('m, 'r) guest_prog) \<Rightarrow> ('m, 'r) guest_prog" where
  "locked f = call (\<lambda>(g, m). case f g m of (a, g, m) \<Rightarrow> (a, (g, m)))"

lemma alone_access [simp]:
  "alone (look_g f k) (g, m) = alone (k (f g)) (g, m)"
  "alone (put_g h p) (g, m) = alone p (h g, m)"
  "alone (on_world w c) (g, m) = (case w m of (a, m) \<Rightarrow> alone (c a) (g, m))"
  "alone (locked l d) (g, m) = (case l g m of (a, g, m) \<Rightarrow> alone (d a) (g, m))"
  by (simp_all add: look_g_def put_g_def on_world_def locked_def case_prod_beta)

section \<open>The operations\<close>

text \<open>Sending under the lock of the client; a player ping, whose body needs the node id read before.\<close>

definition send_task ::
  "('m, 'i, 'u, 'v, 'j) guest_env \<Rightarrow> protocol_request
     \<Rightarrow> (protocol_response res \<Rightarrow> ('m, 'r) guest_prog) \<Rightarrow> ('m, 'r) guest_prog" where
  "send_task env request k = locked (send_raw env request) k"

definition node_id_task :: "(string option \<Rightarrow> ('m, 'r) guest_prog) \<Rightarrow> ('m, 'r) guest_prog" where
  "node_id_task k =
     look_g has_easytier_id (\<lambda>has_id.
       if has_id then look_g (\<lambda>g. unwrap_or [] (mgr_node_id (g_easy_tier g))) (\<lambda>node_id. k (Some node_id))
       else k None)"

definition send_entry ::
  "('m, 'i, 'u, 'v, 'j) guest_env \<Rightarrow> string option \<Rightarrow> guest \<Rightarrow> 'm \<Rightarrow> unit res \<times> guest \<times> 'm" where
  "send_entry env node g m =
     (let entry = \<lparr> pe_name = g_player_name g, pe_machine_id = g_machine_id g,
                    pe_easytier_id = node, pe_vendor = g_vendor g, pe_kind = None \<rparr>
      in case sj_entry_to_vec (env_js env) entry of
           Inl e \<Rightarrow> (Inl (Protocol e), g, m)
         | Inr body \<Rightarrow>
             (let (r, g, m) = send_raw env (standard_request ''player_ping'' body) g m
              in (rbind r (\<lambda>_. Inr ()), g, m)))"

definition send_player_ping_task ::
  "('m, 'i, 'u, 'v, 'j) guest_env \<Rightarrow> (unit res \<Rightarrow> ('m, 'r) guest_prog) \<Rightarrow> ('m, 'r) guest_prog" where
  "send_player_ping_task env k =
     look_g (\<lambda>g. is_connected (g_tcp g)) (\<lambda>connected.
       if \<not> connected then put_g report_lost (k (Inr ()))
       else node_id_task (\<lambda>node. locked (send_entry env node) k))"

definition negotiate_protocols_task ::
  "('m, 'i, 'u, 'v, 'j) guest_env \<Rightarrow> (unit res \<Rightarrow> ('m, 'r) guest_prog) \<Rightarrow> ('m, 'r) guest_prog" where
  "negotiate_protocols_task env k =
     locked (\<lambda>g. send_raw env (standard_request ''protocols'' (into_bytes (join [CHR 0x00] (my_protocols g)))) g)
       (\<lambda>r. case r of
          Inl e \<Rightarrow> k (Inl e)
        | Inr response \<Rightarrow>
            if is_success response
            then put_g (\<lambda>g. g\<lparr>g_negotiated := negotiate (my_protocols g)
                          (split_on CHR 0x00 (from_utf8_lossy (resp_body response)))\<rparr>) (k (Inr ()))
            else k (Inr ()))"

definition hang_up_task ::
  "('m, 'i, 'u, 'v, 'j) guest_env \<Rightarrow> ('m, 'r) guest_prog \<Rightarrow> ('m, 'r) guest_prog" where
  "hang_up_task env p = locked (\<lambda>g m. ((), hang_up env g m)) (\<lambda>_. p)"

definition tcp_connect_locked ::
  "('m, 'i, 'u, 'v, 'j) guest_env \<Rightarrow> string \<Rightarrow> u16 \<Rightarrow> guest \<Rightarrow> 'm \<Rightarrow> unit res option \<times> guest \<times> 'm" where
  "tcp_connect_locked env host port g m =
     (let (ok, c, m) = tcp_connect (env_net env) host port (g_tcp g) m in (ok, g\<lparr>g_tcp := c\<rparr>, m))"

definition try_connect_once_task ::
  "('m, 'i, 'u, 'v, 'j) guest_env \<Rightarrow> string \<Rightarrow> u16 \<Rightarrow> (bool \<Rightarrow> ('m, 'r) guest_prog) \<Rightarrow> ('m, 'r) guest_prog" where
  "try_connect_once_task env host port k =
     locked (tcp_connect_locked env host port) (\<lambda>ok.
       case ok of
         Some (Inr _) \<Rightarrow>
           send_player_ping_task env (\<lambda>r1.
             if is_ok r1
             then negotiate_protocols_task env (\<lambda>r2.
                    if is_ok r2 then k True else hang_up_task env (k False))
             else hang_up_task env (k False))
       | Some (Inl _) \<Rightarrow> hang_up_task env (k False)
       | None \<Rightarrow> hang_up_task env (k False))"

fun try_connect_with_retry_task ::
  "('m, 'i, 'u, 'v, 'j) guest_env \<Rightarrow> string \<Rightarrow> u16 \<Rightarrow> nat \<Rightarrow> nat \<Rightarrow> (bool \<Rightarrow> ('m, 'r) guest_prog)
     \<Rightarrow> ('m, 'r) guest_prog" where
  "try_connect_with_retry_task env host port 0 ct k = k False"
| "try_connect_with_retry_task env host port (Suc n) ct k =
     on_world (\<lambda>m. (env_is_cancelled env ct m, m)) (\<lambda>is_cancelled.
       if is_cancelled then k False
       else try_connect_once_task env host port (\<lambda>ok.
         if ok then k True
         else if n > 0
         then on_world (\<lambda>m. ((), lib_sleep (env_lib env) retry_delay m))
                (\<lambda>_. try_connect_with_retry_task env host port n ct k)
         else try_connect_with_retry_task env host port n ct k))"

text \<open>Discovery takes the lock of the manager once per round.\<close>

fun discover_task ::
  "('m, 'i, 'u, 'v, 'j) guest_env \<Rightarrow> nat \<Rightarrow> nat
     \<Rightarrow> (center_discovery_result res \<Rightarrow> ('m, 'r) guest_prog) \<Rightarrow> ('m, 'r) guest_prog" where
  "discover_task env ct 0 k = k (Inl (CenterNotFound msg_center_not_found))"
| "discover_task env ct (Suc n) k =
     locked (\<lambda>g m. (get_nodes (env_lib env) (g_easy_tier g) m, g, m)) (\<lambda>nodes.
       case try_parse_center (env_rx env) nodes of
         Some result \<Rightarrow> k (Inr result)
       | None \<Rightarrow>
           on_world (env_wait env ct 500) (\<lambda>is_cancelled.
             if is_cancelled then k (Inl (CenterNotFound msg_discovery_cancelled))
             else discover_task env ct n k))"

text \<open>\<open>start_heartbeat\<close> spawns the loop and then keeps the token.\<close>

definition start_heartbeat_task :: "nat \<Rightarrow> ('m, 'r) guest_prog \<Rightarrow> ('m, 'r) guest_prog" where
  "start_heartbeat_task ct p =
     put_g (\<lambda>g. g\<lparr>g_loops := g_loops g @ [ct]\<rparr>) (put_g (\<lambda>g. g\<lparr>g_heartbeat_ct := Some ct\<rparr>) p)"

definition patch_task ::
  "('m, 'i, 'u, 'v, 'j) guest_env \<Rightarrow> string \<Rightarrow> (unit res \<Rightarrow> ('m, 'r) guest_prog) \<Rightarrow> ('m, 'r) guest_prog" where
  "patch_task env forward k =
     locked (\<lambda>g m. case apply_port_forward_patch env forward g m of (r, m) \<Rightarrow> (r, g, m)) k"

definition connect_center_task ::
  "('m, 'i, 'u, 'v, 'j) guest_env \<Rightarrow> center_discovery_result \<Rightarrow> nat \<Rightarrow> (unit res \<Rightarrow> ('m, 'r) guest_prog)
     \<Rightarrow> ('m, 'r) guest_prog" where
  "connect_center_task env center ct k =
     try_connect_once_task env (cd_virtual_ip center) (cd_port center) (\<lambda>direct.
       if direct
       then put_g (\<lambda>g. g\<lparr>g_use_port_forward := False\<rparr>) (start_heartbeat_task ct (k (Inr ())))
       else on_world (env_free_port env) (\<lambda>local_port.
         let forward = forward_rule local_port (cd_virtual_ip center) (cd_port center)
         in put_g (push_forward forward) (patch_task env forward (\<lambda>r.
              case r of
                Inl e \<Rightarrow> k (Inl e)
              | Inr _ \<Rightarrow> try_connect_with_retry_task env localhost local_port 10 ct (\<lambda>ok.
                  if ok
                  then put_g (\<lambda>g. g\<lparr>g_use_port_forward := True\<rparr>) (start_heartbeat_task ct (k (Inr ())))
                  else k (Inl (CenterConnection msg_forward_failed)))))))"

definition connect_task ::
  "('m, 'i, 'u, 'v, 'j) guest_env \<Rightarrow> room_code \<Rightarrow> nat \<Rightarrow> (unit res \<Rightarrow> ('m, 'r) guest_prog)
     \<Rightarrow> ('m, 'r) guest_prog" where
  "connect_task env code ct k =
     look (\<lambda>(g, m). guest_config code g (env_system env m)) (\<lambda>config.
     try_call (\<lambda>(g, m). case start (env_lib env) config (g_easy_tier g) m of
         None \<Rightarrow> None
       | Some (r, mgr, m) \<Rightarrow> Some (r, (g\<lparr>g_easy_tier := mgr\<rparr>, m))) (\<lambda>started.
       case started of
         Inl e \<Rightarrow> k (Inl e)
       | Inr _ \<Rightarrow> discover_task env ct 60 (\<lambda>found.
           case found of
             Inl e \<Rightarrow> k (Inl e)
           | Inr center \<Rightarrow>
               put_g (\<lambda>g. g\<lparr>g_center := Some center\<rparr>) (put_g (\<lambda>g. g\<lparr>g_config := Some config\<rparr>)
                 (connect_center_task env center ct k)))))"

text \<open>The two halves of \<open>map_minecraft_port\<close>: asking for the port, and making it reachable.\<close>

definition expose_port_task ::
  "('m, 'i, 'u, 'v, 'j) guest_env \<Rightarrow> u16 \<Rightarrow> ((string \<times> u16) res \<Rightarrow> ('m, 'r) guest_prog)
     \<Rightarrow> ('m, 'r) guest_prog" where
  "expose_port_task env mc_port k =
     look_g g_center (\<lambda>c.
       case c of
         None \<Rightarrow> k (Inl (CenterConnection msg_not_joined))
       | Some center \<Rightarrow> look_g g_use_port_forward (\<lambda>forwarding.
           if \<not> forwarding
           then put_g (\<lambda>g. g\<lparr>g_minecraft_host := Some (cd_virtual_ip center)\<rparr>)
             (put_g (\<lambda>g. g\<lparr>g_minecraft_port := Some mc_port\<rparr>) (k (Inr (cd_virtual_ip center, mc_port))))
           else on_world (env_free_port env) (\<lambda>local_mc_port.
             let mc_forward = forward_rule local_mc_port (cd_virtual_ip center) mc_port
             in put_g (push_forward mc_forward) (patch_task env mc_forward (\<lambda>r.
                  case r of
                    Inl e \<Rightarrow> k (Inl e)
                  | Inr _ \<Rightarrow>
                      put_g (\<lambda>g. g\<lparr>g_minecraft_host := Some localhost\<rparr>)
                        (put_g (\<lambda>g. g\<lparr>g_minecraft_port := Some local_mc_port\<rparr>)
                          (k (Inr (localhost, local_mc_port)))))))))"

definition map_minecraft_port_task ::
  "('m, 'i, 'u, 'v, 'j) guest_env \<Rightarrow> ((string \<times> u16) res \<Rightarrow> ('m, 'r) guest_prog) \<Rightarrow> ('m, 'r) guest_prog" where
  "map_minecraft_port_task env k =
     look_g (\<lambda>g. g_config g \<noteq> None) (\<lambda>cfg_ready. look_g (\<lambda>g. g_center g \<noteq> None) (\<lambda>center_ready.
     if \<not> (cfg_ready \<and> center_ready) then k (Inl (CenterConnection msg_not_joined))
     else look_g g_minecraft_host (\<lambda>host. look_g g_minecraft_port (\<lambda>port.
       case (host, port) of
         (Some h, Some p) \<Rightarrow> k (Inr (h, p))
       | _ \<Rightarrow> locked (get_server_port env) (\<lambda>r.
           case r of
             Inl e \<Rightarrow> k (Inl e)
           | Inr mc_port \<Rightarrow> expose_port_task env mc_port k)))))"

text \<open>\<open>leave\<close>: the token is taken and cancelled, the connection dropped, EasyTier stopped.\<close>

definition leave_task :: "('m, 'i, 'u, 'v, 'j) guest_env \<Rightarrow> ('m, 'r) guest_prog \<Rightarrow> ('m, 'r) guest_prog" where
  "leave_task env p =
     (let rest = hang_up_task env (locked (\<lambda>g m. case stop (env_lib env) (g_easy_tier g) m of
                   (r, mgr, m) \<Rightarrow> (r, g\<lparr>g_easy_tier := mgr\<rparr>, m)) (\<lambda>_. p))
      in locked (\<lambda>g m. (g_heartbeat_ct g, g\<lparr>g_heartbeat_ct := None\<rparr>, m)) (\<lambda>token.
           case token of
             Some ct \<Rightarrow> on_world (\<lambda>m. ((), env_cancel env ct m)) (\<lambda>_. rest)
           | None \<Rightarrow> rest))"

text \<open>One iteration of a heartbeat loop, given what ended its wait: whether the loop ends.\<close>

definition send_beat ::
  "('m, 'i, 'u, 'v, 'j) guest_env \<Rightarrow> string option \<Rightarrow> guest \<Rightarrow> 'm \<Rightarrow> (unit + unit) \<times> guest \<times> 'm" where
  "send_beat env node g m =
     (case env_ping_body env (g_player_name g) (g_machine_id g) (g_vendor g) node of
        Inl _ \<Rightarrow> (Inl (), g, m)
      | Inr body \<Rightarrow>
          (let (r, g, m) = send_raw env (standard_request ''player_ping'' body) g m
           in (map_err (\<lambda>_. ()) (rbind r (\<lambda>_. Inr ())), g, m)))"

definition beat_task ::
  "('m, 'i, 'u, 'v, 'j) guest_env \<Rightarrow> wake \<Rightarrow> (bool \<Rightarrow> ('m, 'r) guest_prog) \<Rightarrow> ('m, 'r) guest_prog" where
  "beat_task env w k =
     (case w of
        Token_cancelled \<Rightarrow> k True
      | Elapsed \<Rightarrow>
          look_g (\<lambda>g. is_connected (g_tcp g)) (\<lambda>connected.
            if \<not> connected then put_g report_lost (k False)
            else node_id_task (\<lambda>node. locked (send_beat env node) (\<lambda>r.
              if is_ok r then k False else put_g report_lost (k True)))))"

section \<open>Run alone they are the operations\<close>

lemma alone_node_id [simp]: "alone (node_id_task k) (g, m) = alone (k (ping_node_id g)) (g, m)"
  by (simp add: node_id_task_def ping_node_id_def)

lemma alone_send_player_ping [simp]:
  "alone (send_player_ping_task env k) (g, m) =
     (case send_player_ping env g m of (r, g, m) \<Rightarrow> alone (k r) (g, m))"
  by (simp add: send_player_ping_task_def send_player_ping_def send_entry_def Let_def)

lemma alone_negotiate [simp]:
  "alone (negotiate_protocols_task env k) (g, m) =
     (case negotiate_protocols env g m of (r, g, m) \<Rightarrow> alone (k r) (g, m))"
  by (auto simp: negotiate_protocols_task_def negotiate_protocols_def Let_def split: prod.split sum.split)

lemma alone_hang_up [simp]:
  "alone (hang_up_task env p) (g, m) = (case hang_up env g m of (g, m) \<Rightarrow> alone p (g, m))"
  by (simp add: hang_up_task_def)

lemma alone_try_connect_once [simp]:
  "alone (try_connect_once_task env host port k) (g, m) =
     (case try_connect_once env host port g m of (r, g, m) \<Rightarrow> alone (k (r = Inr True)) (g, m))"
  by (auto simp: try_connect_once_task_def try_connect_once_def tcp_connect_locked_def Let_def
      split: prod.split option.split sum.split)

lemma alone_try_connect_with_retry [simp]:
  "alone (try_connect_with_retry_task env host port n ct k) (g, m) =
     (case try_connect_with_retry env host port n ct g m of (r, g, m) \<Rightarrow> alone (k (r = Inr True)) (g, m))"
proof (induction n arbitrary: g m)
  case (Suc n)
  obtain r g1 m1 where once: "try_connect_once env host port g m = (r, g1, m1)" by (metis prod_cases3)
  from try_connect_once_result [OF once] obtain b where "r = Inr b" by blast
  with once Suc show ?case by (cases b) simp_all
qed simp

lemma alone_discover [simp]:
  "alone (discover_task env ct n k) (g, m) =
     (case discover_from env (g_easy_tier g) ct n m of (r, m) \<Rightarrow> alone (k r) (g, m))"
  by (induction n arbitrary: m) (auto split: option.split prod.split bool.split)

lemma alone_start_heartbeat [simp]:
  "alone (start_heartbeat_task ct p) (g, m) = alone p (start_heartbeat ct g, m)"
  by (cases g) (simp add: start_heartbeat_task_def start_heartbeat_def)

lemma alone_patch [simp]:
  "alone (patch_task env forward k) (g, m) =
     (case apply_port_forward_patch env forward g m of (r, m) \<Rightarrow> alone (k r) (g, m))"
  by (simp add: patch_task_def split: prod.split)

lemma alone_connect_center [simp]:
  "alone (connect_center_task env center ct k) (g, m) =
     (case connect_center env center ct g m of (r, g, m) \<Rightarrow> alone (k r) (g, m))"
proof -
  obtain r g1 m1 where once: "try_connect_once env (cd_virtual_ip center) (cd_port center) g m = (r, g1, m1)"
    by (metis prod_cases3)
  from try_connect_once_result [OF once] obtain direct where r: "r = Inr direct" by blast
  show ?thesis
  proof (cases direct)
    case True
    with once r show ?thesis by (simp add: connect_center_task_def connect_center_def)
  next
    case False
    obtain lp m2 where lp: "env_free_port env m1 = (lp, m2)" by (cases "env_free_port env m1")
    let ?f = "forward_rule lp (cd_virtual_ip center) (cd_port center)"
    obtain pr m3 where patch: "apply_port_forward_patch env ?f (push_forward ?f g1) m2 = (pr, m3)"
      by (cases "apply_port_forward_patch env ?f (push_forward ?f g1) m2")
    obtain r2 g2 m4 where retry:
      "try_connect_with_retry env localhost lp 10 ct (push_forward ?f g1) m3 = (r2, g2, m4)"
      by (metis prod_cases3)
    from try_connect_with_retry_result [OF this] obtain b where "r2 = Inr b" by blast
    with False once r lp patch retry show ?thesis
      by (cases pr; cases b) (simp_all add: connect_center_task_def connect_center_def Let_def)
  qed
qed

lemma no_token: "g_heartbeat_ct g = None \<Longrightarrow> g\<lparr>g_heartbeat_ct := None\<rparr> = g"
  by (cases g) simp

lemma alone_connect [simp]:
  "alone (connect_task env code ct k) (g, m) =
     (case connect env code ct g m of None \<Rightarrow> None | Some (r, g, m) \<Rightarrow> alone (k r) (g, m))"
  by (auto simp: connect_task_def connect_def Let_def split: option.split prod.split sum.split)

lemma alone_map_minecraft_port [simp]:
  "alone (map_minecraft_port_task env k) (g, m) =
     (case map_minecraft_port env g m of (r, g, m) \<Rightarrow> alone (k r) (g, m))"
  by (auto simp: map_minecraft_port_task_def expose_port_task_def map_minecraft_port_def Let_def
      split: option.split prod.split sum.split)

lemma alone_leave [simp]: "alone (leave_task env p) (g, m) = alone p (leave env g m)"
  by (simp add: leave_task_def leave_def stop_heartbeat_def Let_def no_token
      split: option.split prod.split)

lemma alone_beat [simp]:
  "alone (beat_task env w k) (g, m) =
     (case heartbeat_iteration (guest_heartbeat env) w (g, m) of (ended, s) \<Rightarrow> alone (k ended) s)"
  by (auto simp: beat_task_def heartbeat_iteration_def guest_heartbeat_def send_beat_def
      split: wake.split sum.split prod.split)

text \<open>
  Every operation of a guest, taken lock by lock and not interrupted, is the operation of the
  atomic model: joining, mapping the Minecraft port, leaving and an iteration of the heartbeat give
  the same result, guest and world.
\<close>

lemma guest_tasks_alone:
  "alone (connect_task env code ct Done) (g, m) = map_option (\<lambda>(r, g, m). (r, (g, m))) (connect env code ct g m)
 \<and> alone (map_minecraft_port_task env Done) (g, m)
     = Some (case map_minecraft_port env g m of (r, g, m) \<Rightarrow> (r, (g, m)))
 \<and> alone (leave_task env (Done ())) (g, m) = Some ((), leave env g m)
 \<and> alone (beat_task env w Done) (g, m) = Some (heartbeat_iteration (guest_heartbeat env) w (g, m))"
  by (simp add: map_option_case split: option.split prod.split)

end
