(* ===== verification/Guest_Pool.thy ===== *)
theory Guest_Pool
  imports Guest_Tasks
begin

text \<open>
  Any number of callers on one guest, its heartbeat loops and its subscribers, interleaved at every
  lock: what holds in every reachable state, what a finished call may rely on, and what interleaving
  breaks.
\<close>

section \<open>The jobs of a guest\<close>

datatype guest_job =
    Connect_job room_code nat
  | Map_job
  | Send_job protocol_request
  | Leave_job
  | Beat_job nat wake

datatype guest_result =
    Joined "unit res"
  | Mapped "(string \<times> u16) res"
  | Answered "protocol_response res"
  | Gone
  | Beaten bool

text \<open>
  The pings of a guest, its questions for the port and its list of players are \<open>Send_job\<close>s whose
  callers read the response.
\<close>

fun guest_program ::
  "('m, 'i, 'u, 'v, 'j) guest_env \<Rightarrow> guest_job \<Rightarrow> ('m, guest_result) guest_prog" where
  "guest_program env (Connect_job code ct) = connect_task env code ct (\<lambda>r. Done (Joined r))"
| "guest_program env Map_job = map_minecraft_port_task env (\<lambda>r. Done (Mapped r))"
| "guest_program env (Send_job request) = send_task env request (\<lambda>r. Done (Answered r))"
| "guest_program env Leave_job = leave_task env (Done Gone)"
| "guest_program env (Beat_job ct w) = beat_task env w (\<lambda>ended. Done (Beaten ended))"

type_synonym 'm guest_pool = "(guest \<times> 'm, guest_job, guest_result) pool"

text \<open>
  A loop with a token beats only while fewer iterations with that token are under way, or have ended
  their loop, than loops were spawned with it.
\<close>

fun occupies :: "nat \<Rightarrow> guest_job \<times> ('m, guest_result) guest_prog \<Rightarrow> bool" where
  "occupies ct (Beat_job ct' w, Done (Beaten ended)) = (ct' = ct \<and> ended)"
| "occupies ct (Beat_job ct' w, c) = (ct' = ct)"
| "occupies ct _ = False"

fun guest_may_start :: "'m guest_pool \<Rightarrow> guest_job \<Rightarrow> bool" where
  "guest_may_start p (Beat_job ct w) =
     (length (filter (occupies ct) (tasks p)) < count_list (g_loops (fst (common p))) ct)"
| "guest_may_start p _ = True"

text \<open>What happens to a guest besides: somebody subscribes to the notification of a lost connection.\<close>

definition subscribes :: "guest \<times> 'm \<Rightarrow> guest \<times> 'm \<Rightarrow> bool" where
  "subscribes s t \<longleftrightarrow> fst t = connection_lost_rx (fst s)"

abbreviation guest_pool_step ::
  "('m, 'i, 'u, 'v, 'j) guest_env \<Rightarrow> 'm guest_pool \<Rightarrow> guest_job pool_label \<Rightarrow> 'm guest_pool \<Rightarrow> bool" where
  "guest_pool_step env \<equiv> pool_step (guest_program env) guest_may_start subscribes"

abbreviation guest_pool_init :: "'m guest_pool \<Rightarrow> bool" where
  "guest_pool_init \<equiv> \<lambda>p. tasks p = [] \<and> guest_init (common p)"

section \<open>Reasoning about the programs\<close>

text \<open>
  A relation between the states of a guest that requests, lost connections and changes of other
  fields stay within; the rules for the programs are proved once for all such relations.
\<close>

text \<open>The guest talked, or lost the connection; its room, forwards and tasks are the same.\<close>

definition talks :: "guest \<Rightarrow> guest \<Rightarrow> bool" where
  "talks g g' \<longleftrightarrow> same_room g g' \<and> (is_connected (g_tcp g') \<longrightarrow> is_connected (g_tcp g))"

lemma report_lost_tcp [simp]: "g_tcp (report_lost g) = g_tcp g"
  by (simp add: report_lost_def)

lemma talks_simps [simp]:
  "talks g g" "talks g (report_lost g)"
  "talks g (g\<lparr>g_negotiated := negotiate (my_protocols g) ps\<rparr>)"
  by (simp_all add: talks_def)

lemma talks_send: "send_raw env q g m = (r, g', m') \<Longrightarrow> talks g g'"
  using send_raw_room [of env q g m r g' m'] send_raw_tcp [of env q g m r g' m'] by (auto simp: talks_def)

lemma talks_entry: "send_entry env node g m = (r, g', m') \<Longrightarrow> talks g g'"
  by (auto simp: send_entry_def Let_def split: sum.splits prod.splits dest: talks_send)

lemma talks_beat: "send_beat env node g m = (r, g', m') \<Longrightarrow> talks g g'"
  by (auto simp: send_beat_def Let_def split: sum.splits prod.splits dest: talks_send)

lemma talks_port: "get_server_port env g m = (r, g', m') \<Longrightarrow> talks g g'"
  by (auto simp: get_server_port_def split: prod.splits dest: talks_send)

lemma talks_hang_up: "((), hang_up env g m) = (r, g', m') \<Longrightarrow> talks g g'"
  using hang_up_room [of env g m g' m'] by (simp add: talks_def)

locale guest_relation = task_relation safe moves post
  for safe :: "guest \<times> 'm \<Rightarrow> bool" and moves :: "guest \<times> 'm \<Rightarrow> guest \<times> 'm \<Rightarrow> bool"
    and post :: "guest_result \<Rightarrow> guest \<times> 'm \<Rightarrow> bool" +
  assumes moves_talk: "talks g g' \<Longrightarrow> moves (g, m) (g', m')"
begin

lemma ok_look_at:
  assumes "\<And>t. moves s t \<Longrightarrow> safe t \<Longrightarrow> ok_after t (k (f (fst t)))"
  shows "ok_after s (look_g f k)"
  using assms unfolding look_g_def case_prod_beta by (rule ok_look_state)

lemma ok_look:
  assumes "\<And>v. ok_after s (k v)"
  shows "ok_after s (look_g f k)"
  using assms unfolding look_g_def by (rule ok_look_any)

lemma ok_put:
  assumes "\<And>g m. moves s (g, m) \<Longrightarrow> safe (g, m) \<Longrightarrow> moves (g, m) (f g, m) \<and> ok_after (f g, m) c"
  shows "ok_after s (put_g f c)"
  using assms unfolding put_g_def case_prod_beta by (intro ok_put_state) (metis prod.collapse)

lemma ok_locked:
  assumes "\<And>g m r g' m'. moves s (g, m) \<Longrightarrow> safe (g, m) \<Longrightarrow> f g m = (r, g', m') \<Longrightarrow>
      moves (g, m) (g', m') \<and> ok_after (g', m') (k r)"
  shows "ok_after s (locked f k)"
  unfolding locked_def using assms by (intro ok_call_state) (auto split: prod.splits)

lemma ok_talk:
  assumes "\<And>g m r g' m'. f g m = (r, g', m') \<Longrightarrow> talks g g'" and "\<And>r. ok_after s (k r)"
  shows "ok_after s (locked f k)"
proof (rule ok_locked)
  fix g m r g' m'
  assume t: "moves s (g, m)" and "f g m = (r, g', m')"
  then have "moves (g, m) (g', m')" using assms(1) moves_talk by blast
  with t assms(2) show "moves (g, m) (g', m') \<and> ok_after (g', m') (k r)"
    by (blast intro: ok_later moves_trans)
qed

lemma ok_world:
  assumes "\<And>r. ok_after s (k r)"
  shows "ok_after s (on_world f k)"
proof -
  have "on_world f k = locked (\<lambda>g m. case f m of (a, m) \<Rightarrow> (a, g, m)) k"
    by (simp add: on_world_def locked_def case_prod_beta)
  then show ?thesis by (auto intro!: ok_talk assms split: prod.splits)
qed

lemma ok_talking_put:
  assumes "\<And>g. talks g (f g)" and "ok_after s c"
  shows "ok_after s (put_g f c)"
proof (rule ok_put)
  fix g m assume t: "moves s (g, m)"
  have "moves (g, m) (f g, m)" using assms(1) moves_talk by blast
  with t assms(2) show "moves (g, m) (f g, m) \<and> ok_after (f g, m) c"
    by (blast intro: ok_later moves_trans)
qed

text \<open>The parts of the operations that only talk.\<close>

lemma ok_node_id: "(\<And>r. ok_after s (k r)) \<Longrightarrow> ok_after s (node_id_task k)"
  unfolding node_id_task_def by (intro ok_look) (auto intro: ok_look)

lemma ok_send: "(\<And>r. ok_after s (k r)) \<Longrightarrow> ok_after s (send_task env q k)"
  unfolding send_task_def by (rule ok_talk [OF talks_send])

lemma ok_player_ping: "(\<And>r. ok_after s (k r)) \<Longrightarrow> ok_after s (send_player_ping_task env k)"
  unfolding send_player_ping_task_def
  by (intro ok_look) (auto intro!: ok_talking_put ok_node_id ok_talk [OF talks_entry])

lemma ok_negotiate: "(\<And>r. ok_after s (k r)) \<Longrightarrow> ok_after s (negotiate_protocols_task env k)"
  unfolding negotiate_protocols_task_def
  by (rule ok_talk [OF talks_send]) (auto split: sum.split intro!: ok_talking_put)

lemma ok_hang_up: "ok_after s c \<Longrightarrow> ok_after s (hang_up_task env c)"
  unfolding hang_up_task_def by (rule ok_talk [OF talks_hang_up])

lemma ok_patch: "(\<And>r. ok_after s (k r)) \<Longrightarrow> ok_after s (patch_task env forward k)"
  unfolding patch_task_def by (rule ok_talk) (auto split: prod.splits)

lemma ok_discover: "(\<And>r. ok_after s (k r)) \<Longrightarrow> ok_after s (discover_task env ct n k)"
  by (induction n) (auto intro!: ok_talk ok_world split: option.split)

lemma ok_beat: "(\<And>ended. ok_after s (k ended)) \<Longrightarrow> ok_after s (beat_task env w k)"
  unfolding beat_task_def
  by (cases w) (auto intro!: ok_look ok_talking_put ok_node_id ok_talk [OF talks_beat])

end

text \<open>Where a new connection is within the relation too, so is every attempt to connect.\<close>

locale joining_relation = guest_relation safe moves post
  for safe :: "guest \<times> 'm \<Rightarrow> bool" and moves :: "guest \<times> 'm \<Rightarrow> guest \<times> 'm \<Rightarrow> bool"
    and post :: "guest_result \<Rightarrow> guest \<times> 'm \<Rightarrow> bool" +
  assumes moves_room: "same_room g g' \<Longrightarrow> moves (g, m) (g', m')"
begin

lemma ok_room:
  assumes "\<And>g m r g' m'. f g m = (r, g', m') \<Longrightarrow> same_room g g'" and "\<And>r. ok_after s (k r)"
  shows "ok_after s (locked f k)"
proof (rule ok_locked)
  fix g m r g' m'
  assume t: "moves s (g, m)" and "f g m = (r, g', m')"
  then have "moves (g, m) (g', m')" using assms(1) moves_room by blast
  with t assms(2) show "moves (g, m) (g', m') \<and> ok_after (g', m') (k r)"
    by (blast intro: ok_later moves_trans)
qed

lemma ok_try_connect_once: "(\<And>b. ok_after s (k b)) \<Longrightarrow> ok_after s (try_connect_once_task env host port k)"
  unfolding try_connect_once_task_def
  by (rule ok_room)
    (auto simp: tcp_connect_locked_def split: prod.splits option.split sum.split
      intro!: ok_player_ping ok_negotiate ok_hang_up)

lemma ok_try_connect_with_retry:
  "(\<And>b. ok_after s (k b)) \<Longrightarrow> ok_after s (try_connect_with_retry_task env host port n ct k)"
  by (induction n) (auto intro!: ok_world ok_try_connect_once)

end

section \<open>What holds in every interleaving\<close>

text \<open>
  Between two accesses the centre is known before the configuration, and the host of the mapped
  address before its port; what was known once stays known.
\<close>

definition guest_safe :: "guest \<times> 'm \<Rightarrow> bool" where
  "guest_safe s \<longleftrightarrow> (let g = fst s in
     (g_config g \<noteq> None \<longrightarrow> g_center g \<noteq> None)
   \<and> (g_minecraft_port g \<noteq> None \<longrightarrow> g_minecraft_host g \<noteq> None)
   \<and> (g_minecraft_host g \<noteq> None \<longrightarrow> g_config g \<noteq> None)
   \<and> negotiated_ok g)"

definition guest_moves :: "guest \<times> 'm \<Rightarrow> guest \<times> 'm \<Rightarrow> bool" where
  "guest_moves s t \<longleftrightarrow> (guest_safe s \<longrightarrow> guest_safe t) \<and> (let g = fst s; g' = fst t in
     g_custom_keys g' = g_custom_keys g
   \<and> (g_center g \<noteq> None \<longrightarrow> g_center g' \<noteq> None) \<and> (g_config g \<noteq> None \<longrightarrow> g_config g' \<noteq> None)
   \<and> (g_minecraft_host g \<noteq> None \<longrightarrow> g_minecraft_host g' \<noteq> None)
   \<and> (g_minecraft_port g \<noteq> None \<longrightarrow> g_minecraft_port g' \<noteq> None)
   \<and> set (g_loops g) \<subseteq> set (g_loops g'))"

fun guest_post :: "guest_result \<Rightarrow> guest \<times> 'm \<Rightarrow> bool" where
  "guest_post (Joined (Inr _)) s = (g_config (fst s) \<noteq> None \<and> g_loops (fst s) \<noteq> [])"
| "guest_post (Mapped (Inr _)) s = (g_minecraft_host (fst s) \<noteq> None \<and> g_minecraft_port (fst s) \<noteq> None)"
| "guest_post _ s = True"

lemma guest_moves_room: "same_room g g' \<Longrightarrow> guest_moves (g, m) (g', m')"
  by (simp add: guest_moves_def guest_safe_def same_room_def)

interpretation everywhere: joining_relation guest_safe guest_moves guest_post
proof unfold_locales
  fix s t t' :: "guest \<times> 'm" and g g' :: guest and m m' :: 'm
  show "guest_moves s s" by (simp add: guest_moves_def)
  show "guest_moves s t \<Longrightarrow> guest_moves t t' \<Longrightarrow> guest_moves s t'"
    by (auto simp: guest_moves_def Let_def)
  show "guest_moves s t \<Longrightarrow> guest_safe s \<Longrightarrow> guest_safe t" by (simp add: guest_moves_def)
  show "talks g g' \<Longrightarrow> guest_moves (g, m) (g', m')" by (simp add: talks_def guest_moves_room)
  show "same_room g g' \<Longrightarrow> guest_moves (g, m) (g', m')" by (rule guest_moves_room)
qed

lemmas ok_rules =
  everywhere.ok_talk everywhere.ok_world everywhere.ok_patch everywhere.ok_try_connect_once
  everywhere.ok_try_connect_with_retry everywhere.ok_discover

lemma guest_moves_knows:
  assumes "guest_moves s t"
  shows "g_center (fst s) \<noteq> None \<Longrightarrow> g_center (fst t) \<noteq> None"
    and "g_config (fst s) \<noteq> None \<Longrightarrow> g_config (fst t) \<noteq> None"
    and "g_minecraft_host (fst s) \<noteq> None \<Longrightarrow> g_minecraft_host (fst t) \<noteq> None"
    and "g_minecraft_port (fst s) \<noteq> None \<Longrightarrow> g_minecraft_port (fst t) \<noteq> None"
    and "g_loops (fst s) \<noteq> [] \<Longrightarrow> g_loops (fst t) \<noteq> []"
  using assms by (auto simp: guest_moves_def Let_def)

lemma ok_mapped:
  assumes "g_minecraft_host (fst s) \<noteq> None" and "g_minecraft_port (fst s) \<noteq> None"
  shows "everywhere.ok_after s (Done (Mapped r))"
proof (rule everywhere.ok_Done)
  fix t assume "guest_moves s t"
  with assms guest_moves_knows(3,4) [OF this] show "guest_post (Mapped r) t" by (cases r) simp_all
qed

lemma ok_push:
  assumes "everywhere.ok_after s c"
  shows "everywhere.ok_after s (put_g (push_forward f) c)"
proof (rule everywhere.ok_put)
  fix g m assume t: "guest_moves s (g, m)"
  have "guest_moves (g, m) (push_forward f g, m)" by (simp add: guest_moves_def guest_safe_def)
  with t assms show "guest_moves (g, m) (push_forward f g, m) \<and> everywhere.ok_after (push_forward f g, m) c"
    by (blast intro: everywhere.ok_later everywhere.moves_trans)
qed

lemma negotiated_ok_fields [simp]:
  "negotiated_ok (g\<lparr>g_minecraft_host := h\<rparr>) = negotiated_ok g"
  "negotiated_ok (g\<lparr>g_minecraft_port := p\<rparr>) = negotiated_ok g"
  "negotiated_ok (g\<lparr>g_center := c\<rparr>) = negotiated_ok g"
  "negotiated_ok (g\<lparr>g_config := cfg\<rparr>) = negotiated_ok g"
  "negotiated_ok (g\<lparr>g_easy_tier := mgr\<rparr>) = negotiated_ok g"
  "negotiated_ok (g\<lparr>g_loops := ls\<rparr>) = negotiated_ok g"
  "negotiated_ok (g\<lparr>g_heartbeat_ct := ct\<rparr>) = negotiated_ok g"
  by (simp_all add: negotiated_ok_def my_protocols_def)

text \<open>Remembering the address, once there is a room.\<close>

lemma ok_remember:
  assumes "g_config (fst s) \<noteq> None"
  shows "everywhere.ok_after s
    (put_g (\<lambda>g. g\<lparr>g_minecraft_host := Some h\<rparr>) (put_g (\<lambda>g. g\<lparr>g_minecraft_port := Some p\<rparr>)
      (Done (Mapped (Inr a)))))"
proof (rule everywhere.ok_put, intro conjI)
  fix g m assume t: "guest_moves s (g, m)" "guest_safe (g, m)"
  with assms have "g_config g \<noteq> None" using guest_moves_knows(2) by fastforce
  with t(2) show "guest_moves (g, m) (g\<lparr>g_minecraft_host := Some h\<rparr>, m)"
    by (simp add: guest_moves_def guest_safe_def)
  show "everywhere.ok_after (g\<lparr>g_minecraft_host := Some h\<rparr>, m)
      (put_g (\<lambda>g. g\<lparr>g_minecraft_port := Some p\<rparr>) (Done (Mapped (Inr a))))"
  proof (rule everywhere.ok_put, intro conjI)
    fix g' m' assume t': "guest_moves (g\<lparr>g_minecraft_host := Some h\<rparr>, m) (g', m')" "guest_safe (g', m')"
    then have host: "g_minecraft_host g' \<noteq> None" using guest_moves_knows(3) by fastforce
    with t'(2) show "guest_moves (g', m') (g'\<lparr>g_minecraft_port := Some p\<rparr>, m')"
      by (simp add: guest_moves_def guest_safe_def)
    show "everywhere.ok_after (g'\<lparr>g_minecraft_port := Some p\<rparr>, m') (Done (Mapped (Inr a)))"
      using host by (intro ok_mapped) simp_all
  qed
qed

lemma ok_failed: "everywhere.ok_after s (Done (Mapped (Inl e)))"
  by (rule everywhere.ok_Done) simp

lemma ok_expose:
  assumes "g_config (fst s) \<noteq> None"
  shows "everywhere.ok_after s (expose_port_task env p (\<lambda>r. Done (Mapped r)))"
  unfolding expose_port_task_def
  using ok_remember [OF assms]
  by (auto intro!: ok_failed everywhere.ok_look ok_rules ok_push split: sum.split option.split simp: Let_def)

lemma ok_map: "everywhere.ok_after s (map_minecraft_port_task env (\<lambda>r. Done (Mapped r)))"
  unfolding map_minecraft_port_task_def
proof (rule everywhere.ok_look_at, rule everywhere.ok_look)
  fix t :: "guest \<times> 'a" and center_ready
  let ?k = "\<lambda>r. Done (Mapped r)"
  let ?ask = "locked (get_server_port env) (case_sum (\<lambda>e. ?k (Inl e)) (\<lambda>p. expose_port_task env p ?k))"
  show "everywhere.ok_after t
    (if \<not> (g_config (fst t) \<noteq> None \<and> center_ready) then ?k (Inl (CenterConnection msg_not_joined))
     else look_g g_minecraft_host (\<lambda>host. look_g g_minecraft_port (\<lambda>port.
       case (host, port) of (Some h, Some p) \<Rightarrow> ?k (Inr (h, p)) | _ \<Rightarrow> ?ask)))"
  proof (cases "g_config (fst t) \<noteq> None \<and> center_ready")
    case False
    then show ?thesis using ok_failed [of t] by auto
  next
    case True
    have "everywhere.ok_after u' (case (g_minecraft_host (fst u), g_minecraft_port (fst u')) of
        (Some h, Some p) \<Rightarrow> ?k (Inr (h, p)) | _ \<Rightarrow> ?ask)"
      if moves: "guest_moves t u" "guest_moves u u'" for u u'
    proof (cases "g_minecraft_host (fst u) \<noteq> None \<and> g_minecraft_port (fst u') \<noteq> None")
      case True
      then have "g_minecraft_host (fst u') \<noteq> None" "g_minecraft_port (fst u') \<noteq> None"
        using guest_moves_knows(3) [OF moves(2)] by simp_all
      from ok_mapped [OF this] True show ?thesis by auto
    next
      case False
      have "g_config (fst u') \<noteq> None"
        using True guest_moves_knows(2) moves by blast
      then have "everywhere.ok_after u' ?ask"
        by (intro ok_rules(1) [OF talks_port]) (auto intro: ok_failed ok_expose split: sum.split)
      with False show ?thesis by (auto split: option.split)
    qed
    with True show ?thesis by (auto intro!: everywhere.ok_look_at)
  qed
qed

text \<open>Changes of one field that nothing else rests on.\<close>

lemma ok_field:
  fixes s :: "guest \<times> 'm"
  assumes "\<And>g (m :: 'm). guest_moves (g, m) (f g, m)" and "everywhere.ok_after s c"
  shows "everywhere.ok_after s (put_g f c)"
proof (rule everywhere.ok_put)
  fix g and m :: 'm assume "guest_moves s (g, m)"
  with assms show "guest_moves (g, m) (f g, m) \<and> everywhere.ok_after (f g, m) c"
    by (blast intro: everywhere.ok_later everywhere.moves_trans)
qed

lemma ok_use_port_forward:
  "everywhere.ok_after s c \<Longrightarrow> everywhere.ok_after s (put_g (\<lambda>g. g\<lparr>g_use_port_forward := b\<rparr>) c)"
  by (rule ok_field) (simp_all add: guest_moves_def guest_safe_def)

lemma ok_not_joined: "everywhere.ok_after s (Done (Joined (Inl e)))"
  by (rule everywhere.ok_Done) simp

lemma ok_start_heartbeat:
  assumes "g_config (fst s) \<noteq> None"
  shows "everywhere.ok_after s (start_heartbeat_task ct (Done (Joined (Inr ()))))"
  unfolding start_heartbeat_task_def
proof (rule everywhere.ok_put, intro conjI)
  fix g m assume t: "guest_moves s (g, m)" "guest_safe (g, m)"
  let ?g = "g\<lparr>g_loops := g_loops g @ [ct]\<rparr>"
  show "guest_moves (g, m) (?g, m)" by (simp add: guest_moves_def guest_safe_def subset_insertI)
  have config: "g_config g \<noteq> None" using guest_moves_knows(2) [OF t(1) assms] by simp
  have "guest_post (Joined (Inr ())) u" if "guest_moves (?g, m) u" for u
    using guest_moves_knows(2,5) [OF that] config by simp
  then have "everywhere.ok_after (?g, m) (Done (Joined (Inr ())))" by (rule everywhere.ok_Done)
  then show "everywhere.ok_after (?g, m) (put_g (\<lambda>g. g\<lparr>g_heartbeat_ct := Some ct\<rparr>) (Done (Joined (Inr ()))))"
    by (rule ok_field [rotated]) (simp add: guest_moves_def guest_safe_def)
qed

lemma ok_connect_center:
  assumes "g_config (fst s) \<noteq> None"
  shows "everywhere.ok_after s (connect_center_task env center ct (\<lambda>r. Done (Joined r)))"
  unfolding connect_center_task_def
  by (auto intro!: ok_rules ok_push ok_not_joined ok_use_port_forward ok_start_heartbeat [OF assms]
      split: sum.split simp: Let_def)

lemma ok_connect: "everywhere.ok_after s (connect_task env code ct (\<lambda>r. Done (Joined r)))"
proof -
  have room: "everywhere.ok_after t (put_g (\<lambda>g. g\<lparr>g_center := Some center\<rparr>)
      (put_g (\<lambda>g. g\<lparr>g_config := Some config\<rparr>) (connect_center_task env center ct (\<lambda>r. Done (Joined r)))))"
    for t :: "guest \<times> 'a" and center config
  proof (rule everywhere.ok_put, intro conjI)
    fix g and m :: 'a
    show "guest_moves (g, m) (g\<lparr>g_center := Some center\<rparr>, m)" by (simp add: guest_moves_def guest_safe_def)
    show "everywhere.ok_after (g\<lparr>g_center := Some center\<rparr>, m)
        (put_g (\<lambda>g. g\<lparr>g_config := Some config\<rparr>) (connect_center_task env center ct (\<lambda>r. Done (Joined r))))"
    proof (rule everywhere.ok_put, intro conjI)
      fix g' m' assume t': "guest_moves (g\<lparr>g_center := Some center\<rparr>, m) (g', m')" "guest_safe (g', m')"
      then have "g_center g' \<noteq> None" using guest_moves_knows(1) by fastforce
      with t'(2) show "guest_moves (g', m') (g'\<lparr>g_config := Some config\<rparr>, m')"
        by (simp add: guest_moves_def guest_safe_def)
      show "everywhere.ok_after (g'\<lparr>g_config := Some config\<rparr>, m')
          (connect_center_task env center ct (\<lambda>r. Done (Joined r)))"
        by (rule ok_connect_center) simp
    qed
  qed
  have rest: "everywhere.ok_after t (case_sum (\<lambda>e. Done (Joined (Inl e))) (\<lambda>_. discover_task env ct 60
      (case_sum (\<lambda>e. Done (Joined (Inl e))) (\<lambda>center. put_g (\<lambda>g. g\<lparr>g_center := Some center\<rparr>)
        (put_g (\<lambda>g. g\<lparr>g_config := Some config\<rparr>) (connect_center_task env center ct (\<lambda>r. Done (Joined r))))))) r)"
    for t :: "guest \<times> 'a" and config r
    by (auto split: sum.split intro!: ok_not_joined ok_rules room)
  have "keeps guest_safe guest_moves guest_post
      (connect_task env code ct (\<lambda>r. Done (Joined r))) t" for t :: "guest \<times> 'a"
    unfolding connect_task_def
  proof (rule keeps_look, rule everywhere.moves_refl, rule keeps_try_call)
    fix u v v' :: "guest \<times> 'a" and a
    assume "(case u of (g, m) \<Rightarrow> case start (env_lib env)
        (case t of (g, m) \<Rightarrow> guest_config code g (env_system env m)) (g_easy_tier g) m of
        None \<Rightarrow> None | Some (r, mgr, m) \<Rightarrow> Some (r, g\<lparr>g_easy_tier := mgr\<rparr>, m)) = Some (a, v)"
    then show "guest_moves u v"
      by (auto split: prod.splits option.splits simp: guest_moves_def guest_safe_def)
    show "keeps guest_safe guest_moves guest_post (case a of Inl e \<Rightarrow> Done (Joined (Inl e))
        | Inr _ \<Rightarrow> discover_task env ct 60 (\<lambda>found. case found of Inl e \<Rightarrow> Done (Joined (Inl e))
          | Inr center \<Rightarrow> put_g (\<lambda>g. g\<lparr>g_center := Some center\<rparr>)
              (put_g (\<lambda>g. g\<lparr>g_config := Some (case t of (g, m) \<Rightarrow> guest_config code g (env_system env m))\<rparr>)
                (connect_center_task env center ct (\<lambda>r. Done (Joined r)))))) v'"
      if "guest_moves v v'"
      using everywhere.ok_keeps [OF rest that] .
  qed
  then show ?thesis by (simp add: everywhere.ok_after_def)
qed

lemma ok_leave: "everywhere.ok_after s (leave_task env (Done Gone))"
proof -
  have stopped: "everywhere.ok_after t (locked (\<lambda>g m. case stop (env_lib env) (g_easy_tier g) m of
      (r, mgr, m) \<Rightarrow> (r, g\<lparr>g_easy_tier := mgr\<rparr>, m)) (\<lambda>_. Done Gone))" for t :: "guest \<times> 'a"
    by (rule everywhere.ok_locked)
      (auto split: prod.splits intro!: everywhere.ok_Done simp: guest_moves_def guest_safe_def)
  have "everywhere.ok_after t (case token of
        Some ct \<Rightarrow> on_world (\<lambda>m. ((), env_cancel env ct m)) (\<lambda>_. hang_up_task env
          (locked (\<lambda>g m. case stop (env_lib env) (g_easy_tier g) m of
            (r, mgr, m) \<Rightarrow> (r, g\<lparr>g_easy_tier := mgr\<rparr>, m)) (\<lambda>_. Done Gone)))
      | None \<Rightarrow> hang_up_task env (locked (\<lambda>g m. case stop (env_lib env) (g_easy_tier g) m of
            (r, mgr, m) \<Rightarrow> (r, g\<lparr>g_easy_tier := mgr\<rparr>, m)) (\<lambda>_. Done Gone)))"
    for t :: "guest \<times> 'a" and token
    by (auto split: option.split intro!: ok_rules everywhere.ok_hang_up stopped)
  then show ?thesis
    unfolding leave_task_def Let_def
    by (intro everywhere.ok_locked) (auto simp: guest_moves_def guest_safe_def)
qed

lemma guest_program_ok: "everywhere.ok_after s (guest_program env j)"
  by (cases j) (auto intro!: ok_connect ok_map ok_leave everywhere.ok_send everywhere.ok_beat everywhere.ok_Done)

interpretation crew: cooperation guest_init guest_safe guest_moves guest_post
  "guest_program env" guest_may_start subscribes
  for env :: "('m, 'i, 'u, 'v, 'j) guest_env"
proof unfold_locales
  fix s t t' :: "guest \<times> 'm" and p :: "'m guest_pool" and j
  show "guest_safe s" if "guest_init s"
    using that by (cases s) (auto simp: guest_safe_def new_guest_def negotiated_ok_def)
  show "guest_moves s t" if "subscribes s t"
    using that guest_moves_room [OF same_room_lost(2), of "fst s" "snd s" "snd t"]
    by (cases s; cases t) (simp add: subscribes_def)
  show "keeps guest_safe guest_moves guest_post (guest_program env j) s"
    by (rule everywhere.ok_keeps [OF guest_program_ok everywhere.moves_refl])
qed (fact everywhere.moves_safe everywhere.moves_refl everywhere.moves_trans)+

section \<open>After leaving\<close>

text \<open>Without a new attempt to join, a lost connection stays lost, and a stopped heartbeat stopped.\<close>

definition stays_left :: "guest \<times> 'm \<Rightarrow> guest \<times> 'm \<Rightarrow> bool" where
  "stays_left s t \<longleftrightarrow>
     (\<not> is_connected (g_tcp (fst s)) \<longrightarrow> \<not> is_connected (g_tcp (fst t)))
   \<and> (g_heartbeat_ct (fst s) = None \<longrightarrow> g_heartbeat_ct (fst t) = None)"

fun left_post :: "guest_result \<Rightarrow> guest \<times> 'm \<Rightarrow> bool" where
  "left_post Gone s = (\<not> is_connected (g_tcp (fst s)) \<and> g_heartbeat_ct (fst s) = None)"
| "left_post _ s = True"

definition not_joining :: "'m guest_pool \<Rightarrow> guest_job \<Rightarrow> bool" where
  "not_joining p j \<longleftrightarrow> guest_may_start p j \<and> (\<forall>code ct. j \<noteq> Connect_job code ct)"

interpretation leaving: guest_relation "\<lambda>_. True" stays_left left_post
  by unfold_locales (auto simp: stays_left_def talks_def same_room_def)

lemma left_put:
  assumes "\<And>g. g_tcp (f g) = g_tcp g \<and> g_heartbeat_ct (f g) = g_heartbeat_ct g" and "leaving.ok_after s c"
  shows "leaving.ok_after s (put_g f c)"
proof (rule leaving.ok_put)
  fix g m assume t: "stays_left s (g, m)"
  have "stays_left (g, m) (f g, m)" using assms(1) by (simp add: stays_left_def)
  with t assms(2) show "stays_left (g, m) (f g, m) \<and> leaving.ok_after (f g, m) c"
    by (blast intro: leaving.ok_later leaving.moves_trans)
qed

lemma left_map: "leaving.ok_after s (map_minecraft_port_task env (\<lambda>r. Done (Mapped r)))"
  unfolding map_minecraft_port_task_def expose_port_task_def
  by (auto intro!: leaving.ok_look leaving.ok_talk [OF talks_port] leaving.ok_world leaving.ok_patch
      leaving.ok_Done left_put split: option.split sum.split simp: Let_def push_forward_def)

lemma left_leave: "leaving.ok_after s (leave_task env (Done Gone))"
proof -
  let ?stop = "locked (\<lambda>g m. case stop (env_lib env) (g_easy_tier g) m of
      (r, mgr, m) \<Rightarrow> (r, g\<lparr>g_easy_tier := mgr\<rparr>, m)) (\<lambda>_. Done Gone)"
  have stop: "leaving.ok_after s ?stop" if "\<not> is_connected (g_tcp (fst s))" "g_heartbeat_ct (fst s) = None"
    for s :: "guest \<times> 'a"
    using that by (intro leaving.ok_locked) (auto split: prod.splits intro!: leaving.ok_Done simp: stays_left_def)
  have hang: "leaving.ok_after s (hang_up_task env ?stop)" if none: "g_heartbeat_ct (fst s) = None"
    for s :: "guest \<times> 'a"
    unfolding hang_up_task_def
  proof (rule leaving.ok_locked)
    fix g m r g' m'
    assume t: "stays_left s (g, m)" and "((), hang_up env g m) = (r, g', m')"
    then have h: "same_room g g'" "\<not> is_connected (g_tcp g')" using hang_up_room [of env g m g' m'] by simp_all
    moreover have "g_heartbeat_ct g' = None" using h(1) t none by (simp add: same_room_def stays_left_def)
    ultimately show "stays_left (g, m) (g', m') \<and> leaving.ok_after (g', m') ?stop"
      by (auto simp: stays_left_def intro!: stop)
  qed
  show ?thesis
    unfolding leave_task_def Let_def
    by (rule leaving.ok_locked)
      (auto simp: stays_left_def split: option.split intro!: leaving.ok_world hang)
qed

lemma left_program: "(\<forall>code ct. j \<noteq> Connect_job code ct) \<Longrightarrow> leaving.ok_after s (guest_program env j)"
  by (cases j) (auto intro!: left_map left_leave leaving.ok_send leaving.ok_beat leaving.ok_Done)

interpretation left: cooperation "\<lambda>_. True" "\<lambda>_. True" stays_left left_post
  "guest_program env" not_joining subscribes
  for env :: "('m, 'i, 'u, 'v, 'j) guest_env"
proof unfold_locales
  fix s t t' :: "guest \<times> 'm" and p :: "'m guest_pool" and j
  show "stays_left s t" if "subscribes s t"
    using that by (simp add: subscribes_def stays_left_def connection_lost_rx_def)
  show "keeps (\<lambda>_. True) stays_left left_post (guest_program env j) s" if "not_joining p j"
    using that unfolding not_joining_def
    by (intro leaving.ok_keeps [OF left_program leaving.moves_refl]) simp
qed (fact leaving.moves_refl leaving.moves_trans | simp)+

lemma send_raw_disconnected:
  assumes "\<not> is_connected (g_tcp g)"
  shows "send_raw env q g m = (Inl (CenterConnection msg_not_connected), g, m)"
proof -
  have "client_stream (g_tcp g) = None"
    using assms by (cases "client_stream (g_tcp g)") (auto simp: is_connected_def)
  then show ?thesis by (cases g) (simp add: send_raw_def send_def Let_def)
qed

section \<open>How many actions a call takes\<close>

lemma within_access:
  "0 < n \<Longrightarrow> (\<And>v. within (k v) (n - 1)) \<Longrightarrow> within (look_g f k) n"
  "0 < n \<Longrightarrow> within c (n - 1) \<Longrightarrow> within (put_g h c) n"
  "0 < n \<Longrightarrow> (\<And>v. within (d v) (n - 1)) \<Longrightarrow> within (on_world w d) n"
  "0 < n \<Longrightarrow> (\<And>v. within (e v) (n - 1)) \<Longrightarrow> within (locked l e) n"
  unfolding look_g_def put_g_def on_world_def locked_def by (cases n; simp)+

lemma within_hang_up: "0 < n \<Longrightarrow> within c (n - 1) \<Longrightarrow> within (hang_up_task env c) n"
  unfolding hang_up_task_def by (rule within_access)

lemma within_patch: "0 < n \<Longrightarrow> (\<And>r. within (k r) (n - 1)) \<Longrightarrow> within (patch_task env forward k) n"
  unfolding patch_task_def by (rule within_access)

lemma within_node_id:
  assumes "\<And>r. within (k r) n"
  shows "within (node_id_task k) (n + 2)"
  unfolding node_id_task_def by (auto intro!: within_access within_mono [OF assms])

lemma within_player_ping:
  assumes "\<And>r. within (k r) n"
  shows "within (send_player_ping_task env k) (n + 4)"
proof -
  have "within (locked (send_entry env node) k) (n + 1)" for node
    by (auto intro!: within_access assms)
  from within_mono [OF within_node_id [OF this]] show ?thesis
    unfolding send_player_ping_task_def by (auto intro!: within_access within_mono [OF assms])
qed

lemma within_negotiate:
  assumes "\<And>r. within (k r) n"
  shows "within (negotiate_protocols_task env k) (n + 2)"
  unfolding negotiate_protocols_task_def
  by (auto intro!: within_access within_mono [OF assms] split: sum.split)

lemma within_try_connect_once:
  assumes "\<And>b. within (k b) n"
  shows "within (try_connect_once_task env host port k) (n + 8)"
proof -
  have hang: "within (hang_up_task env (k False)) m" if "n + 1 \<le> m" for m
    using that by (auto intro!: within_hang_up within_mono [OF assms])
  have "within (if is_ok r then k True else hang_up_task env (k False)) (n + 1)" for r :: "unit res"
    using hang by (simp add: within_mono [OF assms])
  from within_negotiate [OF this]
  have "within (negotiate_protocols_task env (\<lambda>r. if is_ok r then k True else hang_up_task env (k False))) (n + 3)"
    by (simp add: numeral_3_eq_3)
  then have "within (send_player_ping_task env (\<lambda>r1. if is_ok r1
      then negotiate_protocols_task env (\<lambda>r. if is_ok r then k True else hang_up_task env (k False))
      else hang_up_task env (k False))) (n + 3 + 4)"
    using hang by (intro within_player_ping) auto
  then show ?thesis
    unfolding try_connect_once_task_def
    using hang by (auto intro!: within_access split: option.split sum.split)
qed

lemma within_retry:
  assumes "\<And>b. within (k b) n"
  shows "within (try_connect_with_retry_task env host port r ct k) (n + 10 * r)"
proof (induction r)
  case 0
  show ?case using assms by simp
next
  case (Suc r)
  let ?next = "\<lambda>ok. if ok then k True
      else if r > 0
      then on_world (\<lambda>m. ((), lib_sleep (env_lib env) retry_delay m))
             (\<lambda>_. try_connect_with_retry_task env host port r ct k)
      else try_connect_with_retry_task env host port r ct k"
  have onward: "within (?next ok) (n + 10 * r + 1)" for ok
    by (auto intro!: within_access within_mono [OF Suc.IH] within_mono [OF assms])
  have "within (try_connect_once_task env host port ?next) (n + 10 * r + 1 + 8)"
    by (rule within_try_connect_once) (rule onward)
  then have "within (try_connect_once_task env host port ?next) (n + 10 * Suc r - 1)"
    by (rule within_mono) simp
  then have "within (if is_cancelled then k False else try_connect_once_task env host port ?next) (n + 10 * Suc r - 1)"
    for is_cancelled by (cases is_cancelled) (simp_all only: if_True if_False within_mono [OF assms], simp add: within_mono [OF assms])
  then show ?case
    unfolding try_connect_with_retry_task.simps by (intro within_access) simp_all
qed

lemma within_discover:
  assumes "\<And>r. within (k r) n"
  shows "within (discover_task env ct r k) (n + 2 * r)"
  by (induction r) (auto intro!: within_access within_mono [OF assms] assms split: option.split)

lemma within_start_heartbeat: "within c n \<Longrightarrow> within (start_heartbeat_task ct c) (n + 2)"
  unfolding start_heartbeat_task_def by (auto intro!: within_access)

lemma within_connect_center:
  assumes "\<And>r. within (k r) 0"
  shows "within (connect_center_task env center ct k) 114"
proof -
  have up: "within (put_g f (start_heartbeat_task ct (k r))) m" if "3 \<le> m" for f r m
    using that by (auto intro!: within_access within_mono [OF within_start_heartbeat [OF assms]])
  have "within (try_connect_with_retry_task env localhost lp 10 ct (\<lambda>ok.
      if ok then put_g (\<lambda>g. g\<lparr>g_use_port_forward := True\<rparr>) (start_heartbeat_task ct (k (Inr ())))
      else k (Inl (CenterConnection msg_forward_failed)))) (3 + 10 * 10)" for lp
    using up by (intro within_retry) (auto intro: within_mono [OF assms])
  then have "within (if direct then put_g (\<lambda>g. g\<lparr>g_use_port_forward := False\<rparr>) (start_heartbeat_task ct (k (Inr ())))
      else on_world (env_free_port env) (\<lambda>local_port.
         let forward = forward_rule local_port (cd_virtual_ip center) (cd_port center)
         in put_g (push_forward forward) (patch_task env forward (\<lambda>r.
              case r of Inl e \<Rightarrow> k (Inl e)
              | Inr _ \<Rightarrow> try_connect_with_retry_task env localhost local_port 10 ct (\<lambda>ok.
                  if ok then put_g (\<lambda>g. g\<lparr>g_use_port_forward := True\<rparr>) (start_heartbeat_task ct (k (Inr ())))
                  else k (Inl (CenterConnection msg_forward_failed))))))) 106" for direct
    using up
    by (auto simp: Let_def intro!: within_access within_patch within_mono [OF assms] split: sum.split)
  from within_try_connect_once [OF this] show ?thesis unfolding connect_center_task_def by simp
qed

lemma within_connect:
  assumes "\<And>r. within (k r) 0"
  shows "within (connect_task env code ct k) 238"
proof -
  have "within (discover_task env ct 60 (\<lambda>found. case found of Inl e \<Rightarrow> k (Inl e)
      | Inr center \<Rightarrow> put_g (\<lambda>g. g\<lparr>g_center := Some center\<rparr>) (put_g (\<lambda>g. g\<lparr>g_config := Some config\<rparr>)
          (connect_center_task env center ct k)))) (116 + 2 * 60)" for config
    using within_connect_center [of k, OF assms]
    by (intro within_discover) (auto intro!: within_access within_mono [OF assms] split: sum.split)
  then have rest: "within (case started of Inl e \<Rightarrow> k (Inl e)
      | Inr _ \<Rightarrow> discover_task env ct 60 (\<lambda>found. case found of Inl e \<Rightarrow> k (Inl e)
      | Inr center \<Rightarrow> put_g (\<lambda>g. g\<lparr>g_center := Some center\<rparr>) (put_g (\<lambda>g. g\<lparr>g_config := Some config\<rparr>)
          (connect_center_task env center ct k)))) 236" for started config
    by (auto intro: within_mono [OF assms] split: sum.split)
  have "238 = Suc (Suc 236)" by simp
  then show ?thesis
    unfolding connect_task_def by (simp only: within_actions) (use rest in blast)
qed

lemma within_map:
  assumes "\<And>r. within (k r) 0"
  shows "within (map_minecraft_port_task env k) 12"
proof -
  have "within (expose_port_task env p k) 7" for p
    unfolding expose_port_task_def
    by (auto simp: Let_def intro!: within_access within_patch within_mono [OF assms] split: sum.split option.split)
  then show ?thesis
    unfolding map_minecraft_port_task_def
    by (auto intro!: within_access within_mono [OF assms] split: sum.split option.split)
qed

section \<open>Properties\<close>

text \<open>
  C6: In every interleaving of any calls on a guest with its heartbeat loops: a configuration is
  known only with the centre, an address is mapped only in a room and its host is known before its
  port, only own protocols are negotiated; when a call has joined, the room is known and a
  heartbeat loop was spawned, and when a call has mapped an address, both halves are remembered.
\<close>

theorem interleaved_guest_invariant:
  assumes "reach guest_pool_init (guest_pool_step env) p" and "common p = (g, m)"
  shows "(g_config g \<noteq> None \<longrightarrow> g_center g \<noteq> None)
    \<and> (g_minecraft_port g \<noteq> None \<longrightarrow> g_minecraft_host g \<noteq> None)
    \<and> (g_minecraft_host g \<noteq> None \<longrightarrow> g_config g \<noteq> None)
    \<and> set (g_negotiated g) \<subseteq> set (standard_protocols @ g_custom_keys g)
    \<and> ((j, Done (Joined (Inr ()))) \<in> set (tasks p) \<longrightarrow> g_config g \<noteq> None \<and> g_loops g \<noteq> [])
    \<and> ((j, Done (Mapped (Inr a))) \<in> set (tasks p) \<longrightarrow> g_minecraft_host g \<noteq> None \<and> g_minecraft_port g \<noteq> None)"
  using crew.reached(1) [OF assms(1)] crew.reached(2) [OF assms(1), of j "Joined (Inr ())"]
    crew.reached(2) [OF assms(1), of j "Mapped (Inr a)"] assms(2)
  by (simp add: guest_safe_def negotiated_ok_def my_protocols_def)

text \<open>A guest in a room that is reached by forwards, with a centre that answers and free ports.\<close>

definition joined_guest :: guest where
  "joined_guest = (new_guest ''g'' ''m'' ''v'' [] None)
     \<lparr> g_easy_tier := new_manager\<lparr>instance_id := Some 1\<rparr>,
       g_tcp := \<lparr>client_stream = Some (0, [])\<rparr>, g_config := Some default_network_config,
       g_center := Some \<lparr>cd_virtual_ip = ''10.144.144.1'', cd_port = 2000\<rparr>,
       g_use_port_forward := True, g_loops := [7], g_heartbeat_ct := Some 7,
       g_connection_lost := \<lparr>watch_value = False, watch_receivers = 1\<rparr> \<rparr>"

definition joined_world :: sample_net where
  "joined_world = \<lparr>sn_running = [1], sn_next = 2, sn_clock = 40000\<rparr>"

definition port_env :: "(sample_net, string, string, string, string) guest_env" where
  "port_env = sample_env
     \<lparr> env_net := (env_net sample_env)
         \<lparr> net_arrive := (\<lambda>_ _ m. ((serialize_response \<lparr>status = 0, resp_body = be16 25565\<rparr>, None), m)) \<rparr>,
       env_free_port := (\<lambda>m. (word_of_nat (sn_clock m), m\<lparr>sn_clock := Suc (sn_clock m)\<rparr>)) \<rparr>"

definition idle_pool :: "sample_net guest_pool" where
  "idle_pool = \<lparr>tasks = [], common = (joined_guest, joined_world)\<rparr>"

theorem interleaved_guest_invariant_witness:
  "set (g_negotiated (connection_lost_rx (new_guest ''g'' ''m'' ''v'' [''x:y''] None)))
     \<subseteq> set (standard_protocols @ [''x:y''])"
proof -
  let ?g = "new_guest ''g'' ''m'' ''v'' [''x:y''] None"
  let ?p = "\<lparr>tasks = [(Map_job, guest_program port_env Map_job)], common = (?g, joined_world)\<rparr>"
  let ?q = "?p\<lparr>common := (connection_lost_rx ?g, joined_world)\<rparr>"
  have "reach guest_pool_init (guest_pool_step port_env) \<lparr>tasks = [], common = (?g, joined_world)\<rparr>"
    by (rule reach_init) (simp add: guest_init_new del: guest_init.simps)
  moreover have "guest_pool_step port_env \<lparr>tasks = [], common = (?g, joined_world)\<rparr> (Start Map_job) ?p"
    using start [of guest_may_start "\<lparr>tasks = [], common = (?g, joined_world)\<rparr>" Map_job "guest_program port_env"
        subscribes] by simp
  moreover have "guest_pool_step port_env ?p Outside ?q"
    by (rule outside) (simp add: subscribes_def)
  ultimately have "reach guest_pool_init (guest_pool_step port_env) ?q"
    using reach_step [where init = guest_pool_init and step = "guest_pool_step port_env"] by blast
  from interleaved_guest_invariant [OF this] show ?thesis by (simp add: connection_lost_rx_def new_guest_def)
qed

text \<open>
  C8: Once a call of \<open>leave\<close> has returned, and as long as nobody joins again, no interleaving of the
  other calls and heartbeats brings the connection or the heartbeat token back: every request fails
  at once and leaves the world as it is.
\<close>

theorem leave_is_final:
  assumes "reach (\<lambda>p. tasks p = [] \<and> True) (pool_step (guest_program env) not_joining subscribes) p"
    and "(Leave_job, Done Gone) \<in> set (tasks p)" and "common p = (g, m)"
  shows "g_heartbeat_ct g = None \<and> send_raw env q g m = (Inl (CenterConnection msg_not_connected), g, m)"
  using left.reached(2) [OF assms(1,2)] assms(3) by (simp add: send_raw_disconnected)

theorem leave_is_final_witness:
  "\<exists>g m. send_raw port_env (standard_request ''ping'' []) g m = (Inl (CenterConnection msg_not_connected), g, m)"
proof -
  let ?step = "pool_step (guest_program port_env) not_joining subscribes"
  let ?init = "\<lambda>p :: sample_net guest_pool. tasks p = [] \<and> True"
  let ?p = "idle_pool\<lparr>tasks := [(Leave_job, guest_program port_env Leave_job)]\<rparr>"
  have 0: "reach ?init ?step idle_pool" by (rule reach_init) (simp add: idle_pool_def)
  have "?step idle_pool (Start Leave_job) (idle_pool\<lparr>tasks := tasks idle_pool @ [(Leave_job, guest_program port_env Leave_job)]\<rparr>)"
    by (rule start) (simp add: not_joining_def)
  then have 1: "?step idle_pool (Start Leave_job) ?p" by (simp add: idle_pool_def)
  obtain g m where l: "leave port_env joined_guest joined_world = (g, m)" by (cases "leave port_env joined_guest joined_world")
  have "\<exists>n. run ?step ?p (replicate n (Turn 0))
      (?p\<lparr>tasks := (tasks ?p)[0 := (Leave_job, Done Gone)], common := (g, m)\<rparr>)"
    by (rule alone_runs [where c = "guest_program port_env Leave_job"])
      (simp_all add: idle_pool_def l)
  then obtain n where "run ?step ?p (replicate n (Turn 0))
      (?p\<lparr>tasks := (tasks ?p)[0 := (Leave_job, Done Gone)], common := (g, m)\<rparr>)" ..
  from reach_run [OF this reach_step [where init = ?init and step = ?step, OF 0 1]]
  have "reach ?init ?step (?p\<lparr>tasks := (tasks ?p)[0 := (Leave_job, Done Gone)], common := (g, m)\<rparr>)" .
  from leave_is_final [OF this, of g m "standard_request ''ping'' []"] show ?thesis by auto
qed

text \<open>An iteration of the heartbeat that has seen the connection, up to sending its body.\<close>

lemma beat_begins:
  assumes "i < length (tasks p)" and "tasks p ! i = (Beat_job ct Elapsed, guest_program env (Beat_job ct Elapsed))"
    and "is_connected (g_tcp (fst (common p)))"
  shows "\<exists>n. run (guest_pool_step env) p (replicate n (Turn i))
    (p\<lparr>tasks := (tasks p)[i := (Beat_job ct Elapsed, locked (send_beat env (ping_node_id (fst (common p))))
       (\<lambda>r. if is_ok r then Done (Beaten False) else put_g report_lost (Done (Beaten True))))]\<rparr>)"
proof -
  let ?send = "\<lambda>node. locked (send_beat env node)
      (\<lambda>r. if is_ok r then Done (Beaten False) else put_g report_lost (Done (Beaten True)))"
  let ?n = "if has_easytier_id (fst (common p)) then 3 else 2"
  have "turns (replicate ?n i) p =
      Some (p\<lparr>tasks := (tasks p)[i := (Beat_job ct Elapsed, ?send (ping_node_id (fst (common p))))]\<rparr>)"
    using assms by (cases p)
      (auto simp: numeral_3_eq_3 numeral_2_eq_2 beat_task_def node_id_task_def ping_node_id_def look_g_def
        look_def case_prod_beta)
  from turns_run [OF this] show ?thesis by (intro exI [of _ ?n]) simp
qed

text \<open>
  Leaving a room can be reported as a lost connection.  A heartbeat that has seen the connection
  and has not yet sent its ping finds it gone when \<open>leave\<close> is done in between; it reports a lost
  connection, although the guest left by itself: the world is exactly as \<open>leave\<close> leaves it, so
  nothing was sent and nothing failed.
\<close>

lemma leave_reports_lost_connection:
  fixes p :: "'m guest_pool"
  assumes "p = \<lparr>tasks = [], common = (g, m)\<rparr>" and "is_connected (g_tcp g)" and "ct \<in> set (g_loops g)"
    and "watch_receivers (g_connection_lost g) > 0"
    and "env_ping_body env (g_player_name g) (g_machine_id g) (g_vendor g) (ping_node_id g) = Inr body"
  shows "\<exists>ls p'. run (guest_pool_step env) p ls p' \<and> (Leave_job, Done Gone) \<in> set (tasks p')
    \<and> watch_value (g_connection_lost (fst (common p'))) \<and> snd (common p') = snd (leave env g m)"
proof -
  let ?step = "guest_pool_step env"
  let ?send = "locked (send_beat env (ping_node_id g))
       (\<lambda>r. if is_ok r then Done (Beaten False) else put_g report_lost (Done (Beaten True)))"
  let ?beat = "Beat_job ct Elapsed"
  define p1 where "p1 = p\<lparr>tasks := [(?beat, guest_program env ?beat)]\<rparr>"
  define p2 where "p2 = p\<lparr>tasks := [(?beat, ?send)]\<rparr>"
  define p3 where "p3 = p\<lparr>tasks := [(?beat, ?send), (Leave_job, guest_program env Leave_job)]\<rparr>"
  obtain g' m' where l: "leave env g m = (g', m')" by (cases "leave env g m")
  define p4 where "p4 = \<lparr>tasks = [(?beat, ?send), (Leave_job, Done Gone)], common = (g', m')\<rparr>"
  define p5 where "p5 = \<lparr>tasks = [(?beat, Done (Beaten True)), (Leave_job, Done Gone)],
      common = (report_lost g', m')\<rparr>"
  have l': "\<not> is_connected (g_tcp g')" "g_player_name g' = g_player_name g" "g_machine_id g' = g_machine_id g"
    "g_vendor g' = g_vendor g" "g_connection_lost g' = g_connection_lost g"
    using l by (auto simp: leave_def stop_heartbeat_def hang_up_def disconnect_def is_connected_def
        split: prod.splits option.splits)
  have "count_list (g_loops g) ct > 0" using assms(3) by (metis count_list_0_iff neq0_conv)
  then have "?step p (Start ?beat) p1"
    using start [of guest_may_start p ?beat "guest_program env" subscribes] assms(1) by (simp add: p1_def)
  moreover have "\<exists>n. run ?step p1 (replicate n (Turn 0)) p2"
    using beat_begins [of 0 p1 ct env] assms(1,2) by (simp add: p1_def p2_def)
  moreover have "?step p2 (Start Leave_job) p3"
    using start [of guest_may_start p2 Leave_job "guest_program env" subscribes] by (simp add: p2_def p3_def)
  moreover have "\<exists>n. run ?step p3 (replicate n (Turn 1)) p4"
    using alone_runs [of 1 p3 Leave_job "guest_program env Leave_job" Gone "(g', m')"] l assms(1)
    by (simp add: p3_def p4_def)
  moreover have "turns [0, 0] p4 = Some p5"
    using l' assms(5)
    by (simp add: p4_def p5_def locked_def call_def put_g_def put_def send_beat_def send_raw_disconnected)
  then have "run ?step p4 (map Turn [0, 0]) p5" by (rule turns_run)
  ultimately obtain ls where "run ?step p ls p5"
    using run_append [where step = ?step] run_Cons [where step = ?step] by meson
  moreover have "watch_value (g_connection_lost (fst (common p5)))"
    using assms(4) l'(5) by (simp add: p5_def report_lost_def watch_send_def)
  moreover have "(Leave_job, Done Gone) \<in> set (tasks p5)" "snd (common p5) = snd (leave env g m)"
    using l by (simp_all add: p5_def)
  ultimately show ?thesis by blast
qed

text \<open>
  C34: Two calls of \<open>map_minecraft_port\<close> at the same time, through forwards, both find no address yet;
  each adds a forward of its own and returns its own port.  The guest remembers the one that comes
  last, so the address that the other call returned is not the one that later calls return.
\<close>

theorem concurrent_maps_disagree:
  fixes p :: "'m guest_pool"
  assumes "p = \<lparr>tasks = [], common = (g, m)\<rparr>" and "g_config g \<noteq> None" and "g_center g = Some center"
    and "minecraft_address g = None"
    and "map_minecraft_port env g m = (Inr a, g1, m1)"
    and "get_server_port env g1 m1 = (Inr mc_port, g2, m2)" and "g_use_port_forward g"
    and "env_free_port env m2 = (local_port, m3)"
    and "apply_port_forward_patch env (forward_rule local_port (cd_virtual_ip center) mc_port)
           (push_forward (forward_rule local_port (cd_virtual_ip center) mc_port) g2) m3 = (Inr (), m4)"
  shows "\<exists>ls p'. run (guest_pool_step env) p ls p'
    \<and> tasks p' = [(Map_job, Done (Mapped (Inr (localhost, local_port)))), (Map_job, Done (Mapped (Inr a)))]
    \<and> minecraft_address (fst (common p')) = Some (localhost, local_port)"
proof -
  let ?step = "guest_pool_step env" and ?map = "guest_program env Map_job"
  let ?k = "\<lambda>r. Done (Mapped r)"
  let ?ask = "locked (get_server_port env) (\<lambda>r. case r of Inl e \<Rightarrow> ?k (Inl e)
      | Inr mc_port \<Rightarrow> expose_port_task env mc_port ?k)"
  let ?f = "forward_rule local_port (cd_virtual_ip center) mc_port"
  let ?g = "(push_forward ?f g2)\<lparr>g_minecraft_host := Some localhost, g_minecraft_port := Some local_port\<rparr>"
  define p1 where "p1 = \<lparr>tasks = [(Map_job, ?map)], common = (g, m)\<rparr>"
  define p2 where "p2 = \<lparr>tasks = [(Map_job, ?ask)], common = (g, m)\<rparr>"
  define p3 where "p3 = \<lparr>tasks = [(Map_job, ?ask), (Map_job, ?map)], common = (g, m)\<rparr>"
  define p4 where "p4 = \<lparr>tasks = [(Map_job, ?ask), (Map_job, Done (Mapped (Inr a)))], common = (g1, m1)\<rparr>"
  define p5 where "p5 = \<lparr>tasks = [(Map_job, Done (Mapped (Inr (localhost, local_port)))),
      (Map_job, Done (Mapped (Inr a)))], common = (?g, m4)\<rparr>"
  have g1: "g_center g1 = Some center" "g_use_port_forward g1"
    using map_minecraft_port_result [OF assms(5)] assms(3,7) by simp_all
  with get_server_port_room [OF assms(6)] have g2: "g_center g2 = Some center" "g_use_port_forward g2"
    by (simp_all add: same_room_def)
  have "?step p (Start Map_job) p1"
    using start [of guest_may_start p Map_job "guest_program env" subscribes] assms(1) by (simp add: p1_def)
  moreover have "turns [0, 0, 0, 0] p1 = Some p2"
    using assms(2,3,4)
    by (cases "g_minecraft_host g"; cases "g_minecraft_port g")
      (auto simp: p1_def p2_def map_minecraft_port_task_def look_g_def look_def case_prod_beta
        minecraft_address_def)
  then have "run ?step p1 (map Turn [0, 0, 0, 0]) p2" by (rule turns_run)
  moreover have "?step p2 (Start Map_job) p3"
    using start [of guest_may_start p2 Map_job "guest_program env" subscribes] by (simp add: p2_def p3_def)
  moreover have "\<exists>n. run ?step p3 (replicate n (Turn 1)) p4"
    using alone_runs [of 1 p3 Map_job ?map "Mapped (Inr a)" "(g1, m1)"] assms(5) by (simp add: p3_def p4_def)
  moreover have "alone ?ask (g1, m1) = Some (Mapped (Inr (localhost, local_port)), (?g, m4))"
    using assms(6,8,9) g2 by (simp add: expose_port_task_def Let_def)
  then have "\<exists>n. run ?step p4 (replicate n (Turn 0)) p5"
    using alone_runs [of 0 p4 Map_job ?ask "Mapped (Inr (localhost, local_port))" "(?g, m4)"]
    by (simp add: p4_def p5_def)
  ultimately obtain ls where "run ?step p ls p5"
    using run_append [where step = ?step] run_Cons [where step = ?step] by meson
  moreover have "minecraft_address (fst (common p5)) = Some (localhost, local_port)" by (simp add: p5_def)
  moreover have "tasks p5 = [(Map_job, Done (Mapped (Inr (localhost, local_port)))), (Map_job, Done (Mapped (Inr a)))]"
    by (simp add: p5_def)
  ultimately show ?thesis by blast
qed

theorem concurrent_maps_disagree_witness:
  "\<exists>ls p'. run (guest_pool_step port_env) idle_pool ls p'
    \<and> tasks p' = [(Map_job, Done (Mapped (Inr (localhost, 40001)))), (Map_job, Done (Mapped (Inr (localhost, 40000))))]
    \<and> minecraft_address (fst (common p')) = Some (localhost, 40001)"
proof -
  have port: "get_server_port port_env g m = (Inr 25565, g, m)"
    if "g_tcp g = \<lparr>client_stream = Some (0, [])\<rparr>" for g m
  proof -
    have "read_response key (serialize_response \<lparr>status = 0, resp_body = be16 25565\<rparr>) None
        = (Inr \<lparr>status = 0, resp_body = be16 25565\<rparr>, [])" for key
      using read_response_frame [of "\<lparr>status = 0, resp_body = be16 25565\<rparr>" key "[]" None]
      by (simp add: wf_response_def)
    moreover have "from_be16 (be16 w ! 0) (be16 w ! 1) = w" for w by (simp add: be16_def)
    ultimately show ?thesis using that
      by (cases g) (simp add: get_server_port_def send_raw_def send_def port_env_def sample_env_def
          port_of_response_def is_success_def)
  qed
  have patch: "apply_port_forward_patch port_env (forward_rule lp ''10.144.144.1'' 25565) g m = (Inr (), m)"
    if "g_easy_tier g = new_manager\<lparr>instance_id := Some 1\<rparr>" "sn_running m = [1]" for lp g m
  proof -
    have "show_ipv4 (Ipv4 10 144 144 1) = ''10.144.144.1''" by code_simp
    then have "parse_forward_addrs (lib_parse_v6 (env_lib port_env)) (forward_rule lp ''10.144.144.1'' 25565)
        = Inr (V4 (Ipv4 127 0 0 1) lp, V4 (Ipv4 10 144 144 1) 25565)"
      using forward_rule_roundtrip [of "lib_parse_v6 (env_lib port_env)" lp "Ipv4 10 144 144 1" 25565]
      by (simp only:)
    moreover have "lib_instance (env_lib port_env) 1 m" "lib_patch (env_lib port_env) 1 addrs m = (Inr (), m)" for addrs
      using that(2) by (simp_all add: port_env_def sample_env_def sample_lib_def)
    ultimately show ?thesis
      using that(1) by (simp add: apply_port_forward_patch_def apply_config_patch_def)
  qed
  let ?f = "\<lambda>lp. forward_rule lp ''10.144.144.1'' 25565"
  let ?g1 = "(push_forward (?f 40000) joined_guest)
    \<lparr>g_minecraft_host := Some localhost, g_minecraft_port := Some 40000\<rparr>"
  let ?m1 = "joined_world\<lparr>sn_clock := 40001\<rparr>"
  have joined: "g_tcp joined_guest = \<lparr>client_stream = Some (0, [])\<rparr>"
    "g_easy_tier joined_guest = new_manager\<lparr>instance_id := Some 1\<rparr>" "sn_running joined_world = [1]"
    "g_config joined_guest = Some default_network_config" "minecraft_address joined_guest = None"
    "g_center joined_guest = Some \<lparr>cd_virtual_ip = ''10.144.144.1'', cd_port = 2000\<rparr>"
    "g_use_port_forward joined_guest" "g_minecraft_host joined_guest = None"
    "env_free_port port_env joined_world = (40000, ?m1)"
    "env_free_port port_env ?m1 = (40001, ?m1\<lparr>sn_clock := 40002\<rparr>)"
    by (simp_all add: joined_guest_def joined_world_def new_guest_def minecraft_address_def port_env_def)
  have "map_minecraft_port port_env joined_guest joined_world = (Inr (localhost, 40000), ?g1, ?m1)"
    using port [OF joined(1)] joined patch [of "push_forward (?f 40000) joined_guest" ?m1 40000]
    by (simp add: map_minecraft_port_def Let_def)
  moreover have "get_server_port port_env ?g1 ?m1 = (Inr 25565, ?g1, ?m1)"
    by (rule port) (simp add: joined)
  moreover have "apply_port_forward_patch port_env (?f 40001) (push_forward (?f 40001) ?g1)
      (?m1\<lparr>sn_clock := 40002\<rparr>) = (Inr (), ?m1\<lparr>sn_clock := 40002\<rparr>)"
    by (rule patch) (simp_all add: joined)
  ultimately show ?thesis
    using concurrent_maps_disagree [of idle_pool joined_guest joined_world
        "\<lparr>cd_virtual_ip = ''10.144.144.1'', cd_port = 2000\<rparr>" port_env "(localhost, 40000)" ?g1 ?m1 25565 ?g1 ?m1 40001]
      joined
    by (simp add: idle_pool_def)
qed

text \<open>How many actions a job takes at most.\<close>

fun guest_actions :: "guest_job \<Rightarrow> nat" where
  "guest_actions (Connect_job code ct) = 238"
| "guest_actions Map_job = 12"
| "guest_actions (Send_job request) = 1"
| "guest_actions Leave_job = 4"
| "guest_actions (Beat_job ct w) = 5"

lemma within_beat: "within (beat_task env w (\<lambda>ended. Done (Beaten ended))) 5"
proof -
  have "within (locked (send_beat env node) (\<lambda>r. if is_ok r then Done (Beaten False)
      else put_g report_lost (Done (Beaten True)))) 2" for node
    by (auto intro!: within_access)
  from within_mono [OF within_node_id [OF this]] show ?thesis
    by (cases w) (auto simp: beat_task_def intro!: within_access)
qed

lemma within_leave: "within (leave_task env (Done Gone)) 4"
  unfolding leave_task_def Let_def
  by (auto intro!: within_access within_hang_up split: option.split)

lemma guest_program_within: "within (guest_program env j) (guest_actions j)"
  by (cases j) (auto simp: send_task_def intro!: within_connect within_map within_beat within_leave within_access)

text \<open>
  C7: No call on a guest goes on for ever: whatever the others do in between, joining takes at most
  238 actions, mapping the port 12, leaving 4, an iteration of the heartbeat 5 and a request 1.
\<close>

theorem guest_calls_bounded:
  assumes "run (guest_pool_step env) p ls p'" and "i < length (tasks p)"
    and "tasks p ! i = (j, guest_program env j)"
  shows "count_list ls (Turn i) \<le> guest_actions j"
  using within_turns [OF assms(1,2)] guest_program_within [of env j] assms(3) by simp

theorem guest_calls_bounded_witness:
  "\<exists>n p'. run (guest_pool_step port_env) (idle_pool\<lparr>tasks := [(Leave_job, guest_program port_env Leave_job)]\<rparr>)
      (replicate n (Turn 0)) p' \<and> tasks p' = [(Leave_job, Done Gone)] \<and> count_list (replicate n (Turn (0 :: nat) :: guest_job pool_label)) (Turn 0) \<le> 4"
proof -
  let ?p = "idle_pool\<lparr>tasks := [(Leave_job, guest_program port_env Leave_job)]\<rparr>"
  obtain g m where l: "leave port_env joined_guest joined_world = (g, m)"
    by (cases "leave port_env joined_guest joined_world")
  have "\<exists>n. run (guest_pool_step port_env) ?p (replicate n (Turn 0))
      (?p\<lparr>tasks := (tasks ?p)[0 := (Leave_job, Done Gone)], common := (g, m)\<rparr>)"
    by (rule alone_runs [where c = "guest_program port_env Leave_job"]) (simp_all add: idle_pool_def l)
  then obtain n where n: "run (guest_pool_step port_env) ?p (replicate n (Turn 0))
      (?p\<lparr>tasks := (tasks ?p)[0 := (Leave_job, Done Gone)], common := (g, m)\<rparr>)" ..
  have "count_list (replicate n (Turn (0 :: nat) :: guest_job pool_label)) (Turn 0) \<le> guest_actions Leave_job"
    by (rule guest_calls_bounded [OF n]) simp_all
  with n show ?thesis by (intro exI [of _ n], intro exI, intro conjI) (assumption, simp_all)
qed

end
