(* ===== verification/Center_Tasks.thy ===== *)
theory Center_Tasks
  imports Center_Session Tasks
begin

text \<open>
  The operations of a centre (\<open>center/scaffolding_center.rs\<close>) as the asynchronous functions they are:
  every lock is taken for one access, and the task that serves, the operations of other callers and
  the connections act in between.  Each operation is a program of \<open>Tasks\<close>; run alone it is the atomic
  operation of \<open>Center\<close>.
\<close>

section \<open>The shared state\<close>

text \<open>
  A task that serves: the token it was spawned with, and how far it is.  The server it runs is here
  and not in the task, because its connections act on it.
\<close>

record service =
  sv_token :: nat
  sv_task :: serve_task

text \<open>
  The fields of the centre behind their locks, all tasks spawned to serve, the cancelled tokens, and
  the world.  There may be several tasks, so \<open>c_task\<close> of the centre is not used.
\<close>

record 'm site =
  st_center :: center
  st_services :: "service list"
  st_cancelled :: "nat \<Rightarrow> bool"
  st_world :: 'm

definition site_of :: "center \<Rightarrow> 'm \<Rightarrow> 'm site" where
  "site_of c m = \<lparr> st_center = c, st_services = [], st_cancelled = (\<lambda>_. False), st_world = m \<rparr>"

type_synonym ('m, 'r) center_prog = "('m site, 'r) prog"

definition on_center :: "(center \<Rightarrow> center) \<Rightarrow> 'm site \<Rightarrow> 'm site" where
  "on_center f s = s\<lparr>st_center := f (st_center s)\<rparr>"

definition look_c :: "(center \<Rightarrow> 'a) \<Rightarrow> ('a \<Rightarrow> ('m, 'r) center_prog) \<Rightarrow> ('m, 'r) center_prog" where
  "look_c f = look (\<lambda>s. f (st_center s))"

definition put_c :: "(center \<Rightarrow> center) \<Rightarrow> ('m, 'r) center_prog \<Rightarrow> ('m, 'r) center_prog" where
  "put_c f = put (on_center f)"

text \<open>An operation under a lock of the centre that also acts on the world.\<close>

definition locked_c ::
  "(center \<Rightarrow> 'm \<Rightarrow> 'a \<times> center \<times> 'm) \<Rightarrow> ('a \<Rightarrow> ('m, 'r) center_prog) \<Rightarrow> ('m, 'r) center_prog" where
  "locked_c f =
     call (\<lambda>s. case f (st_center s) (st_world s) of (a, c, m) \<Rightarrow> (a, s\<lparr>st_center := c, st_world := m\<rparr>))"

text \<open>Cancelling a token stops the servers that run with it.\<close>

definition cancel_service :: "nat \<Rightarrow> service \<Rightarrow> service" where
  "cancel_service ct v =
     (case sv_task v of
        Running srv \<Rightarrow>
          if sv_token v = ct then v\<lparr>sv_task := Running (srv\<lparr>ts_state := cancel_server (ts_state srv)\<rparr>)\<rparr> else v
      | _ \<Rightarrow> v)"

definition cancel_token :: "('m, 'i, 'u, 'v, 'j) center_env \<Rightarrow> nat \<Rightarrow> 'm site \<Rightarrow> 'm site" where
  "cancel_token env ct s =
     s\<lparr>st_services := map (cancel_service ct) (st_services s), st_cancelled := (st_cancelled s)(ct := True),
       st_world := ce_cancel env ct (st_world s)\<rparr>"

section \<open>The list of players\<close>

text \<open>The notification reads the list under its lock and then sends what it read.\<close>

definition send_players :: "player_info list \<Rightarrow> center \<Rightarrow> center" where
  "send_players l c =
     (let s = (room_roster (c_room c))\<lparr>players_changed := players_changed (room_roster (c_room c)) @ [l]\<rparr>
      in c\<lparr>c_room := publish s (c_room c)\<rparr>)"

definition notify_task :: "('m, 'r) center_prog \<Rightarrow> ('m, 'r) center_prog" where
  "notify_task p = locked_c (\<lambda>c m. case center_get_players c of (l, c) \<Rightarrow> (l, c, m)) (\<lambda>l. put_c (send_players l) p)"

text \<open>A section under the write lock, whose attempts may all fail.\<close>

definition write_players :: "(player_info list \<Rightarrow> player_info list) \<Rightarrow> center \<Rightarrow> center" where
  "write_players f c =
     (let r = c_room c; s = room_roster r
      in c\<lparr>c_room := r\<lparr>room_roster := s\<lparr>players := with_players_write (lock_outcomes r (lock_calls r)) f (players s)\<rparr>,
                       lock_calls := lock_calls r + 1\<rparr>\<rparr>)"

definition remove_player_task :: "string \<Rightarrow> ('m, 'r) center_prog \<Rightarrow> ('m, 'r) center_prog" where
  "remove_player_task mid p = put_c (write_players (leave_section mid)) (notify_task p)"

definition handle_player_ping_task :: "player_info \<Rightarrow> ('m, 'r) center_prog \<Rightarrow> ('m, 'r) center_prog" where
  "handle_player_ping_task info p = put_c (write_players (ping_section info)) (notify_task p)"

text \<open>The host is pushed under the asynchronous write lock, which waits.\<close>

definition push_host :: "string option \<Rightarrow> center \<Rightarrow> center" where
  "push_host node_id c =
     (let r = c_room c; s = room_roster r
      in c\<lparr>c_room := r\<lparr>room_roster := s\<lparr>players := players s @ [(host_player c)\<lparr>pi_easytier_id := node_id\<rparr>]\<rparr>\<rparr>\<rparr>)"

definition list_host_task :: "('m, 'r) center_prog \<Rightarrow> ('m, 'r) center_prog" where
  "list_host_task p = look_c (\<lambda>c. mgr_node_id (c_easy_tier c)) (\<lambda>node_id. put_c (push_host node_id) (notify_task p))"

section \<open>The task that serves\<close>

text \<open>
  \<open>TcpServer::start\<close> gives the server the token \<open>ct\<close>.  Of a server that was stopped before, the
  connections of that time keep their cancelled token; its own is the new one, with a new sweep.
\<close>

definition renew_server :: "bool \<Rightarrow> 's server \<Rightarrow> 's server" where
  "renew_server is_cancelled s =
     s\<lparr>cancelled := (\<lambda>t. if t = server_token then is_cancelled
                         else cancelled s t \<or> cancelled s server_token \<and> t \<in> conn_ct ` set (conns s)),
       accepting := True, sweep := Sweep_waiting (now s + heartbeat_interval)\<rparr>"

text \<open>
  The beginning of \<open>TcpServer::start\<close>: the port is bound, or the server is handed back, stopped; its
  token is the caller's already then, and is cancelled with it.
\<close>

definition begin_service ::
  "('m, 'i, 'u, 'v, 'j) center_env \<Rightarrow> nat \<Rightarrow> tcp_server \<Rightarrow> 'm site \<Rightarrow> (tcp_server + unit) \<times> 'm site" where
  "begin_service env n srv s =
     (if ts_listening srv then (Inl (stop_server srv), s)
      else
        let ct = sv_token (st_services s ! n);
            (bound, m) = ce_bind env (ts_port srv) (st_world s);
            (r, srv) = bind_server bound srv;
            s = s\<lparr>st_world := m\<rparr>
        in case r of
             Inl _ \<Rightarrow> (Inl (stop_server srv), cancel_token env ct s)
           | Inr _ \<Rightarrow>
               (let srv = srv\<lparr>ts_state := renew_server (st_cancelled s ct) (ts_state srv)\<rparr>
                in (Inr (), s\<lparr>st_services := (st_services s)[n := \<lparr>sv_token = ct, sv_task = Running srv\<rparr>]\<rparr>)))"

text \<open>The accept loop ends, and with it \<open>start\<close>, when the token is cancelled; it is blocked until then.\<close>

definition end_service :: "nat \<Rightarrow> 'm site \<Rightarrow> (tcp_server \<times> 'm site) option" where
  "end_service n s =
     (if n < length (st_services s)
      then case sv_task (st_services s ! n) of
             Running srv \<Rightarrow>
               if st_cancelled s (sv_token (st_services s ! n))
               then Some (srv, s\<lparr>st_services := (st_services s)[n := (st_services s ! n)\<lparr>sv_task := Over\<rparr>]\<rparr>)
               else None
           | _ \<Rightarrow> None
      else None)"

definition put_back :: "tcp_server option \<Rightarrow> ('m, 'r) center_prog \<Rightarrow> ('m, 'r) center_prog" where
  "put_back server = put_c (\<lambda>c. c\<lparr>c_slot := server\<rparr>)"

definition accept_loop :: "nat \<Rightarrow> ('m, 'r) center_prog \<Rightarrow> ('m, 'r) center_prog" where
  "accept_loop n p = try_call (end_service n) (\<lambda>srv. put_back (Some (stop_server srv)) p)"

definition service_over :: "nat \<Rightarrow> 'm site \<Rightarrow> 'm site" where
  "service_over n s = s\<lparr>st_services := (st_services s)[n := (st_services s ! n)\<lparr>sv_task := Over\<rparr>]\<rparr>"

text \<open>The task takes the server, runs it, and puts back what it took; nothing, if it took nothing.\<close>

definition run_server_task :: "('m, 'i, 'u, 'v, 'j) center_env \<Rightarrow> nat \<Rightarrow> ('m, 'r) center_prog \<Rightarrow> ('m, 'r) center_prog" where
  "run_server_task env n p =
     locked_c (\<lambda>c m. (c_slot c, c\<lparr>c_slot := None\<rparr>, m)) (\<lambda>server.
       case server of
         None \<Rightarrow> put (service_over n) (put_back None p)
       | Some srv \<Rightarrow> call (begin_service env n srv) (\<lambda>begun.
           case begun of
             Inl srv \<Rightarrow> put (service_over n) (put_back (Some srv) p)
           | Inr _ \<Rightarrow> accept_loop n p))"

section \<open>Starting and closing\<close>

definition start_network_task ::
  "('m, 'i, 'u, 'v, 'j) center_env \<Rightarrow> u16 \<Rightarrow> (unit res \<Rightarrow> ('m, 'r) center_prog) \<Rightarrow> ('m, 'r) center_prog" where
  "start_network_task env port k =
     look (\<lambda>s. center_config ((st_center s)\<lparr>c_tcp_port := port\<rparr>) (ce_system env (st_world s))) (\<lambda>config.
     try_call (\<lambda>s. case start (ce_lib env) config (c_easy_tier (st_center s)) (st_world s) of
         None \<Rightarrow> None
       | Some (r, mgr, m) \<Rightarrow> Some (r, on_center (\<lambda>c. c\<lparr>c_easy_tier := mgr\<rparr>) (s\<lparr>st_world := m\<rparr>))) (\<lambda>started.
       case started of
         Inl e \<Rightarrow> k (Inl e)
       | Inr _ \<Rightarrow> list_host_task (k (Inr ()))))"

text \<open>The new server in its slot, with a new channel of disconnection events.\<close>

definition open_server ::
  "('m, 'i, 'u, 'v, 'j) center_env \<Rightarrow> u16 \<Rightarrow> ping_hook option \<Rightarrow> 'm site \<Rightarrow> 'm site" where
  "open_server env port hook s =
     on_center (\<lambda>c. c\<lparr>c_slot := Some (new_tcp_server port
         (center_protocols (ce_js env) hook (c_minecraft_port c) (c_custom c))
         (lib_now (ce_lib env) (st_world s)) (c_room c)), c_consumed := 0\<rparr>) s"

definition spawn_service :: "nat \<Rightarrow> 'm site \<Rightarrow> 'm site" where
  "spawn_service ct s = s\<lparr>st_services := st_services s @ [\<lparr>sv_token = ct, sv_task = Spawned\<rparr>]\<rparr>"

definition sleep_200 :: "('m, 'i, 'u, 'v, 'j) center_env \<Rightarrow> 'm site \<Rightarrow> 'm site" where
  "sleep_200 env s = s\<lparr>st_world := lib_sleep (ce_lib env) 200 (st_world s)\<rparr>"

definition start_task ::
  "('m, 'i, 'u, 'v, 'j) center_env \<Rightarrow> nat \<Rightarrow> (unit res \<Rightarrow> ('m, 'r) center_prog) \<Rightarrow> ('m, 'r) center_prog" where
  "start_task env ct k =
     look (\<lambda>s. scan_port (ce_bindable env (st_world s))) (\<lambda>port.
     put_c (\<lambda>c. c\<lparr>c_tcp_port := port\<rparr>) (look_c (\<lambda>c. check_keys standard_keys (c_custom c)) (\<lambda>keys.
       case keys of
         Inl e \<Rightarrow> k (Inl e)
       | Inr _ \<Rightarrow> look_c c_hook (\<lambda>hook.
           put (open_server env port hook) (put_c (\<lambda>c. c\<lparr>c_server_ct := Some ct\<rparr>)
             (put (spawn_service ct) (put (sleep_200 env) (start_network_task env port k))))))))"

text \<open>
  \<open>close\<close>: each of the three locks is held over its statement, so a token is taken and cancelled in
  one access.  The server it may find in the slot is dropped; nothing runs with its own token.
\<close>

definition cancel_kept :: "('m, 'i, 'u, 'v, 'j) center_env \<Rightarrow> 'm site \<Rightarrow> 'm site" where
  "cancel_kept env s =
     (case c_server_ct (st_center s) of
        Some ct \<Rightarrow> cancel_token env ct (on_center (\<lambda>c. c\<lparr>c_server_ct := None\<rparr>) s)
      | None \<Rightarrow> s)"

definition stop_easy_tier :: "('m, 'i, 'u, 'v, 'j) center_env \<Rightarrow> center \<Rightarrow> 'm \<Rightarrow> unit res \<times> center \<times> 'm" where
  "stop_easy_tier env c m =
     (case stop (ce_lib env) (c_easy_tier c) m of (r, mgr, m) \<Rightarrow> (r, c\<lparr>c_easy_tier := mgr\<rparr>, m))"

definition close_task ::
  "('m, 'i, 'u, 'v, 'j) center_env \<Rightarrow> (unit res \<Rightarrow> ('m, 'r) center_prog) \<Rightarrow> ('m, 'r) center_prog" where
  "close_task env k =
     put_back None (put (cancel_kept env) (locked_c (stop_easy_tier env) k))"

section \<open>Machines and peers\<close>

datatype peer_call = Disconnect_peer | Deny_peer | Allow_peer

definition call_peer ::
  "('m, 'i, 'u, 'v, 'j) center_env \<Rightarrow> peer_call \<Rightarrow> center \<Rightarrow> string \<Rightarrow> 'm \<Rightarrow> unit res \<times> 'm" where
  "call_peer env what =
     (case what of
        Disconnect_peer \<Rightarrow> center_disconnect_peer env
      | Deny_peer \<Rightarrow> center_deny_peer env
      | Allow_peer \<Rightarrow> center_allow_peer env)"

section \<open>The jobs of a centre\<close>

datatype center_job =
    Start_job nat
  | Serve_job nat
  | Close_job
  | Remove_job string
  | Ping_job player_info
  | Players_job
  | Hook_job ping_hook
  | Source_job "string list" string
  | Kick_job "string list" string
  | Nodes_job
  | Peer_job peer_call string

datatype center_result =
    Started "unit res"
  | Served
  | Shut "unit res"
  | Acted
  | Listed "player_info list"
  | Sourced "string option"
  | Kicked bool
  | Noded "easy_tier_node list"
  | Peered "unit res"

fun center_program ::
  "('m, 'i, 'u, 'v, 'j) center_env \<Rightarrow> center_job \<Rightarrow> ('m, center_result) center_prog" where
  "center_program env (Start_job ct) = start_task env ct (\<lambda>r. Done (Started r))"
| "center_program env (Serve_job n) = run_server_task env n (Done Served)"
| "center_program env Close_job = close_task env (\<lambda>r. Done (Shut r))"
| "center_program env (Remove_job mid) = remove_player_task mid (Done Acted)"
| "center_program env (Ping_job info) = handle_player_ping_task info (Done Acted)"
| "center_program env Players_job =
     locked_c (\<lambda>c m. case center_get_players c of (l, c) \<Rightarrow> (l, c, m)) (\<lambda>l. Done (Listed l))"
| "center_program env (Hook_job hook) = put_c (set_player_ping_handler hook) (Done Acted)"
| "center_program env (Source_job order mid) =
     look_c (center_machine_source_ip order mid) (\<lambda>ip. Done (Sourced ip))"
| "center_program env (Kick_job order mid) =
     locked_c (\<lambda>c m. case center_disconnect_machine order mid c of (b, c) \<Rightarrow> (b, c, m)) (\<lambda>b. Done (Kicked b))"
| "center_program env Nodes_job =
     look (\<lambda>s. easy_tier_nodes env (st_center s) (st_world s)) (\<lambda>nodes. Done (Noded nodes))"
| "center_program env (Peer_job what peer) =
     locked_c (\<lambda>c m. case call_peer env what c peer m of (r, m) \<Rightarrow> (r, c, m)) (\<lambda>r. Done (Peered r))"

type_synonym 'm center_pool = "('m site, center_job, center_result) pool"

text \<open>Every task spawned to serve runs once; the calls come in any number and order.\<close>

fun center_may_start :: "'m center_pool \<Rightarrow> center_job \<Rightarrow> bool" where
  "center_may_start p (Serve_job n) =
     (n < length (st_services (common p)) \<and> Serve_job n \<notin> fst ` set (tasks p))"
| "center_may_start p _ = True"

text \<open>
  What happens besides: the connections and the sweep of a server that runs, the connections of a
  stopped one, the consumer of its events (in any order and number), subscribers, the owner who
  cancels a token, and the world.
\<close>

inductive site_outside ::
  "('m, 'i, 'u, 'v, 'j) center_env \<Rightarrow> 'm site \<Rightarrow> 'm site \<Rightarrow> bool" for env where
  served: "n < length (st_services s) \<Longrightarrow> sv_task (st_services s ! n) = Running srv \<Longrightarrow>
     l \<noteq> Shared_change \<Longrightarrow> l \<noteq> Cancel_server \<Longrightarrow>
     server_step (ce_js env) (ts_protocols srv) ((ts_state srv)\<lparr>shared := c_room (st_center s)\<rparr>) l st \<Longrightarrow>
     site_outside env s (on_center (\<lambda>c. c\<lparr>c_room := shared st\<rparr>)
       (s\<lparr>st_services := (st_services s)[n := (st_services s ! n)\<lparr>sv_task := Running (srv\<lparr>ts_state := st\<rparr>)\<rparr>]\<rparr>))"
| wound_up: "c_slot (st_center s) = Some srv \<Longrightarrow> cancelled (ts_state srv) server_token \<Longrightarrow>
     l \<noteq> Shared_change \<Longrightarrow>
     server_step (ce_js env) (ts_protocols srv) ((ts_state srv)\<lparr>shared := c_room (st_center s)\<rparr>) l st \<Longrightarrow>
     site_outside env s (on_center (\<lambda>c. c\<lparr>c_room := shared st, c_slot := Some (srv\<lparr>ts_state := st\<rparr>)\<rparr>) s)"
| gone: "site_outside env s (on_center (\<lambda>c. c\<lparr>c_room := client_disconnected mid (c_room c)\<rparr>) s)"
| subscribed: "site_outside env s (on_center (\<lambda>c. c\<lparr>c_room := players_changed_rx (c_room c)\<rparr>) s)"
| owner_cancels: "site_outside env s (cancel_token env ct s)"
| elsewhere: "site_outside env s (s\<lparr>st_world := m\<rparr>)"

abbreviation center_pool_step ::
  "('m, 'i, 'u, 'v, 'j) center_env \<Rightarrow> 'm center_pool \<Rightarrow> center_job pool_label \<Rightarrow> 'm center_pool \<Rightarrow> bool" where
  "center_pool_step env \<equiv> pool_step (center_program env) center_may_start (site_outside env)"

section \<open>Run alone they are the operations\<close>

lemma on_center_sel [simp]:
  "st_center (on_center f s) = f (st_center s)" "st_services (on_center f s) = st_services s"
  "st_cancelled (on_center f s) = st_cancelled s" "st_world (on_center f s) = st_world s"
  by (simp_all add: on_center_def)

lemma cancel_token_sel [simp]:
  "st_center (cancel_token env ct s) = st_center s"
  "st_services (cancel_token env ct s) = map (cancel_service ct) (st_services s)"
  "st_cancelled (cancel_token env ct s) = (st_cancelled s)(ct := True)"
  "st_world (cancel_token env ct s) = ce_cancel env ct (st_world s)"
  by (simp_all add: cancel_token_def)

lemma alone_center [simp]:
  "alone (look_c f k) s = alone (k (f (st_center s))) s"
  "alone (put_c h p) s = alone p (on_center h s)"
  "alone (locked_c l d) s =
     (case l (st_center s) (st_world s) of (a, c, m) \<Rightarrow> alone (d a) (s\<lparr>st_center := c, st_world := m\<rparr>))"
  by (simp_all add: look_c_def put_c_def locked_c_def split: prod.split)

lemma alone_put_back [simp]: "alone (put_back srv p) s = alone p (on_center (\<lambda>c. c\<lparr>c_slot := srv\<rparr>) s)"
  by (simp add: put_back_def)

text \<open>Notifying is sending what the read lock gives at that moment.\<close>

lemma alone_notify [simp]:
  "alone (notify_task p) s = alone p (on_center (\<lambda>c.
     c\<lparr>c_room := publish (notify_players_changed (lock_outcomes (c_room c) (lock_calls (c_room c))) (room_roster (c_room c)))
       (c_room c\<lparr>lock_calls := lock_calls (c_room c) + 1\<rparr>)\<rparr>) s)"
  by (simp add: notify_task_def center_get_players_def room_players_def send_players_def on_center_def Let_def
      notify_players_changed_def get_players_def publish_def)

lemma alone_remove_player [simp]:
  "alone (remove_player_task mid p) s = alone p (on_center (remove_player mid) s)"
  by (simp add: remove_player_task_def on_center_def remove_player_def client_disconnected_def
      on_client_disconnected_impl_def write_players_def publish_def notify_players_changed_def Let_def)

lemma alone_handle_player_ping [simp]:
  "alone (handle_player_ping_task info p) s =
     alone p (on_center (\<lambda>c. c\<lparr>c_room := handle_player_ping info (c_room c)\<rparr>) s)"
  by (simp add: handle_player_ping_task_def on_center_def handle_player_ping_def on_player_ping_impl_def
      write_players_def publish_def notify_players_changed_def Let_def)

lemma alone_list_host [simp]:
  "alone (list_host_task p) s =
     alone p (on_center (\<lambda>c. c\<lparr>c_room := add_host (host_player c) (c_room c)\<rparr>) s)"
  by (simp add: list_host_task_def on_center_def push_host_def add_host_def host_player_def publish_def
      notify_players_changed_def Let_def)

lemma alone_close:
  "alone (close_task env k) s =
     (let s = cancel_kept env (on_center (\<lambda>c. c\<lparr>c_slot := None\<rparr>) s)
      in case stop_easy_tier env (st_center s) (st_world s) of
           (r, c, m) \<Rightarrow> alone (k r) (s\<lparr>st_center := c, st_world := m\<rparr>))"
  by (simp add: close_task_def Let_def)

lemma alone_start_network:
  "alone (start_network_task env port k) s =
     (case start_network env ((st_center s)\<lparr>c_tcp_port := port\<rparr>) (st_world s) of
        None \<Rightarrow> None
      | Some (r, c, m) \<Rightarrow>
          alone (k r) (s\<lparr>st_center := c\<lparr>c_tcp_port := c_tcp_port (st_center s)\<rparr>, st_world := m\<rparr>))"
proof -
  obtain c where c: "st_center s = c" by blast
  show ?thesis
    by (cases s; cases c) (auto simp: start_network_task_def start_network_def on_center_def host_player_def c Let_def
        split: option.split prod.split sum.split)
qed

text \<open>The centre with its last task in place.\<close>

definition whole :: "'m site \<Rightarrow> center" where
  "whole s =
     (st_center s)\<lparr>c_task := (if st_services s = [] then Not_spawned else sv_task (List.last (st_services s)))\<rparr>"

text \<open>At most one task was spawned, with the token that is kept.\<close>

definition one_service :: "'m site \<Rightarrow> bool" where
  "one_service s \<longleftrightarrow>
     (st_services s = [] \<or> (\<exists>v. st_services s = [v] \<and> (\<forall>ct. c_server_ct (st_center s) = Some ct \<longrightarrow> sv_token v = ct)))"

lemma cancel_running_task:
  "cancel_running c\<lparr>c_task := t\<rparr> = c\<lparr>c_task := t\<rparr>"
  "c_slot (cancel_running c) = c_slot c" "c_server_ct (cancel_running c) = c_server_ct c"
  "c_easy_tier (cancel_running c) = c_easy_tier c"
  by (cases "c_task c"; simp add: cancel_running_def)+

lemma whole_cancel_kept:
  assumes "one_service s" and "c_server_ct (st_center s) = Some ct"
  shows "whole (cancel_kept env s) = cancel_running ((whole s)\<lparr>c_server_ct := None\<rparr>)"
  using assms
  by (auto simp: one_service_def whole_def cancel_kept_def cancel_service_def cancel_running_def
      split: serve_task.split)

lemma close_alone:
  assumes "one_service s"
  shows "\<exists>r s'. alone (close_task env Done) s = Some (r, s')
    \<and> center_close env (whole s) (st_world s) = (r, whole s', st_world s')"
proof -
  let ?s = "cancel_kept env (on_center (\<lambda>c. c\<lparr>c_slot := None\<rparr>) s)"
  obtain r mgr m where st: "stop (ce_lib env) (c_easy_tier (st_center ?s)) (st_world ?s) = (r, mgr, m)"
    by (metis prod_cases3)
  have et: "c_easy_tier (st_center ?s) = c_easy_tier (st_center s)"
    by (simp add: cancel_kept_def split: option.split)
  let ?t = "?s\<lparr>st_center := (st_center ?s)\<lparr>c_easy_tier := mgr\<rparr>, st_world := m\<rparr>"
  have "alone (close_task env Done) s = Some (r, ?t)"
    unfolding alone_close Let_def stop_easy_tier_def st by simp
  moreover have "center_close env (whole s) (st_world s) = (r, whole ?t, st_world ?t)"
  proof (cases "c_server_ct (st_center s)")
    case None
    then show ?thesis
      using st by (simp add: center_close_def whole_def cancel_kept_def et)
  next
    case (Some ct)
    have one: "one_service (on_center (\<lambda>c. c\<lparr>c_slot := None\<rparr>) s)" using assms by (simp add: one_service_def)
    have "whole ?s = cancel_running ((whole s)\<lparr>c_slot := None, c_server_ct := None\<rparr>)"
    proof -
      have "whole (on_center (\<lambda>c. c\<lparr>c_slot := None\<rparr>) s) = (whole s)\<lparr>c_slot := None\<rparr>"
        by (cases "st_center s") (simp add: whole_def)
      with whole_cancel_kept [OF one, of ct env] Some show ?thesis by simp
    qed
    moreover have "whole ?t = (whole ?s)\<lparr>c_easy_tier := mgr\<rparr>" by (simp add: whole_def)
    moreover have "st_world ?s = ce_cancel env ct (st_world s)" using Some by (simp add: cancel_kept_def)
    ultimately show ?thesis
      using st Some by (simp add: center_close_def whole_def cancel_running_task et)
  qed
  ultimately show ?thesis by blast
qed

text \<open>The calls of the atomic model.\<close>

fun center_call ::
  "('m, 'i, 'u, 'v, 'j) center_env \<Rightarrow> center_job \<Rightarrow> center \<Rightarrow> 'm \<Rightarrow> (center_result \<times> center \<times> 'm) option" where
  "center_call env Close_job c m = Some (case center_close env c m of (r, c, m) \<Rightarrow> (Shut r, c, m))"
| "center_call env (Remove_job mid) c m = Some (Acted, remove_player mid c, m)"
| "center_call env (Ping_job info) c m = Some (Acted, c\<lparr>c_room := handle_player_ping info (c_room c)\<rparr>, m)"
| "center_call env Players_job c m = Some (case center_get_players c of (l, c) \<Rightarrow> (Listed l, c, m))"
| "center_call env (Hook_job hook) c m = Some (Acted, set_player_ping_handler hook c, m)"
| "center_call env (Source_job order mid) c m = Some (Sourced (center_machine_source_ip order mid c), c, m)"
| "center_call env (Kick_job order mid) c m =
     Some (case center_disconnect_machine order mid c of (b, c) \<Rightarrow> (Kicked b, c, m))"
| "center_call env Nodes_job c m = Some (Noded (easy_tier_nodes env c m), c, m)"
| "center_call env (Peer_job what peer) c m = Some (case call_peer env what c peer m of (r, m) \<Rightarrow> (Peered r, c, m))"
| "center_call env (Start_job ct) c m = None"
| "center_call env (Serve_job n) c m = None"

lemma alone_close_k:
  assumes "alone (close_task env Done) s = Some (r, s')"
  shows "alone (close_task env k) s = alone (k r) s'"
  using assms unfolding alone_close Let_def by (auto split: prod.splits)

lemma center_call_alone:
  assumes "one_service s" and "center_call env j (whole s) (st_world s) = Some (r, c', m')"
  shows "\<exists>s'. alone (center_program env j) s = Some (r, s') \<and> whole s' = c' \<and> st_world s' = m'"
proof (cases "j = Close_job")
  case True
  obtain q s' where "alone (close_task env Done) s = Some (q, s')"
    "center_close env (whole s) (st_world s) = (q, whole s', st_world s')"
    using close_alone [OF assms(1), of env] by blast
  with assms(2) True show ?thesis by (simp add: alone_close_k)
next
  case False
  obtain c where c: "st_center s = c" by blast
  from False assms(2) show ?thesis
    by (cases j; cases c)
      (auto simp: whole_def c on_center_def remove_player_def center_get_players_def set_player_ping_handler_def
        center_machine_source_ip_def center_disconnect_machine_def easy_tier_nodes_def call_peer_def
        center_disconnect_peer_def center_deny_peer_def center_allow_peer_def Let_def
        split: prod.splits option.splits peer_call.splits)
qed

section \<open>Starting in a pool\<close>

lemma renew_new_server [simp]: "renew_server False (new_server t r) = new_server t r"
  by (auto simp: renew_server_def new_server_def)

text \<open>The state in which \<open>start\<close> has spawned the task that serves.\<close>

definition spawned :: "('m, 'i, 'u, 'v, 'j) center_env \<Rightarrow> nat \<Rightarrow> 'm site \<Rightarrow> 'm site" where
  "spawned env ct s =
     (let port = scan_port (ce_bindable env (st_world s));
          s = on_center (\<lambda>c. c\<lparr>c_tcp_port := port\<rparr>) s
      in spawn_service ct (on_center (\<lambda>c. c\<lparr>c_server_ct := Some ct\<rparr>) (open_server env port (c_hook (st_center s)) s)))"

lemma turns_of_start:
  assumes "i < length (tasks p)" and "tasks p ! i = (j, start_task env ct k)"
    and "check_keys standard_keys (c_custom (st_center (common p))) = Inr ()"
  shows "turns [i, i, i, i, i, i, i] p =
    Some (p\<lparr>tasks := (tasks p)[i := (j, put (sleep_200 env)
        (start_network_task env (scan_port (ce_bindable env (st_world (common p)))) k))],
      common := spawned env ct (common p)\<rparr>)"
  using assms
  by (cases p) (simp add: start_task_def look_def put_def look_c_def put_c_def spawned_def Let_def)

lemma turns_of_conflict:
  assumes "check_keys standard_keys (c_custom (st_center s)) = Inl e"
  shows "alone (start_task env ct k) s =
    alone (k (Inl e)) (on_center (\<lambda>c. c\<lparr>c_tcp_port := scan_port (ce_bindable env (st_world s))\<rparr>) s)"
  using assms by (simp add: start_task_def)

lemma turns_of_serve:
  assumes "i < length (tasks p)" and "tasks p ! i = (j, run_server_task env n k)"
    and "c_slot (st_center (common p)) = Some srv"
    and "begin_service env n srv (on_center (\<lambda>c. c\<lparr>c_slot := None\<rparr>) (common p)) = (Inr (), s')"
  shows "turns [i, i] p = Some (p\<lparr>tasks := (tasks p)[i := (j, accept_loop n k)], common := s'\<rparr>)"
proof -
  obtain s where s: "common p = s" by blast
  show ?thesis
    using assms
    by (cases p; cases s)
      (simp add: run_server_task_def locked_c_def call_def on_center_def s)
qed

lemma alone_failed_serve:
  assumes "c_slot (st_center s) = Some srv"
    and "begin_service env n srv (on_center (\<lambda>c. c\<lparr>c_slot := None\<rparr>) s) = (Inl srv', s')"
  shows "alone (run_server_task env n k) s = alone k (on_center (\<lambda>c. c\<lparr>c_slot := Some srv'\<rparr>) (service_over n s'))"
  using assms by (cases s) (simp add: run_server_task_def on_center_def)

lemma start_network_whole:
  assumes "c_tcp_port (st_center s) = port" and "start_network env (whole s) (st_world s) = Some (r, c', m')"
  shows "\<exists>s'. alone (start_network_task env port k) s = alone (k r) s' \<and> whole s' = c' \<and> st_world s' = m'
    \<and> st_services s' = st_services s"
proof -
  obtain c where c: "st_center s = c" by blast
  from assms show ?thesis
    by (cases c) (auto simp: alone_start_network start_network_def whole_def center_config_def host_player_def c Let_def
        split: option.splits prod.splits sum.splits)
qed

text \<open>The task that serves, right after it was spawned for a new centre.\<close>

definition serving_task :: "nat \<Rightarrow> string + u16 \<Rightarrow> ('m, center_result) center_prog" where
  "serving_task n bound = (case bound of Inr _ \<Rightarrow> accept_loop n (Done Served) | Inl _ \<Rightarrow> Done Served)"

lemma serve_begins:
  assumes "tasks p = [a, (Serve_job 0, run_server_task env 0 (Done Served))]" and "common p = spawned env ct (site_of c m)"
    and "ce_bind env (scan_port (ce_bindable env m)) m = (bound, m1)"
  shows "\<exists>n s. run (center_pool_step env) p (replicate n (Turn 1))
        \<lparr>tasks = [a, (Serve_job 0, serving_task 0 bound)], common = s\<rparr>
    \<and> whole s = task_begins bound (c\<lparr>c_tcp_port := scan_port (ce_bindable env m),
        c_slot := Some (new_tcp_server (scan_port (ce_bindable env m))
          (center_protocols (ce_js env) (c_hook c) (c_minecraft_port c) (c_custom c)) (lib_now (ce_lib env) m) (c_room c)),
        c_server_ct := Some ct, c_task := Spawned, c_consumed := 0\<rparr>)
    \<and> st_world s = bind_effect env ct bound m1 \<and> c_tcp_port (st_center s) = scan_port (ce_bindable env m)
    \<and> map sv_token (st_services s) = [ct]"
proof -
  define port where "port = scan_port (ce_bindable env m)"
  define srv where "srv = new_tcp_server port (center_protocols (ce_js env) (c_hook c) (c_minecraft_port c) (c_custom c))
      (lib_now (ce_lib env) m) (c_room c)"
  define c1 where "c1 = c\<lparr>c_tcp_port := port, c_slot := Some srv, c_server_ct := Some ct, c_consumed := 0\<rparr>"
  have common: "common p = \<lparr>st_center = c1, st_services = [\<lparr>sv_token = ct, sv_task = Spawned\<rparr>],
      st_cancelled = (\<lambda>_. False), st_world = m\<rparr>"
    unfolding assms(2) by (cases c) (simp add: spawned_def spawn_service_def open_server_def on_center_def site_of_def
        c1_def srv_def port_def Let_def)
  have task: "c\<lparr>c_tcp_port := port, c_slot := Some srv, c_server_ct := Some ct, c_task := Spawned, c_consumed := 0\<rparr>
      = c1\<lparr>c_task := Spawned\<rparr>"
    by (cases c) (simp add: c1_def)
  have slot: "c_slot (st_center (common p)) = Some srv" by (simp add: common c1_def)
  have srv: "\<not> ts_listening srv" "ts_port srv = port" "ts_state srv = new_server (lib_now (ce_lib env) m) (c_room c)"
    by (simp_all add: srv_def new_tcp_server_def)
  have bind: "ce_bind env (ts_port srv) m = (bound, m1)" using assms(3) by (simp add: srv port_def)
  show ?thesis
  proof (cases bound)
    case (Inr q)
    let ?srv = "srv\<lparr>ts_port := q, ts_listening := True\<rparr>"
    let ?s = "\<lparr>st_center = c1\<lparr>c_slot := None\<rparr>, st_services = [\<lparr>sv_token = ct, sv_task = Running ?srv\<rparr>],
      st_cancelled = (\<lambda>_. False), st_world = m1\<rparr>"
    have "begin_service env 0 srv (on_center (\<lambda>c. c\<lparr>c_slot := None\<rparr>) (common p)) = (Inr (), ?s)"
      using bind srv Inr
      by (cases srv) (simp add: begin_service_def common on_center_def bind_server_def)
    from turns_of_serve [OF _ _ slot this, of 1 "Serve_job 0" "Done Served"] have "turns [1, 1] p =
        Some (p\<lparr>tasks := (tasks p)[1 := (Serve_job 0, accept_loop 0 (Done Served))], common := ?s\<rparr>)"
      using assms(1) by simp
    also have "p\<lparr>tasks := (tasks p)[1 := (Serve_job 0, accept_loop 0 (Done Served))], common := ?s\<rparr>
        = \<lparr>tasks = [a, (Serve_job 0, serving_task 0 bound)], common = ?s\<rparr>"
      using assms(1) by (cases p) (simp add: serving_task_def Inr)
    finally have "turns [1, 1] p = Some \<lparr>tasks = [a, (Serve_job 0, serving_task 0 bound)], common = ?s\<rparr>" .
    from turns_run [OF this] have "run (center_pool_step env) p (replicate 2 (Turn 1))
        \<lparr>tasks = [a, (Serve_job 0, serving_task 0 bound)], common = ?s\<rparr>"
      by (simp add: numeral_2_eq_2)
    moreover have "whole ?s = task_begins bound (c1\<lparr>c_task := Spawned\<rparr>)"
      using srv Inr by (cases c) (simp add: whole_def task_begins_def bind_server_def c1_def)
    ultimately show ?thesis
      unfolding port_def [symmetric] srv_def [symmetric] task
      using Inr by (intro exI [of _ 2] exI [of _ ?s]) (simp add: c1_def bind_effect_def)
  next
    case (Inl e)
    let ?s = "\<lparr>st_center = c1\<lparr>c_slot := Some (stop_server srv)\<rparr>, st_services = [\<lparr>sv_token = ct, sv_task = Over\<rparr>],
      st_cancelled = (\<lambda>_. False)(ct := True), st_world = ce_cancel env ct m1\<rparr>"
    have b: "begin_service env 0 srv (on_center (\<lambda>c. c\<lparr>c_slot := None\<rparr>) (common p))
        = (Inl (stop_server srv), cancel_token env ct (on_center (\<lambda>c. c\<lparr>c_slot := None\<rparr>) (common p)\<lparr>st_world := m1\<rparr>))"
      using bind srv Inl
      by (simp add: begin_service_def common on_center_def bind_server_def)
    have "alone (run_server_task env 0 (Done Served)) (common p) = Some (Served, ?s)"
      unfolding alone_failed_serve [OF slot b]
      by (simp add: on_center_def service_over_def cancel_token_def common cancel_service_def)
    from alone_runs [of 1 p, OF _ _ this] assms(1) obtain n where "run (center_pool_step env) p (replicate n (Turn 1))
        \<lparr>tasks = [a, (Serve_job 0, serving_task 0 bound)], common = ?s\<rparr>"
      by (cases p) (force simp: serving_task_def Inl)
    moreover have "whole ?s = task_begins bound (c1\<lparr>c_task := Spawned\<rparr>)"
      using srv Inl by (cases c) (simp add: whole_def task_begins_def bind_server_def c1_def)
    ultimately show ?thesis
      unfolding port_def [symmetric] srv_def [symmetric] task
      using Inl by (intro exI [of _ n] exI [of _ ?s]) (simp add: c1_def bind_effect_def)
  qed
qed

lemma started_after_spawn:
  assumes "tasks p = [(Start_job ct, put (sleep_200 env) (start_network_task env port (\<lambda>r. Done (Started r)))), b]"
    and "c_tcp_port (st_center (common p)) = port"
    and "start_network env (whole (common p)) (lib_sleep (ce_lib env) 200 (st_world (common p))) = Some (r, c', m')"
  shows "\<exists>n s'. run (center_pool_step env) p (replicate n (Turn 0))
      \<lparr>tasks = [(Start_job ct, Done (Started r)), b], common = s'\<rparr> \<and> whole s' = c' \<and> st_world s' = m'
    \<and> st_services s' = st_services (common p)"
proof -
  let ?s = "sleep_200 env (common p)"
  have "c_tcp_port (st_center ?s) = port" "whole ?s = whole (common p)"
    "st_world ?s = lib_sleep (ce_lib env) 200 (st_world (common p))"
    using assms(2) by (simp_all add: sleep_200_def whole_def)
  with start_network_whole [of ?s port env r c' m' "\<lambda>r. Done (Started r)"] assms(3) obtain s' where
    "alone (start_network_task env port (\<lambda>r. Done (Started r))) ?s = Some (Started r, s')" "whole s' = c'" "st_world s' = m'"
    "st_services s' = st_services (common p)"
    by (auto simp: sleep_200_def)
  moreover from this(1) have "\<exists>n. run (center_pool_step env) p (replicate n (Turn 0))
      (p\<lparr>tasks := (tasks p)[0 := (Start_job ct, Done (Started r))], common := s'\<rparr>)"
    using assms(1)
    by (intro alone_runs [where c = "put (sleep_200 env) (start_network_task env port (\<lambda>r. Done (Started r)))"])
      simp_all
  ultimately show ?thesis using assms(1) by (cases p) auto
qed

lemma start_spawns:
  assumes "check_keys standard_keys (c_custom c) = Inr ()"
  shows "\<exists>ls p. run (center_pool_step env) \<lparr>tasks = [], common = site_of c m\<rparr> ls p
    \<and> tasks p = [(Start_job ct, put (sleep_200 env)
          (start_network_task env (scan_port (ce_bindable env m)) (\<lambda>r. Done (Started r)))),
        (Serve_job 0, run_server_task env 0 (Done Served))]
    \<and> common p = spawned env ct (site_of c m)"
proof -
  let ?step = "center_pool_step env" and ?start = "start_task env ct (\<lambda>r. Done (Started r))"
  let ?rest = "put (sleep_200 env) (start_network_task env (scan_port (ce_bindable env m)) (\<lambda>r. Done (Started r)))"
  define p0 where "p0 = \<lparr>tasks = [(Start_job ct, ?start)], common = site_of c m\<rparr>"
  define t where "t = spawned env ct (site_of c m)"
  define p1 where "p1 = \<lparr>tasks = [(Start_job ct, ?rest), (Serve_job 0, run_server_task env 0 (Done Served))], common = t\<rparr>"
  have opens: "?step \<lparr>tasks = [], common = site_of c m\<rparr> (Start (Start_job ct)) p0"
    using start [of center_may_start "\<lparr>tasks = [], common = site_of c m\<rparr>" "Start_job ct" "center_program env"
        "site_outside env"] by (simp add: p0_def)
  have c: "st_center (common p0) = c" by (simp add: p0_def site_of_def)
  have "turns [0, 0, 0, 0, 0, 0, 0] p0 = Some \<lparr>tasks = [(Start_job ct, ?rest)], common = t\<rparr>"
    using turns_of_start [of 0 p0 "Start_job ct" env ct "\<lambda>r. Done (Started r)"] assms c
    by (simp add: p0_def t_def site_of_def del: turns.simps)
  from turns_run [OF this] have run1: "run ?step p0 (map Turn [0, 0, 0, 0, 0, 0, 0])
      \<lparr>tasks = [(Start_job ct, ?rest)], common = t\<rparr>" .
  have "st_services t = [\<lparr>sv_token = ct, sv_task = Spawned\<rparr>]"
    by (simp add: t_def spawned_def spawn_service_def open_server_def site_of_def Let_def)
  then have spawn: "?step \<lparr>tasks = [(Start_job ct, ?rest)], common = t\<rparr> (Start (Serve_job 0)) p1"
    using start [of center_may_start "\<lparr>tasks = [(Start_job ct, ?rest)], common = t\<rparr>" "Serve_job 0" "center_program env"
        "site_outside env"] by (simp add: p1_def)
  have "run ?step \<lparr>tasks = [], common = site_of c m\<rparr>
      (Start (Start_job ct) # map Turn [0, 0, 0, 0, 0, 0, 0] @ [Start (Serve_job 0)]) p1"
    using run_Cons [where step = ?step, OF opens run_append [OF run1 run_Cons [where step = ?step, OF spawn run_Nil]]] .
  then show ?thesis by (intro exI conjI) (assumption, simp_all add: p1_def t_def)
qed

lemma center_start_runs:
  assumes "center_start env ct c m = Some (r, c', m')" and "c_task c = Not_spawned"
    and "ce_bind env (scan_port (ce_bindable env m)) m = (bound, m1)"
  shows "\<exists>ls s. run (center_pool_step env) \<lparr>tasks = [], common = site_of c m\<rparr> ls
      \<lparr>tasks = (Start_job ct, Done (Started r)) #
         (if is_ok (check_keys standard_keys (c_custom c)) then [(Serve_job 0, serving_task 0 bound)] else []),
       common = s\<rparr> \<and> whole s = c' \<and> st_world s = m' \<and> set (map sv_token (st_services s)) \<subseteq> {ct}"
proof -
  let ?step = "center_pool_step env" and ?start = "start_task env ct (\<lambda>r. Done (Started r))"
  let ?port = "scan_port (ce_bindable env m)"
  define p0 where "p0 = \<lparr>tasks = [(Start_job ct, ?start)], common = site_of c m\<rparr>"
  have opens: "?step \<lparr>tasks = [], common = site_of c m\<rparr> (Start (Start_job ct)) p0"
    using start [of center_may_start "\<lparr>tasks = [], common = site_of c m\<rparr>" "Start_job ct" "center_program env"
        "site_outside env"] by (simp add: p0_def)
  have c: "st_center (common p0) = c" "st_world (common p0) = m" by (simp_all add: p0_def site_of_def)
  show ?thesis
  proof (cases "check_keys standard_keys (c_custom c)")
    case (Inl e)
    let ?s = "on_center (\<lambda>c. c\<lparr>c_tcp_port := ?port\<rparr>) (site_of c m)"
    have r: "r = Inl e" "c' = c\<lparr>c_tcp_port := ?port\<rparr>" "m' = m"
      using assms(1) Inl by (auto simp: center_start_def Let_def)
    have "alone ?start (site_of c m) = Some (Started r, ?s)"
      using turns_of_conflict [of "site_of c m" e env ct "\<lambda>r. Done (Started r)"] Inl r by (simp add: site_of_def)
    then obtain n where "run ?step p0 (replicate n (Turn 0))
        \<lparr>tasks = [(Start_job ct, Done (Started r))], common = ?s\<rparr>"
      using alone_runs [of 0 p0 "Start_job ct" ?start "Started r" ?s "center_program env" center_may_start "site_outside env"]
      by (auto simp: p0_def)
    with opens have "run ?step \<lparr>tasks = [], common = site_of c m\<rparr> (Start (Start_job ct) # replicate n (Turn 0))
        \<lparr>tasks = [(Start_job ct, Done (Started r))], common = ?s\<rparr>"
      by (rule run_Cons [where step = ?step])
    moreover have "whole ?s = c'" using assms(2) r by (cases c) (simp add: whole_def on_center_def site_of_def)
    ultimately show ?thesis
      using Inl r by (intro exI [of _ "Start (Start_job ct) # replicate n (Turn 0)"] exI [of _ ?s])
        (simp add: site_of_def)
  next
    case (Inr u)
    let ?rest = "put (sleep_200 env) (start_network_task env ?port (\<lambda>r. Done (Started r)))"
    obtain ls p1 where run1: "run ?step \<lparr>tasks = [], common = site_of c m\<rparr> ls p1"
      and p1: "tasks p1 = [(Start_job ct, ?rest), (Serve_job 0, run_server_task env 0 (Done Served))]"
        "common p1 = spawned env ct (site_of c m)"
      using start_spawns [of c env m ct] Inr by auto
    from serve_begins [OF p1 assms(3)] obtain n s where run2: "run ?step p1 (replicate n (Turn 1))
        \<lparr>tasks = [(Start_job ct, ?rest), (Serve_job 0, serving_task 0 bound)], common = s\<rparr>"
      and s: "whole s = task_begins bound (c\<lparr>c_tcp_port := ?port,
          c_slot := Some (new_tcp_server ?port
            (center_protocols (ce_js env) (c_hook c) (c_minecraft_port c) (c_custom c)) (lib_now (ce_lib env) m) (c_room c)),
          c_server_ct := Some ct, c_task := Spawned, c_consumed := 0\<rparr>)"
      "st_world s = bind_effect env ct bound m1" "c_tcp_port (st_center s) = ?port"
        "map sv_token (st_services s) = [ct]"
      by (elim exE conjE)
    let ?p2 = "\<lparr>tasks = [(Start_job ct, ?rest), (Serve_job 0, serving_task 0 bound)], common = s\<rparr>"
    have "start_network env (whole s) (lib_sleep (ce_lib env) 200 (st_world s)) = Some (r, c', m')"
      using assms(1,3) Inr unfolding s(1,2) by (simp add: center_start_def Let_def)
    with started_after_spawn [of ?p2 ct env ?port "(Serve_job 0, serving_task 0 bound)" r c' m'] s(3)
    obtain k s' where run3: "run ?step ?p2 (replicate k (Turn 0))
        \<lparr>tasks = [(Start_job ct, Done (Started r)), (Serve_job 0, serving_task 0 bound)], common = s'\<rparr>"
      and s': "whole s' = c'" "st_world s' = m'" "st_services s' = st_services s"
      by auto
    from s'(3) s(4) have "set (map sv_token (st_services s')) \<subseteq> {ct}" by simp
    moreover from run_append [OF run1 run_append [OF run2 run3]]
    have "\<exists>ls. run ?step \<lparr>tasks = [], common = site_of c m\<rparr> ls
        \<lparr>tasks = [(Start_job ct, Done (Started r)), (Serve_job 0, serving_task 0 bound)], common = s'\<rparr>" by blast
    ultimately show ?thesis using Inr s'(1,2) by auto
  qed
qed

section \<open>Properties\<close>

text \<open>
  The operations of a centre, lock by lock, are those of the atomic model: every call that is not
  interrupted has the same result and leaves the same centre and world; and \<open>start\<close> of a new centre
  does what the atomic one does in the interleaving where the task it spawns begins to serve during
  the 200 ms that \<open>start\<close> sleeps.
\<close>

lemma center_tasks_alone:
  "(one_service s \<longrightarrow> center_call env j (whole s) (st_world s) = Some (a, c1, m1) \<longrightarrow>
      (\<exists>s'. alone (center_program env j) s = Some (a, s') \<and> whole s' = c1 \<and> st_world s' = m1))
 \<and> (center_start env ct c m = Some (r, c', m') \<longrightarrow> c_task c = Not_spawned \<longrightarrow>
      (\<exists>ls p'. run (center_pool_step env) \<lparr>tasks = [], common = site_of c m\<rparr> ls p'
         \<and> (Start_job ct, Done (Started r)) \<in> set (tasks p')
         \<and> whole (common p') = c' \<and> st_world (common p') = m'))"
proof (intro conjI impI)
  assume "one_service s" "center_call env j (whole s) (st_world s) = Some (a, c1, m1)"
  then show "\<exists>s'. alone (center_program env j) s = Some (a, s') \<and> whole s' = c1 \<and> st_world s' = m1"
    by (rule center_call_alone)
next
  assume "center_start env ct c m = Some (r, c', m')" "c_task c = Not_spawned"
  moreover obtain bound m1 where "ce_bind env (scan_port (ce_bindable env m)) m = (bound, m1)"
    by (cases "ce_bind env (scan_port (ce_bindable env m)) m")
  ultimately show "\<exists>ls p'. run (center_pool_step env) \<lparr>tasks = [], common = site_of c m\<rparr> ls p'
      \<and> (Start_job ct, Done (Started r)) \<in> set (tasks p')
      \<and> whole (common p') = c' \<and> st_world (common p') = m'"
    using center_start_runs [of env ct c m r c' m' bound m1] by fastforce
qed

end
