(* ===== verification/Center_Pool.thy ===== *)
theory Center_Pool
  imports Center_Tasks
begin

text \<open>
  Any number of callers on one centre, the tasks that serve and the connections, interleaved at every
  lock: what holds in every reachable state, what a finished \<open>close\<close> guarantees, and what the code
  does not guard against.
\<close>

section \<open>What holds in every interleaving\<close>

text \<open>
  A server in the slot does not listen, and knows a machine only if it was stopped.  A server in its
  accept loop listens, and stops with the token it was started with.
\<close>

definition slot_ok :: "tcp_server option \<Rightarrow> bool" where
  "slot_ok slot \<longleftrightarrow>
     (\<forall>srv. slot = Some srv \<longrightarrow> \<not> ts_listening srv
        \<and> (client_machine (registry (ts_state srv)) = Map.empty \<or> cancelled (ts_state srv) server_token))"

definition service_ok :: "(nat \<Rightarrow> bool) \<Rightarrow> service \<Rightarrow> bool" where
  "service_ok is_cancelled v \<longleftrightarrow>
     (\<forall>srv. sv_task v = Running srv \<longrightarrow>
        ts_listening srv \<and> (is_cancelled (sv_token v) \<longrightarrow> cancelled (ts_state srv) server_token))"

definition site_safe :: "'m site \<Rightarrow> bool" where
  "site_safe s \<longleftrightarrow>
     slot_ok (c_slot (st_center s)) \<and> (\<forall>v \<in> set (st_services s). service_ok (st_cancelled s) v)"

text \<open>A change that starts and stops nothing: the kept token and EasyTier stay, and what is cancelled.\<close>

definition quiet :: "'m site \<Rightarrow> 'm site \<Rightarrow> bool" where
  "quiet s t \<longleftrightarrow> (site_safe s \<longrightarrow> site_safe t)
     \<and> map sv_token (st_services t) = map sv_token (st_services s)
     \<and> c_server_ct (st_center t) = c_server_ct (st_center s)
     \<and> c_easy_tier (st_center t) = c_easy_tier (st_center s)
     \<and> (\<forall>ct. st_cancelled s ct \<longrightarrow> st_cancelled t ct)"

lemma quiet_center:
  assumes "c_server_ct c' = c_server_ct (st_center s)" and "c_easy_tier c' = c_easy_tier (st_center s)"
    and "slot_ok (c_slot (st_center s)) \<longrightarrow> slot_ok (c_slot c')"
  shows "quiet s (s\<lparr>st_center := c', st_world := m\<rparr>)"
  using assms by (simp add: quiet_def site_safe_def)

lemma quiet_on_center:
  assumes "\<And>c. c_server_ct (f c) = c_server_ct c \<and> c_easy_tier (f c) = c_easy_tier c
      \<and> (slot_ok (c_slot c) \<longrightarrow> slot_ok (c_slot (f c)))"
  shows "quiet s (on_center f s)"
  using assms by (simp add: quiet_def site_safe_def)

lemma quiet_world [simp]: "quiet s (s\<lparr>st_world := m\<rparr>)"
  by (simp add: quiet_def site_safe_def)

lemma quiet_trans: "quiet s t \<Longrightarrow> quiet t u \<Longrightarrow> quiet s u"
  by (simp add: quiet_def)

lemma cancel_service_sel [simp]: "sv_token (cancel_service ct v) = sv_token v"
  by (auto simp: cancel_service_def split: serve_task.split)

lemma service_ok_cancel:
  "service_ok is_cancelled v \<Longrightarrow> service_ok (is_cancelled(ct := True)) (cancel_service ct v)"
  by (cases "sv_task v"; cases "sv_token v = ct") (simp_all add: service_ok_def cancel_service_def cancel_server_def)

lemma quiet_cancel [simp]: "quiet s (cancel_token env ct s)"
  by (auto simp: quiet_def site_safe_def intro: service_ok_cancel)

text \<open>A task moves on.\<close>

lemma quiet_service:
  assumes "sv_token v = sv_token (st_services s ! n)"
    and "n < length (st_services s) \<Longrightarrow> service_ok (st_cancelled s) (st_services s ! n) \<Longrightarrow> service_ok (st_cancelled s) v"
  shows "quiet s (s\<lparr>st_services := (st_services s)[n := v]\<rparr>)"
proof (cases "n < length (st_services s)")
  case True
  have "map sv_token ((st_services s)[n := v]) = map sv_token (st_services s)"
    using assms(1) True by (simp add: map_update list_update_same_conv)
  moreover have "service_ok (st_cancelled s) w"
    if "site_safe s" "w \<in> set ((st_services s)[n := v])" for w
    using that assms(2) [OF True] True set_update_subset_insert [of "st_services s" n v] nth_mem [OF True]
    by (auto simp: site_safe_def)
  ultimately show ?thesis by (auto simp: quiet_def site_safe_def)
qed (simp add: quiet_def site_safe_def not_less list_update_beyond)

lemma quiet_over [simp]: "quiet s (service_over n s)"
  unfolding service_over_def by (rule quiet_service) (simp_all add: service_ok_def)

lemma quiet_end: "end_service n s = Some (srv, t) \<Longrightarrow> quiet s t"
  by (auto simp: end_service_def service_ok_def intro!: quiet_service
      split: if_splits serve_task.splits)

lemma slot_ok_stopped [simp]: "slot_ok (Some (stop_server srv))" "slot_ok None"
  by (simp_all add: slot_ok_def stop_server_def cancel_server_def)

lemma bind_server_Inr: "bind_server bound srv = (Inr u, srv') \<Longrightarrow> ts_listening srv'"
  by (auto simp: bind_server_def split: if_splits sum.splits)

lemma begin_service_effect:
  assumes "begin_service env n srv s = (r, t)"
  shows "quiet s t" and "r = Inl srv' \<Longrightarrow> slot_ok (Some srv')"
proof -
  have "quiet s t \<and> (r = Inl srv' \<longrightarrow> slot_ok (Some srv'))"
  proof (cases "ts_listening srv")
    case True
    with assms show ?thesis by (auto simp: begin_service_def quiet_def)
  next
    case False
    let ?ct = "sv_token (st_services s ! n)"
    obtain bound m where b: "ce_bind env (ts_port srv) (st_world s) = (bound, m)"
      by (cases "ce_bind env (ts_port srv) (st_world s)")
    obtain q srv1 where q: "bind_server bound srv = (q, srv1)" by (cases "bind_server bound srv")
    show ?thesis
    proof (cases q)
      case (Inl e)
      with assms False b q have "t = cancel_token env ?ct (s\<lparr>st_world := m\<rparr>)" "r = Inl (stop_server srv1)"
        by (simp_all add: begin_service_def Let_def)
      then show ?thesis using quiet_trans [OF quiet_world quiet_cancel] by auto
    next
      case (Inr u)
      let ?srv = "srv1\<lparr>ts_state := renew_server (st_cancelled s ?ct) (ts_state srv1)\<rparr>"
      let ?u = "s\<lparr>st_world := m\<rparr>"
      have t: "t = ?u\<lparr>st_services := (st_services ?u)[n := \<lparr>sv_token = ?ct, sv_task = Running ?srv\<rparr>]\<rparr>" "r = Inr ()"
        using assms False b q Inr by (simp_all add: begin_service_def Let_def)
      have "quiet ?u t"
        unfolding t using bind_server_Inr q Inr
        by (intro quiet_service) (auto simp: service_ok_def renew_server_def)
      then have "quiet s t" by (rule quiet_trans [OF quiet_world])
      with t(2) show ?thesis by simp
    qed
  qed
  then show "quiet s t" and "r = Inl srv' \<Longrightarrow> slot_ok (Some srv')" by auto
qed

lemma outside_quiet:
  assumes "site_outside env s t"
  shows "quiet s t"
  using assms
proof cases
  case (served n srv l st)
  let ?u = "s\<lparr>st_services := (st_services s)[n := (st_services s ! n)\<lparr>sv_task := Running (srv\<lparr>ts_state := st\<rparr>)\<rparr>]\<rparr>"
  have "quiet s ?u"
    using served(3) cancelled_mono [OF served(6)]
    by (intro quiet_service) (auto simp: service_ok_def)
  moreover have "quiet ?u t" unfolding served(1) by (rule quiet_on_center) simp
  ultimately show ?thesis by (rule quiet_trans)
next
  case (wound_up srv l st)
  have "cancelled st server_token"
    using cancelled_mono [OF wound_up(5)] wound_up(3) by simp
  then have "slot_ok (c_slot (st_center s)) \<longrightarrow> slot_ok (Some (srv\<lparr>ts_state := st\<rparr>))"
    using wound_up(2) by (simp add: slot_ok_def)
  then show ?thesis unfolding wound_up(1) by (simp add: quiet_def site_safe_def)
qed (auto intro!: quiet_on_center)

lemma kick_slot:
  assumes "center_disconnect_machine order mid c = (found, c')"
  shows "c_server_ct c' = c_server_ct c \<and> c_easy_tier c' = c_easy_tier c
    \<and> (slot_ok (c_slot c) \<longrightarrow> slot_ok (c_slot c'))"
  using assms
  by (auto simp: center_disconnect_machine_def disconnect_machine_def find_client_def slot_ok_def
      split: option.splits prod.splits if_splits)

section \<open>Reasoning about the programs\<close>

text \<open>
  A relation that quiet changes are within: then so are the task that serves and every call but
  starting and closing.
\<close>

definition ordinary :: "center_job \<Rightarrow> bool" where
  "ordinary j \<longleftrightarrow> (\<forall>ct. j \<noteq> Start_job ct) \<and> j \<noteq> Close_job"

locale site_relation = task_relation safe moves post
  for safe :: "'m site \<Rightarrow> bool" and moves :: "'m site \<Rightarrow> 'm site \<Rightarrow> bool"
    and post :: "center_result \<Rightarrow> 'm site \<Rightarrow> bool" +
  assumes moves_quiet: "quiet s t \<Longrightarrow> moves s t"
begin

lemma ok_put_c:
  assumes "\<And>c. c_server_ct (f c) = c_server_ct c \<and> c_easy_tier (f c) = c_easy_tier c
      \<and> (slot_ok (c_slot c) \<longrightarrow> slot_ok (c_slot (f c)))"
    and "ok_after s p"
  shows "ok_after s (put_c f p)"
  unfolding put_c_def using assms quiet_on_center by (intro ok_put_any moves_quiet) blast+

lemma ok_locked_c:
  assumes "\<And>c m a c' m'. f c m = (a, c', m') \<Longrightarrow> c_server_ct c' = c_server_ct c \<and> c_easy_tier c' = c_easy_tier c
      \<and> (slot_ok (c_slot c) \<longrightarrow> slot_ok (c_slot c'))"
    and "\<And>a. ok_after s (k a)"
  shows "ok_after s (locked_c f k)"
  unfolding locked_c_def
proof (rule ok_call_any [OF _ assms(2)])
  fix t u :: "'m site" and a
  assume step: "(case f (st_center t) (st_world t) of (a, c, m) \<Rightarrow> (a, t\<lparr>st_center := c, st_world := m\<rparr>)) = (a, u)"
  then obtain c and m :: 'm where "f (st_center t) (st_world t) = (a, c, m)" "u = t\<lparr>st_center := c, st_world := m\<rparr>"
    by (auto split: prod.splits)
  with assms(1) quiet_center moves_quiet show "moves t u" by metis
qed

lemma ok_put_back: "slot_ok srv \<Longrightarrow> ok_after s p \<Longrightarrow> ok_after s (put_back srv p)"
  unfolding put_back_def by (rule ok_put_c) simp_all

lemma ok_notify: "ok_after s p \<Longrightarrow> ok_after s (notify_task p)"
  unfolding notify_task_def
  by (intro ok_locked_c ok_put_c) (auto simp: center_get_players_def send_players_def Let_def split: prod.splits)

lemma ok_write: "ok_after s p \<Longrightarrow> ok_after s (put_c (write_players f) (notify_task p))"
  by (intro ok_put_c ok_notify) (simp_all add: write_players_def Let_def)

lemma ok_list_host: "ok_after s p \<Longrightarrow> ok_after s (list_host_task p)"
  unfolding list_host_task_def look_c_def
  by (intro ok_look_any ok_put_c ok_notify) (simp_all add: push_host_def Let_def)

lemma ok_accept_loop: "ok_after s p \<Longrightarrow> ok_after s (accept_loop n p)"
  unfolding accept_loop_def by (intro ok_try_call_any moves_quiet ok_put_back) (auto dest: quiet_end)

lemma ok_serve: "ok_after s p \<Longrightarrow> ok_after s (run_server_task env n p)"
  unfolding run_server_task_def
proof (rule ok_locked_c)
  fix slot assume p: "ok_after s p"
  have begun: "ok_after s (call (begin_service env n srv) (\<lambda>begun. case begun of
      Inl srv \<Rightarrow> put (service_over n) (put_back (Some srv) p) | Inr _ \<Rightarrow> accept_loop n p))" for srv
  proof (rule ok_call_state)
    fix t r u
    assume t: "moves s t" "begin_service env n srv t = (r, u)"
    have moved: "moves t u" using begin_service_effect(1) [OF t(2)] by (rule moves_quiet)
    have q: "ok_after u p" using p t(1) moved by (blast intro: ok_later moves_trans)
    have "ok_after u (case r of Inl srv \<Rightarrow> put (service_over n) (put_back (Some srv) p) | Inr _ \<Rightarrow> accept_loop n p)"
      using begin_service_effect(2) [OF t(2)] q
      by (auto split: sum.split intro!: ok_accept_loop ok_put_any moves_quiet ok_put_back)
    with moved show "moves t u \<and> ok_after u (case r of
        Inl srv \<Rightarrow> put (service_over n) (put_back (Some srv) p) | Inr _ \<Rightarrow> accept_loop n p)" ..
  qed
  have none: "ok_after s (put (service_over n) (put_back None p))"
    by (rule ok_put_any, rule moves_quiet, simp, rule ok_put_back, simp, rule p)
  show "ok_after s (case slot of None \<Rightarrow> put (service_over n) (put_back None p)
    | Some srv \<Rightarrow> call (begin_service env n srv) (\<lambda>begun. case begun of
        Inl srv \<Rightarrow> put (service_over n) (put_back (Some srv) p) | Inr _ \<Rightarrow> accept_loop n p))"
    using begun none by (auto split: option.split)
qed (auto)

lemma ok_ordinary:
  assumes "ordinary j" and "\<And>r t. (\<forall>q. r \<noteq> Shut q) \<Longrightarrow> (\<forall>q. r \<noteq> Started q) \<Longrightarrow> post r t"
  shows "ok_after s (center_program env j)"
proof -
  have ended: "ok_after s (Done r)" if "\<forall>q. r \<noteq> Shut q" "\<forall>q. r \<noteq> Started q" for r
    using assms(2) that by (intro ok_Done) blast
  show ?thesis
    using assms(1)
    by (cases j)
      (auto simp: ordinary_def remove_player_task_def handle_player_ping_task_def look_c_def
        center_get_players_def set_player_ping_handler_def kick_slot
        intro!: ok_serve ok_write ok_look_any ok_put_c ok_locked_c ended split: prod.splits)
qed

end

section \<open>Every interleaving\<close>

definition keeps_safe :: "'m site \<Rightarrow> 'm site \<Rightarrow> bool" where
  "keeps_safe s t \<longleftrightarrow> (site_safe s \<longrightarrow> site_safe t)"

interpretation anytime: site_relation site_safe keeps_safe "\<lambda>_ _. True"
  by unfold_locales (auto simp: keeps_safe_def quiet_def)

lemma keeps_safe_slot:
  assumes "\<And>c. slot_ok (c_slot c) \<longrightarrow> slot_ok (c_slot (f c))"
  shows "keeps_safe s (on_center f s)"
  using assms by (simp add: keeps_safe_def site_safe_def)

lemma keeps_safe_simps [simp]:
  "keeps_safe s (sleep_200 env s)" "keeps_safe s (spawn_service ct s)" "keeps_safe s (open_server env port hook s)"
  by (auto simp: keeps_safe_def site_safe_def sleep_200_def spawn_service_def service_ok_def open_server_def
      slot_ok_def new_tcp_server_def new_server_def new_registry_def)

lemma keeps_safe_cancel_kept [simp]: "keeps_safe s (cancel_kept env s)"
proof (cases "c_server_ct (st_center s)")
  case (Some ct)
  let ?t = "on_center (\<lambda>c. c\<lparr>c_server_ct := None\<rparr>) s"
  have "keeps_safe s ?t" by (rule keeps_safe_slot) simp
  moreover have "keeps_safe ?t (cancel_token env ct ?t)" by (rule anytime.moves_quiet) simp
  ultimately show ?thesis using Some by (auto simp: cancel_kept_def keeps_safe_def)
qed (simp add: cancel_kept_def keeps_safe_def)

lemma anytime_put:
  "(\<And>c. slot_ok (c_slot c) \<longrightarrow> slot_ok (c_slot (f c))) \<Longrightarrow> anytime.ok_after s p \<Longrightarrow> anytime.ok_after s (put_c f p)"
  unfolding put_c_def by (intro anytime.ok_put_any keeps_safe_slot) auto

lemma anytime_start: "anytime.ok_after s (start_task env ct (\<lambda>r. Done (Started r)))"
proof -
  have network: "anytime.ok_after s (start_network_task env port (\<lambda>r. Done (Started r)))" for s :: "'a site" and port
    unfolding start_network_task_def
    by (intro anytime.ok_look_any anytime.ok_try_call_any)
      (auto simp: keeps_safe_def site_safe_def on_center_def intro!: anytime.ok_list_host anytime.ok_Done
        split: sum.split option.splits)
  show ?thesis
    unfolding start_task_def look_c_def
    by (intro anytime.ok_look_any anytime_put)
      (auto intro!: anytime.ok_Done anytime.ok_put_any anytime.ok_look_any anytime_put network split: sum.split)
qed

lemma stop_effect:
  assumes "(case stop_easy_tier env (st_center t) (st_world t) of
      (a, c, m) \<Rightarrow> (a, t\<lparr>st_center := c, st_world := m\<rparr>)) = (r, u)"
  shows "r = Inr () \<and> st_center u = (st_center t)\<lparr>c_easy_tier := new_manager\<rparr>
    \<and> st_services u = st_services t \<and> st_cancelled u = st_cancelled t"
  using assms by (auto simp: stop_easy_tier_def stop_def split: option.splits)

lemma stop_effect':
  "stop_easy_tier env c m = (r, c', m') \<Longrightarrow> r = Inr () \<and> c' = c\<lparr>c_easy_tier := new_manager\<rparr>"
  by (auto simp: stop_easy_tier_def stop_def split: option.splits)

lemma anytime_close: "anytime.ok_after s (close_task env (\<lambda>r. Done (Shut r)))"
proof -
  have "anytime.ok_after s (locked_c (stop_easy_tier env) (\<lambda>r. Done (Shut r)))"
    unfolding locked_c_def
    by (intro anytime.ok_call_any anytime.ok_Done)
      (auto dest!: stop_effect simp: keeps_safe_def site_safe_def)
  then show ?thesis
    unfolding close_task_def
    by (intro anytime.ok_put_back anytime.ok_put_any) simp_all
qed

lemma anytime_program: "anytime.ok_after s (center_program env j)"
proof (cases "ordinary j")
  case False
  then show ?thesis by (cases j) (auto simp: ordinary_def intro: anytime_start anytime_close)
qed (simp add: anytime.ok_ordinary)

definition new_site :: "'m site \<Rightarrow> bool" where
  "new_site s \<longleftrightarrow> c_slot (st_center s) = None \<and> st_services s = []"

interpretation callers: cooperation new_site site_safe keeps_safe "\<lambda>_ _. True"
  "center_program env" center_may_start "site_outside env"
  for env :: "('m, 'i, 'u, 'v, 'j) center_env"
proof unfold_locales
  fix s t t' :: "'m site" and p :: "'m center_pool" and j
  show "site_safe s" if "new_site s" using that by (simp add: new_site_def site_safe_def)
  show "keeps_safe s t" if "site_outside env s t"
    using outside_quiet [OF that] by (rule anytime.moves_quiet)
  show "keeps site_safe keeps_safe (\<lambda>_ _. True) (center_program env j) s"
    by (rule anytime.ok_keeps [OF anytime_program anytime.moves_refl])
qed (fact anytime.moves_safe anytime.moves_refl anytime.moves_trans)+

section \<open>Closing\<close>

text \<open>Every task was spawned with a token that is cancelled, or kept for \<open>close\<close>.\<close>

definition tokens_kept :: "'m site \<Rightarrow> bool" where
  "tokens_kept s \<longleftrightarrow>
     (\<forall>ct \<in> set (map sv_token (st_services s)). st_cancelled s ct \<or> c_server_ct (st_center s) = Some ct)"

text \<open>Without a new start, nothing that was stopped comes back.\<close>

definition stays_closed :: "'m site \<Rightarrow> 'm site \<Rightarrow> bool" where
  "stays_closed s t \<longleftrightarrow> (site_safe s \<longrightarrow> site_safe t) \<and> (tokens_kept s \<longrightarrow> tokens_kept t)
     \<and> (c_server_ct (st_center s) = None \<longrightarrow> c_server_ct (st_center t) = None)
     \<and> (c_easy_tier (st_center s) = new_manager \<longrightarrow> c_easy_tier (st_center t) = new_manager)"

definition stoppable :: "'m site \<Rightarrow> bool" where
  "stoppable s \<longleftrightarrow> site_safe s \<and> tokens_kept s"

fun closed_post :: "center_result \<Rightarrow> 'm site \<Rightarrow> bool" where
  "closed_post (Shut r) s =
     (r = Inr () \<and> c_server_ct (st_center s) = None \<and> c_easy_tier (st_center s) = new_manager)"
| "closed_post _ s = True"

interpretation closing: site_relation stoppable stays_closed closed_post
proof unfold_locales
  fix s t t' :: "'m site"
  show "stays_closed s s" by (simp add: stays_closed_def)
  show "stays_closed s t \<Longrightarrow> stays_closed t t' \<Longrightarrow> stays_closed s t'" by (simp add: stays_closed_def)
  show "stays_closed s t \<Longrightarrow> stoppable s \<Longrightarrow> stoppable t" by (simp add: stays_closed_def stoppable_def)
  show "stays_closed s t" if "quiet s t"
  proof -
    have "set (map sv_token (st_services t)) = set (map sv_token (st_services s))"
      using that by (simp only: quiet_def)
    then show ?thesis using that unfolding stays_closed_def tokens_kept_def quiet_def by simp metis
  qed
qed

lemma closing_cancel: "stays_closed s (cancel_kept env s)" "c_server_ct (st_center (cancel_kept env s)) = None"
proof -
  show "c_server_ct (st_center (cancel_kept env s)) = None"
    by (simp add: cancel_kept_def split: option.split)
  show "stays_closed s (cancel_kept env s)"
  proof (cases "c_server_ct (st_center s)")
    case (Some ct)
    then have "tokens_kept s \<longrightarrow> tokens_kept (cancel_kept env s)"
      by (auto simp: tokens_kept_def cancel_kept_def)
    with Some show ?thesis using keeps_safe_cancel_kept [of s env]
      by (simp add: stays_closed_def keeps_safe_def cancel_kept_def)
  qed (simp add: stays_closed_def cancel_kept_def)
qed

lemma closing_close: "closing.ok_after s (close_task env (\<lambda>r. Done (Shut r)))"
proof -
  have stop: "closing.ok_after s (locked_c (stop_easy_tier env) (\<lambda>r. Done (Shut r)))"
    if "c_server_ct (st_center s) = None" for s :: "'a site"
    unfolding locked_c_def
  proof (rule closing.ok_call_state)
    fix t u :: "'a site" and r
    assume t: "stays_closed s t" and u: "(case stop_easy_tier env (st_center t) (st_world t) of
        (a, c, m) \<Rightarrow> (a, t\<lparr>st_center := c, st_world := m\<rparr>)) = (r, u)"
    have none: "c_server_ct (st_center t) = None" using t that by (simp add: stays_closed_def)
    note u = stop_effect [OF u]
    have "stays_closed t u" by (simp add: u stays_closed_def site_safe_def tokens_kept_def)
    moreover have "closing.ok_after u (Done (Shut r))"
      using none by (intro closing.ok_Done) (simp add: u stays_closed_def)
    ultimately show "stays_closed t u \<and> closing.ok_after u (Done (Shut r))" ..
  qed
  show ?thesis
    unfolding close_task_def
    by (intro closing.ok_put_back closing.ok_put_state conjI stop closing_cancel) simp
qed

definition not_starting :: "'m center_pool \<Rightarrow> center_job \<Rightarrow> bool" where
  "not_starting p j \<longleftrightarrow> center_may_start p j \<and> (\<forall>ct. j \<noteq> Start_job ct)"

lemma closing_program: "(\<forall>ct. j \<noteq> Start_job ct) \<Longrightarrow> closing.ok_after s (center_program env j)"
proof (cases "ordinary j")
  case True
  have "closed_post r t" if "\<forall>q. r \<noteq> Shut q" for r and t :: "'a site" using that by (cases r) simp_all
  then show ?thesis using closing.ok_ordinary [OF True] by blast
qed (auto simp: ordinary_def intro: closing_close)

interpretation closers: cooperation stoppable stoppable stays_closed closed_post
  "center_program env" not_starting "site_outside env"
  for env :: "('m, 'i, 'u, 'v, 'j) center_env"
proof unfold_locales
  fix s t t' :: "'m site" and p :: "'m center_pool" and j
  show "stoppable s \<Longrightarrow> stoppable s" .
  show "stays_closed s t" if "site_outside env s t"
    using outside_quiet [OF that] by (rule closing.moves_quiet)
  show "keeps stoppable stays_closed closed_post (center_program env j) s" if "not_starting p j"
    using that unfolding not_starting_def
    by (intro closing.ok_keeps [OF closing_program closing.moves_refl]) simp
qed (fact closing.moves_safe closing.moves_refl closing.moves_trans)+

section \<open>Properties\<close>

lemma machine_in_slot:
  assumes "slot_ok (c_slot c)"
    and "fst (center_disconnect_machine order mid c) \<or> center_machine_source_ip order mid c \<noteq> None"
  shows "\<exists>srv. c_slot c = Some srv \<and> cancelled (ts_state srv) server_token"
proof -
  from assms(2) obtain srv where srv: "c_slot c = Some srv"
    and "find_client (registry (ts_state srv)) order mid \<noteq> None"
    by (auto simp: center_disconnect_machine_def center_machine_source_ip_def disconnect_machine_def
        machine_source_ip_def split: option.splits)
  then have "client_machine (registry (ts_state srv)) \<noteq> Map.empty" by (auto simp: find_client_def find_Some_iff)
  with assms(1) srv show ?thesis by (auto simp: slot_ok_def)
qed

text \<open>
  C10: In every interleaving of starts, closes, tasks that serve, connections and other calls, the
  server in the slot of a centre does not listen, and the servers that listen stop with the token
  they were started with.  So disconnecting a machine and asking for its address succeed only for a
  server that has been stopped, and never reach a client of a server that serves.
\<close>

theorem slot_server_is_stopped:
  assumes "reach (\<lambda>p. tasks p = [] \<and> new_site (common p)) (center_pool_step env) p"
  shows "(\<forall>srv. c_slot (st_center (common p)) = Some srv \<longrightarrow> \<not> ts_listening srv)
    \<and> (\<forall>v \<in> set (st_services (common p)). \<forall>srv. sv_task v = Running srv \<longrightarrow>
         ts_listening srv \<and> (st_cancelled (common p) (sv_token v) \<longrightarrow> cancelled (ts_state srv) server_token))
    \<and> (\<forall>order mid. fst (center_disconnect_machine order mid (st_center (common p)))
           \<or> center_machine_source_ip order mid (st_center (common p)) \<noteq> None \<longrightarrow>
         (\<exists>srv. c_slot (st_center (common p)) = Some srv \<and> cancelled (ts_state srv) server_token))"
proof -
  have "site_safe (common p)" using assms by (rule callers.reached(1))
  then show ?thesis
    using machine_in_slot by (auto simp: site_safe_def slot_ok_def service_ok_def)
qed

text \<open>The pool of a start that has succeeded.\<close>

lemma sample_center_pool:
  obtains ls s c1 where "run (center_pool_step sample_center_env) \<lparr>tasks = [], common = site_of sample_center sample_world\<rparr> ls
      \<lparr>tasks = [(Start_job 7, Done (Started (Inr ()))), (Serve_job 0, accept_loop 0 (Done Served))], common = s\<rparr>"
    and "c_task (whole s) = Running c1" and "c_slot (st_center s) = None"
    and "c_server_ct (st_center s) = Some 7" and "set (map sv_token (st_services s)) \<subseteq> {7}"
proof -
  obtain c2 m2 where st: "center_start sample_center_env 7 sample_center sample_world = Some (Inr (), c2, m2)"
    using sample_center_starts by blast
  obtain ls s where s: "run (center_pool_step sample_center_env) \<lparr>tasks = [], common = site_of sample_center sample_world\<rparr> ls
      \<lparr>tasks = [(Start_job 7, Done (Started (Inr ()))), (Serve_job 0, accept_loop 0 (Done Served))], common = s\<rparr>"
    "whole s = c2" "set (map sv_token (st_services s)) \<subseteq> {7}"
    using center_start_runs [OF st sample_center_sel(6) sample_center_env_sel(3)]
    by (auto simp: serving_task_def)
  have "server_begun sample_center_env sample_center (Inr (scan_port (ce_bindable sample_center_env sample_world))) c2"
    "c_server_ct c2 = Some 7"
    using center_start_outcome [of sample_center_env 7 sample_center sample_world] st by auto
  then obtain c1 where "c_task c2 = Running c1" "c_slot c2 = None" "c_server_ct c2 = Some 7"
    by (auto simp: server_begun_def)
  with that [OF s(1) _ _ _ s(3)] s(2) show thesis by (auto simp: whole_def)
qed

theorem slot_server_is_stopped_witness:
  "\<exists>p :: sample_net center_pool. tasks p = [(Start_job 7, Done (Started (Inr ()))), (Serve_job 0, accept_loop 0 (Done Served))]
     \<and> (\<exists>v \<in> set (st_services (common p)). \<exists>srv. sv_task v = Running srv \<and> ts_listening srv)"
proof -
  obtain ls s c1 where s: "run (center_pool_step sample_center_env) \<lparr>tasks = [], common = site_of sample_center sample_world\<rparr> ls
      \<lparr>tasks = [(Start_job 7, Done (Started (Inr ()))), (Serve_job 0, accept_loop 0 (Done Served))], common = s\<rparr>"
    and c1: "c_task (whole s) = Running c1"
    by (rule sample_center_pool)
  have v: "List.last (st_services s) \<in> set (st_services s)" "sv_task (List.last (st_services s)) = Running c1"
    using c1 by (auto simp: whole_def split: if_splits)
  have "reach (\<lambda>p. tasks p = [] \<and> new_site (common p)) (center_pool_step sample_center_env)
      \<lparr>tasks = [(Start_job 7, Done (Started (Inr ()))), (Serve_job 0, accept_loop 0 (Done Served))], common = s\<rparr>"
    by (rule reach_run [OF s reach_init]) (simp add: new_site_def site_of_def)
  from slot_server_is_stopped [OF this, THEN conjunct2, THEN conjunct1] v have "ts_listening c1" by auto
  with v show ?thesis
    by - (rule exI [of _ "\<lparr>tasks = [(Start_job 7, Done (Started (Inr ()))), (Serve_job 0, accept_loop 0 (Done Served))],
        common = s\<rparr>"], auto)
qed

text \<open>A pool in which no start and no \<open>close\<close> is under way: calls that returned, and tasks that serve.\<close>

definition opened :: "'m center_pool \<Rightarrow> bool" where
  "opened p \<longleftrightarrow> stoppable (common p)
     \<and> (\<forall>(j, c) \<in> set (tasks p). (\<exists>r. c = Done r \<and> (\<forall>q. r \<noteq> Shut q)) \<or> (\<exists>n. c = accept_loop n (Done Served)))"

lemma opened_inv:
  assumes "opened p"
  shows "closers.pool_inv p"
proof -
  have "stays_closed (common p) t \<longrightarrow> keeps stoppable stays_closed closed_post c t"
    if "(j, c) \<in> set (tasks p)" for j c t
  proof -
    have "closing.ok_after (common p) c"
    proof (cases "\<exists>n. c = accept_loop n (Done Served)")
      case True
      then show ?thesis by (auto intro!: closing.ok_accept_loop closing.ok_Done)
    next
      case False
      then obtain r where r: "c = Done r" "\<forall>q. r \<noteq> Shut q"
        using assms \<open>(j, c) \<in> set (tasks p)\<close> by (auto simp: opened_def)
      have "closed_post r u" for u :: "'a site" using r(2) by (cases r) simp_all
      then show ?thesis unfolding r(1) by (intro closing.ok_Done) simp
    qed
    then show ?thesis using closing.ok_keeps by blast
  qed
  then show ?thesis using assms by (auto simp: closers.pool_inv_def opened_def)
qed

text \<open>
  C9: A \<open>close\<close> that has returned is final, whatever other calls, further closes among them, the tasks
  that serve and the connections do before, between and after its accesses, as long as the centre is
  not started again: it succeeded, EasyTier is stopped, no token is kept, every server still in its
  accept loop has been told to stop, and the one in the slot does not listen.
\<close>

theorem closing_is_final:
  assumes "opened p" and "run (pool_step (center_program env) not_starting (site_outside env)) p ls p'"
    and "(Close_job, Done (Shut r)) \<in> set (tasks p')"
  shows "r = Inr () \<and> c_easy_tier (st_center (common p')) = new_manager \<and> c_server_ct (st_center (common p')) = None
    \<and> (\<forall>v \<in> set (st_services (common p')). st_cancelled (common p') (sv_token v)
         \<and> (\<forall>srv. sv_task v = Running srv \<longrightarrow> cancelled (ts_state srv) server_token))
    \<and> (\<forall>srv. c_slot (st_center (common p')) = Some srv \<longrightarrow> \<not> ts_listening srv)"
proof -
  have inv: "closers.pool_inv p'" using closers.inv_run [OF assms(2) opened_inv [OF assms(1)]] .
  then have "stoppable (common p')" by (simp add: closers.pool_inv_def)
  moreover have "closed_post (Shut r) (common p')"
    using inv assms(3) closing.moves_refl \<open>stoppable (common p')\<close> by (fastforce simp: closers.pool_inv_def)
  ultimately show ?thesis
    by (auto simp: stoppable_def site_safe_def tokens_kept_def slot_ok_def service_ok_def)
qed

lemma close_returns: "\<exists>r t. alone (close_task env (\<lambda>r. Done (Shut r))) s = Some (Shut r, t)"
proof -
  let ?s = "cancel_kept env (on_center (\<lambda>c. c\<lparr>c_slot := None\<rparr>) s)"
  obtain r c m where "stop_easy_tier env (st_center ?s) (st_world ?s) = (r, c, m)" by (metis prod_cases3)
  then show ?thesis by (simp add: alone_close Let_def)
qed

theorem closing_is_final_witness:
  "\<exists>s ls p'. run (pool_step (center_program sample_center_env) not_starting (site_outside sample_center_env))
        \<lparr>tasks = [(Start_job 7, Done (Started (Inr ()))), (Serve_job 0, accept_loop 0 (Done Served))], common = s\<rparr> ls p'
    \<and> (\<exists>srv. c_task (whole s) = Running srv) \<and> c_server_ct (st_center s) = Some 7
    \<and> (Close_job, Done (Shut (Inr ()))) \<in> set (tasks p') \<and> c_server_ct (st_center (common p')) = None"
proof -
  let ?env = sample_center_env
  let ?ts = "[(Start_job 7, Done (Started (Inr ()))), (Serve_job 0, accept_loop 0 (Done Served))]"
  let ?step = "pool_step (center_program ?env) not_starting (site_outside ?env)"
  obtain ls s c1 where s: "run (center_pool_step ?env) \<lparr>tasks = [], common = site_of sample_center sample_world\<rparr> ls
      \<lparr>tasks = ?ts, common = s\<rparr>"
    and c1: "c_task (whole s) = Running c1" "c_server_ct (st_center s) = Some 7" "set (map sv_token (st_services s)) \<subseteq> {7}"
    by (rule sample_center_pool)
  have "reach (\<lambda>p. tasks p = [] \<and> new_site (common p)) (center_pool_step ?env) \<lparr>tasks = ?ts, common = s\<rparr>"
    by (rule reach_run [OF s reach_init]) (simp add: new_site_def site_of_def)
  then have "site_safe s" using callers.reached(1) by force
  then have opened: "opened \<lparr>tasks = ?ts, common = s\<rparr>" using c1 by (auto simp: opened_def stoppable_def tokens_kept_def)
  let ?close = "center_program ?env Close_job"
  let ?p = "\<lparr>tasks = ?ts @ [(Close_job, ?close)], common = s\<rparr>"
  have "?step \<lparr>tasks = ?ts, common = s\<rparr> (Start Close_job) ?p"
    using start [of not_starting "\<lparr>tasks = ?ts, common = s\<rparr>" Close_job "center_program ?env" "site_outside ?env"]
    by (simp add: not_starting_def)
  moreover obtain r t where "alone ?close s = Some (Shut r, t)"
    using close_returns by (metis center_program.simps(3))
  then have "\<exists>n. run ?step ?p (replicate n (Turn 2)) \<lparr>tasks = ?ts @ [(Close_job, Done (Shut r))], common = t\<rparr>"
    using alone_runs [of 2 ?p Close_job ?close "Shut r" t "center_program ?env" not_starting "site_outside ?env"]
    by (auto simp: nth_append)
  ultimately obtain ls' where run: "run ?step \<lparr>tasks = ?ts, common = s\<rparr> ls'
      \<lparr>tasks = ?ts @ [(Close_job, Done (Shut r))], common = t\<rparr>"
    using run_Cons [where step = ?step] by blast
  from closing_is_final [OF opened run, of r] have "r = Inr ()" "c_server_ct (st_center t) = None" by auto
  with run c1 show ?thesis by (intro exI [of _ s] exI [of _ ls'] exI) auto
qed

text \<open>A cancelled accept loop comes to its end.\<close>

lemma accept_loop_ends:
  assumes "n < length (st_services s)" and "sv_task (st_services s ! n) = Running srv"
    and "st_cancelled s (sv_token (st_services s ! n))"
  shows "alone (accept_loop n p) s =
    alone p (on_center (\<lambda>c. c\<lparr>c_slot := Some (stop_server srv)\<rparr>) (service_over n s))"
  using assms by (simp add: accept_loop_def end_service_def service_over_def)

lemma cancelled_service_ends:
  assumes "tasks p = [a, (Serve_job 0, accept_loop 0 (Done Served))]"
    and "map sv_token (st_services (common p)) = [ct]" and "c_task (whole (common p)) = Running srv"
  shows "\<exists>ls s. run (center_pool_step env) p ls \<lparr>tasks = [a, (Serve_job 0, Done Served)], common = s\<rparr>
    \<and> (\<exists>srv. whole s = (whole (common p))\<lparr>c_slot := Some (stop_server srv), c_task := Over\<rparr>)
    \<and> st_services s = [\<lparr>sv_token = ct, sv_task = Over\<rparr>] \<and> st_cancelled s ct
    \<and> st_world s = ce_cancel env ct (st_world (common p))"
proof -
  obtain v where v: "st_services (common p) = [v]" "sv_token v = ct" using assms(2) by auto
  with assms(3) have "sv_task v = Running srv" by (simp add: whole_def)
  let ?srv = "srv\<lparr>ts_state := cancel_server (ts_state srv)\<rparr>"
  let ?s = "cancel_token env ct (common p)" and ?loop = "accept_loop 0 (Done Served)"
  let ?t = "on_center (\<lambda>c. c\<lparr>c_slot := Some (stop_server ?srv)\<rparr>) (service_over 0 ?s)"
  have cancel: "center_pool_step env p Outside (p\<lparr>common := ?s\<rparr>)"
    by (rule outside) (rule owner_cancels)
  have running: "st_services ?s = [v\<lparr>sv_task := Running ?srv\<rparr>]" "st_cancelled ?s ct"
    using v \<open>sv_task v = Running srv\<close> by (simp_all add: cancel_service_def)
  have "alone ?loop ?s = Some (Served, ?t)"
    using accept_loop_ends [of 0 ?s ?srv "Done Served"] running v(2) by (simp del: cancel_token_sel)
  then have "\<exists>n. run (center_pool_step env) (p\<lparr>common := ?s\<rparr>) (replicate n (Turn 1))
      \<lparr>tasks = [a, (Serve_job 0, Done Served)], common = ?t\<rparr>"
    using alone_runs [of 1 "p\<lparr>common := ?s\<rparr>" "Serve_job 0" ?loop Served ?t "center_program env" center_may_start
        "site_outside env"] assms(1)
    by (cases p) auto
  with cancel have "\<exists>ls. run (center_pool_step env) p ls \<lparr>tasks = [a, (Serve_job 0, Done Served)], common = ?t\<rparr>"
    using run_Cons [where step = "center_pool_step env"] by blast
  moreover have "st_services ?t = [\<lparr>sv_token = ct, sv_task = Over\<rparr>]" "st_cancelled ?t ct"
    "st_world ?t = ce_cancel env ct (st_world (common p))"
    using running v(2) by (cases v; simp add: service_over_def)+
  moreover have "whole ?t = (whole (common p))\<lparr>c_slot := Some (stop_server ?srv), c_task := Over\<rparr>"
    using calculation(2) v(1) by (cases "st_center (common p)") (simp add: whole_def service_over_def)
  ultimately show ?thesis by blast
qed

text \<open>A start whose server serves while it sleeps.\<close>

lemma start_sleeps:
  assumes "check_keys standard_keys (c_custom c) = Inr ()"
    and "ce_bind env (scan_port (ce_bindable env m)) m = (Inr q, m1)"
  shows "\<exists>ls s srv. run (center_pool_step env) \<lparr>tasks = [], common = site_of c m\<rparr> ls
      \<lparr>tasks = [(Start_job ct, put (sleep_200 env)
            (start_network_task env (scan_port (ce_bindable env m)) (\<lambda>r. Done (Started r)))),
          (Serve_job 0, accept_loop 0 (Done Served))], common = s\<rparr>
    \<and> c_task (whole s) = Running srv \<and> map sv_token (st_services s) = [ct] \<and> st_world s = m1
    \<and> c_easy_tier (whole s) = c_easy_tier c \<and> c_tcp_port (whole s) = scan_port (ce_bindable env m)
    \<and> (\<forall>sys. center_config (whole s) sys = center_config (c\<lparr>c_tcp_port := scan_port (ce_bindable env m)\<rparr>) sys)
    \<and> ts_state srv = new_server (lib_now (ce_lib env) m) (c_room c)
    \<and> ts_protocols srv = protocol_map (center_protocols (ce_js env) (c_hook c) (c_minecraft_port c) (c_custom c))
    \<and> c_room (whole s) = c_room c \<and> (\<forall>mgr. host_player ((whole s)\<lparr>c_easy_tier := mgr\<rparr>) = host_player (c\<lparr>c_easy_tier := mgr\<rparr>))"
proof -
  obtain ls p1 where spawned: "run (center_pool_step env) \<lparr>tasks = [], common = site_of c m\<rparr> ls p1"
    "tasks p1 = [(Start_job ct, put (sleep_200 env)
        (start_network_task env (scan_port (ce_bindable env m)) (\<lambda>r. Done (Started r)))),
      (Serve_job 0, run_server_task env 0 (Done Served))]"
    "common p1 = spawned env ct (site_of c m)"
    using start_spawns [OF assms(1), of env m ct] by blast
  from serve_begins [OF spawned(2,3) assms(2)] run_append [OF spawned(1)] show ?thesis
    by (fastforce simp: serving_task_def bind_effect_def task_begins_def bind_server_def new_tcp_server_def center_config_def
        host_player_def)
qed

text \<open>
  C29: \<open>start\<close> never looks at its token.  When the owner cancels it while \<open>start\<close> sleeps, the server
  stops, but \<open>start\<close> still joins the EasyTier network, puts the host on the list and reports success
  for a room that nobody can connect to.
\<close>

theorem start_ignores_cancellation:
  assumes "check_keys standard_keys (c_custom c) = Inr ()"
    and "ce_bind env (scan_port (ce_bindable env m)) m = (Inr q, m1)"
    and "m2 = lib_sleep (ce_lib env) 200 (ce_cancel env ct m1)"
    and "start (ce_lib env) (center_config (c\<lparr>c_tcp_port := scan_port (ce_bindable env m)\<rparr>) (ce_system env m2))
           (c_easy_tier c) m2 = Some (Inr (), mgr, m3)"
  shows "\<exists>ls p'. run (center_pool_step env) \<lparr>tasks = [], common = site_of c m\<rparr> ls p'
    \<and> tasks p' = [(Start_job ct, Done (Started (Inr ()))), (Serve_job 0, Done Served)]
    \<and> st_services (common p') = [\<lparr>sv_token = ct, sv_task = Over\<rparr>]
    \<and> (\<exists>srv. c_slot (st_center (common p')) = Some (stop_server srv))
    \<and> c_easy_tier (st_center (common p')) = mgr
    \<and> host_player (st_center (common p')) \<in> set (players (room_roster (c_room (st_center (common p')))))"
proof -
  let ?step = "center_pool_step env"
  let ?port = "scan_port (ce_bindable env m)"
  let ?rest = "put (sleep_200 env) (start_network_task env ?port (\<lambda>r. Done (Started r)))"
  let ?p = "\<lambda>s. \<lparr>tasks = [(Start_job ct, ?rest), (Serve_job 0, accept_loop 0 (Done Served))], common = s\<rparr>"
  obtain ls s srv where begun: "run ?step \<lparr>tasks = [], common = site_of c m\<rparr> ls (?p s)"
    and s: "c_task (whole s) = Running srv" "map sv_token (st_services s) = [ct]" "st_world s = m1"
    and whole: "c_easy_tier (whole s) = c_easy_tier c" "c_tcp_port (whole s) = ?port"
      "\<forall>sys. center_config (whole s) sys = center_config (c\<lparr>c_tcp_port := ?port\<rparr>) sys"
    using start_sleeps [OF assms(1,2), of ct] by (elim exE conjE)
  from cancelled_service_ends [of "?p s" "(Start_job ct, ?rest)" ct srv env] s(1,2)
  obtain ls2 t srv2 where ended: "run ?step (?p s) ls2
        \<lparr>tasks = [(Start_job ct, ?rest), (Serve_job 0, Done Served)], common = t\<rparr>"
      and t: "whole t = (whole s)\<lparr>c_slot := Some (stop_server srv2), c_task := Over\<rparr>"
        "st_services t = [\<lparr>sv_token = ct, sv_task = Over\<rparr>]" "st_world t = ce_cancel env ct m1"
    using s(3) by auto
  let ?c = "(whole t)\<lparr>c_easy_tier := mgr\<rparr>"
  have "start_network env (whole t) (lib_sleep (ce_lib env) 200 (st_world t)) =
      Some (Inr (), ?c\<lparr>c_room := add_host (host_player ?c) (c_room ?c)\<rparr>, m3)"
    using assms(3,4) whole
    by (simp add: start_network_def t center_config_def Let_def)
  moreover have "c_tcp_port (st_center t) = ?port"
    using arg_cong [OF t(1), of c_tcp_port] whole(2) by (simp add: whole_def)
  ultimately obtain k u where started: "run ?step \<lparr>tasks = [(Start_job ct, ?rest), (Serve_job 0, Done Served)], common = t\<rparr>
        (replicate k (Turn 0)) \<lparr>tasks = [(Start_job ct, Done (Started (Inr ()))), (Serve_job 0, Done Served)], common = u\<rparr>"
      and u: "whole u = ?c\<lparr>c_room := add_host (host_player ?c) (c_room ?c)\<rparr>" "st_services u = st_services t"
    using started_after_spawn [of "\<lparr>tasks = [(Start_job ct, ?rest), (Serve_job 0, Done Served)], common = t\<rparr>" ct env ?port
        "(Serve_job 0, Done Served)" "Inr ()"] by fastforce
  have slot: "c_slot (st_center t) = Some (stop_server srv2)"
    using arg_cong [OF t(1), of c_slot] by (simp add: whole_def)
  have "c_slot (st_center u) = Some (stop_server srv2)" "c_easy_tier (st_center u) = mgr"
    "c_room (st_center u) = add_host (host_player (st_center u)) (c_room ?c)"
    using arg_cong [OF u(1), of c_slot] arg_cong [OF u(1), of c_easy_tier] arg_cong [OF u(1), of c_room]
      arg_cong [OF u(1), of host_player] slot by (simp_all add: whole_def host_player_def)
  moreover from this(3) have "host_player (st_center u) \<in> set (players (room_roster (c_room (st_center u))))"
    by (simp add: add_host_def)
  ultimately show ?thesis
    using run_append [OF begun run_append [OF ended started]] u(2) t(2)
    by (intro exI conjI) (assumption, auto)
qed

theorem start_ignores_cancellation_witness:
  "\<exists>ls p'. run (center_pool_step sample_center_env) \<lparr>tasks = [], common = site_of sample_center sample_world\<rparr> ls p'
    \<and> tasks p' = [(Start_job 7, Done (Started (Inr ()))), (Serve_job 0, Done Served)]
    \<and> st_services (common p') = [\<lparr>sv_token = 7, sv_task = Over\<rparr>]"
proof -
  let ?port = "scan_port (ce_bindable sample_center_env sample_world)"
  let ?m = "lib_sleep (ce_lib sample_center_env) 200 (ce_cancel sample_center_env 7 sample_world)"
  let ?config = "center_config (sample_center\<lparr>c_tcp_port := ?port\<rparr>) (ce_system sample_center_env ?m)"
  have "is_ok (build_toml_config (sample_lib True) ?config)"
    by (rule sample_config_ok) (simp add: center_config_def default_network_config_def)
  then obtain mgr m3 where "start (ce_lib sample_center_env) ?config (c_easy_tier sample_center) ?m = Some (Inr (), mgr, m3)"
    using sample_start [of ?config new_manager ?m] by (auto simp: new_manager_def)
  from start_ignores_cancellation [OF _ sample_center_env_sel(3) refl this] show ?thesis by auto
qed

text \<open>
  C31: Starting an open centre again fails, because EasyTier runs, but only after the new token has
  replaced the one that \<open>close\<close> would cancel: the \<open>close\<close> that follows reports success and leaves the
  server of the first start listening, with a token that nobody keeps.
\<close>

theorem failed_restart_orphans_server:
  assumes "check_keys standard_keys (c_custom (st_center s)) = Inr ()"
    and "is_running (ce_lib env) (c_easy_tier (st_center s)) (lib_sleep (ce_lib env) 200 (st_world s))"
    and "st_services s = [v]" and "sv_task v = Running srv" and "sv_token v \<noteq> ct" and "\<not> st_cancelled s (sv_token v)"
  shows "\<exists>s1 s2. alone (center_program env (Start_job ct)) s = Some (Started (Inl (EasyTierStart msg_et_running)), s1)
    \<and> alone (center_program env Close_job) s1 = Some (Shut (Inr ()), s2)
    \<and> c_server_ct (st_center s2) = None \<and> v \<in> set (st_services s2) \<and> \<not> st_cancelled s2 (sv_token v)"
proof -
  let ?port = "scan_port (ce_bindable env (st_world s))"
  define t where "t = sleep_200 env (spawned env ct s)"
  have t: "c_easy_tier (st_center t) = c_easy_tier (st_center s)" "st_world t = lib_sleep (ce_lib env) 200 (st_world s)"
    "c_server_ct (st_center t) = Some ct" "st_services t = [v, \<lparr>sv_token = ct, sv_task = Spawned\<rparr>]"
    "st_cancelled t = st_cancelled s"
    using assms(3)
    by (simp_all add: t_def sleep_200_def spawned_def spawn_service_def open_server_def Let_def)
  have "alone (center_program env (Start_job ct)) s = alone (start_network_task env ?port (\<lambda>r. Done (Started r))) t"
    using assms(1) by (simp add: start_task_def t_def spawned_def Let_def)
  then obtain s1 where s1: "alone (center_program env (Start_job ct)) s = Some (Started (Inl (EasyTierStart msg_et_running)), s1)"
    "c_server_ct (st_center s1) = Some ct" "st_services s1 = st_services t" "st_cancelled s1 = st_cancelled t"
    using assms(2) t by (simp add: start_network_task_def start_def)
  obtain r s2 where s2: "alone (center_program env Close_job) s1 = Some (Shut r, s2)"
    using close_returns by (metis center_program.simps(3))
  then have "r = Inr ()" "c_server_ct (st_center s2) = None"
      "st_services s2 = map (cancel_service ct) (st_services s1)" "st_cancelled s2 = (st_cancelled s1)(ct := True)"
    using s1(2) by (auto simp: alone_close Let_def cancel_kept_def split: prod.splits dest!: stop_effect')
  moreover have "cancel_service ct v = v" using assms(5) by (simp add: cancel_service_def split: serve_task.split)
  ultimately show ?thesis using s1 s2 t assms(5,6) by auto
qed

text \<open>A centre whose server runs with the token 7, and whose EasyTier instance is 3.\<close>

definition open_site :: "sample_net site" where
  "open_site =
     \<lparr> st_center = sample_center\<lparr>c_easy_tier := new_manager\<lparr>instance_id := Some 3\<rparr>, c_server_ct := Some 7\<rparr>,
       st_services = [\<lparr>sv_token = 7, sv_task = Running (new_tcp_server 25565 (center_protocols body_json None 25565 []) 0
         (new_room (\<lambda>_ _. True))\<lparr>ts_listening := True\<rparr>)\<rparr>],
       st_cancelled = (\<lambda>_. False), st_world = sample_world\<lparr>sn_running := [3]\<rparr> \<rparr>"

theorem failed_restart_orphans_server_witness:
  "\<exists>s1 s2 srv. alone (center_program sample_center_env (Start_job 8)) open_site = Some (Started (Inl (EasyTierStart msg_et_running)), s1)
    \<and> alone (center_program sample_center_env Close_job) s1 = Some (Shut (Inr ()), s2)
    \<and> c_server_ct (st_center s2) = None \<and> \<lparr>sv_token = 7, sv_task = Running srv\<rparr> \<in> set (st_services s2)
    \<and> ts_listening srv \<and> \<not> cancelled (ts_state srv) server_token \<and> \<not> st_cancelled s2 7"
proof -
  let ?srv = "new_tcp_server 25565 (center_protocols body_json None 25565 []) 0 (new_room (\<lambda>_ _. True))\<lparr>ts_listening := True\<rparr>"
  have "is_running (ce_lib sample_center_env) (c_easy_tier (st_center open_site))
      (lib_sleep (ce_lib sample_center_env) 200 (st_world open_site))"
    by (simp add: open_site_def is_running_def sample_lib_def)
  then obtain s1 s2 where "alone (center_program sample_center_env (Start_job 8)) open_site
        = Some (Started (Inl (EasyTierStart msg_et_running)), s1)"
      "alone (center_program sample_center_env Close_job) s1 = Some (Shut (Inr ()), s2)"
      "c_server_ct (st_center s2) = None \<and> \<lparr>sv_token = 7, sv_task = Running ?srv\<rparr> \<in> set (st_services s2) \<and> \<not> st_cancelled s2 7"
    using failed_restart_orphans_server [of open_site sample_center_env "\<lparr>sv_token = 7, sv_task = Running ?srv\<rparr>" ?srv 8]
    by (auto simp: open_site_def)
  moreover have "ts_listening ?srv" "\<not> cancelled (ts_state ?srv) server_token"
    by (simp_all add: new_tcp_server_def new_server_def)
  ultimately show ?thesis by blast
qed

end
