(* ===== verification/Center_Listing.thy ===== *)
theory Center_Listing
  imports Center_Pool Room_Session
begin

text \<open>
  The player list of a centre in every interleaving of its calls, the tasks that serve and the
  connections, from before the start on: clients are served while \<open>start\<close> still sleeps and joins the
  network, so the list may have entries before the host is put on it.
\<close>

section \<open>What holds of the list\<close>

text \<open>
  Guests have different machine ids, and only the owner's machine id is a host's; the host is on the
  list.
\<close>

definition guest_ids :: "player_info list \<Rightarrow> string list" where
  "guest_ids l = map pi_machine_id (filter (\<lambda>p. pi_kind p = Guest) l)"

definition list_ok :: "string \<Rightarrow> player_info list \<Rightarrow> bool" where
  "list_ok mid l \<longleftrightarrow> distinct (guest_ids l) \<and> (\<forall>p \<in> set l. pi_kind p = Host \<longrightarrow> pi_machine_id p = mid)"

definition host_in :: "string \<Rightarrow> player_info list \<Rightarrow> bool" where
  "host_in mid l \<longleftrightarrow> (\<exists>p \<in> set l. pi_machine_id p = mid \<and> pi_kind p = Host)"

text \<open>A change of the list that is within this.\<close>

definition list_moves :: "string \<Rightarrow> player_info list \<Rightarrow> player_info list \<Rightarrow> bool" where
  "list_moves mid l l' \<longleftrightarrow> (list_ok mid l \<longrightarrow> list_ok mid l') \<and> (host_in mid l \<longrightarrow> host_in mid l')"

lemma list_moves_refl [simp]: "list_moves mid l l"
  by (simp add: list_moves_def)

lemma player_kind_cases: "pi_kind p \<noteq> Host \<longleftrightarrow> pi_kind p = Guest"
  by (cases "pi_kind p") simp_all

lemma map_kinds_update:
  assumes "i < length l" and "pi_machine_id q = pi_machine_id (l ! i)" and "pi_kind q = pi_kind (l ! i)"
  shows "map (\<lambda>p. (pi_machine_id p, pi_kind p)) (l[i := q]) = map (\<lambda>p. (pi_machine_id p, pi_kind p)) l"
  using assms by (simp add: map_update list_update_same_conv)

text \<open>Only the machine ids and kinds matter.\<close>

lemma guest_ids_kinds:
  "guest_ids l = map fst (filter (\<lambda>(m, k). k = Guest) (map (\<lambda>p. (pi_machine_id p, pi_kind p)) l))"
  by (simp add: guest_ids_def filter_map comp_def)

lemma list_ok_kinds:
  "list_ok mid l \<longleftrightarrow> distinct (guest_ids l) \<and> (\<forall>(m, k) \<in> set (map (\<lambda>p. (pi_machine_id p, pi_kind p)) l). k = Host \<longrightarrow> m = mid)"
  by (auto simp: list_ok_def)

lemma host_in_kinds: "host_in mid l \<longleftrightarrow> (mid, Host) \<in> set (map (\<lambda>p. (pi_machine_id p, pi_kind p)) l)"
  by (force simp: host_in_def)

lemma list_moves_ping: "list_moves mid l (ping_section info l)"
proof (cases "position (\<lambda>p. pi_machine_id p = pi_machine_id info) l")
  case None
  then have "\<forall>p \<in> set l. pi_machine_id p \<noteq> pi_machine_id info" by (simp add: position_None)
  with None show ?thesis
    by (auto simp: list_moves_def ping_section_def list_ok_def host_in_def guest_ids_def)
next
  case (Some i)
  then have i: "i < length l" "pi_machine_id (l ! i) = pi_machine_id info" by (simp_all add: position_Some)
  have "map (\<lambda>p. (pi_machine_id p, pi_kind p)) (ping_section info l) = map (\<lambda>p. (pi_machine_id p, pi_kind p)) l"
    using Some i map_kinds_update [of i l "refresh_player info (l ! i)"] by (simp add: ping_section_def)
  then show ?thesis by (simp only: list_moves_def list_ok_kinds host_in_kinds guest_ids_kinds) simp
qed

lemma list_moves_leave: "list_moves mid l (leave_section m l)"
proof (cases "position (\<lambda>p. pi_machine_id p = m) l")
  case (Some i)
  then have i: "i < length l" by (simp add: position_Some)
  show ?thesis
  proof (cases "pi_kind (l ! i) = Host")
    case False
    have l: "l = take i l @ l ! i # drop (Suc i) l" using i by (rule id_take_nth_drop)
    have host: "host_in mid (remove_at i l) = host_in mid l"
    proof -
      have "host_in mid l = host_in mid (take i l @ l ! i # drop (Suc i) l)" using l by simp
      also have "\<dots> = host_in mid (remove_at i l)" using False by (auto simp: host_in_def remove_at_def)
      finally show ?thesis by simp
    qed
    have "list_ok mid (remove_at i l)" if "list_ok mid l"
    proof -
      have "guest_ids l = guest_ids (take i l @ l ! i # drop (Suc i) l)" using l by simp
      then have "guest_ids l = guest_ids (take i l) @ pi_machine_id (l ! i) # guest_ids (drop (Suc i) l)"
        using False by (simp add: guest_ids_def player_kind_cases)
      moreover have "guest_ids (remove_at i l) = guest_ids (take i l) @ guest_ids (drop (Suc i) l)"
        by (simp add: guest_ids_def remove_at_def)
      ultimately show ?thesis
        using that set_remove_at [of i l] by (auto simp: list_ok_def)
    qed
    with host Some False show ?thesis by (simp add: list_moves_def leave_section_def)
  qed (simp add: leave_section_def Some)
qed (simp add: leave_section_def)

lemma list_moves_push: "pi_kind h = Host \<Longrightarrow> pi_machine_id h = mid \<Longrightarrow> list_moves mid l (l @ [h]) \<and> host_in mid (l @ [h])"
  by (auto simp: list_moves_def list_ok_def host_in_def guest_ids_def)

text \<open>The same of a room and what acts on it.\<close>

definition room_moves :: "string \<Rightarrow> center_room \<Rightarrow> center_room \<Rightarrow> bool" where
  "room_moves mid r r' \<longleftrightarrow> list_moves mid (players (room_roster r)) (players (room_roster r'))"

lemma room_moves_ops [simp]:
  "room_moves mid r r" "room_moves mid r (handle_player_ping info r)" "room_moves mid r (client_disconnected m r)"
  "room_moves mid r (snd (room_players r))" "room_moves mid r (players_changed_rx r)"
  by (simp_all add: room_moves_def handle_player_ping_def client_disconnected_def room_players_def players_changed_rx_def
      players_ping players_disconnected list_moves_ping list_moves_leave split: option.split)

text \<open>What is asked of custom protocols and hooks: that they change the list only within this.\<close>

definition keeps_listing :: "string \<Rightarrow> center_room protocol_handler \<Rightarrow> bool" where
  "keeps_listing mid h \<longleftrightarrow> (\<forall>request r. room_moves mid r (snd (handle h request r)))"

definition hook_keeps_listing :: "string \<Rightarrow> ping_hook option \<Rightarrow> bool" where
  "hook_keeps_listing mid hook \<longleftrightarrow> (\<forall>h info r. hook = Some h \<longrightarrow> room_moves mid r (snd (h info r)))"

lemma center_protocols_keep_listing:
  assumes "\<forall>h \<in> set custom. keeps_listing mid h" and "hook_keeps_listing mid hook"
    and "h \<in> set (center_protocols js hook port custom)"
  shows "keeps_listing mid h"
proof -
  have ping: "keeps_listing mid (player_ping_protocol js (\<lambda>info r.
      case hook of Some handler \<Rightarrow> handler info r | None \<Rightarrow> (True, handle_player_ping info r)))"
    using assms(2)
    by (auto simp: keeps_listing_def hook_keeps_listing_def handle_player_ping split: sum.split option.split)
  have "keeps_listing mid (player_profiles_list_protocol js room_players)"
    by (auto simp: keeps_listing_def handle_profiles split: sum.split)
  moreover have "keeps_listing mid ping_protocol" "keeps_listing mid (protocols_protocol ks)"
      "keeps_listing mid (server_port_protocol port)" for ks
    by (simp_all add: keeps_listing_def)
  ultimately show ?thesis using assms(1,3) ping by (auto simp: center_protocols_def)
qed

definition server_lists :: "string \<Rightarrow> tcp_server \<Rightarrow> bool" where
  "server_lists mid srv \<longleftrightarrow> (\<forall>h \<in> ran (ts_protocols srv). keeps_listing mid h)"

lemma new_tcp_server_lists:
  assumes "\<forall>h \<in> set custom. keeps_listing mid h" and "hook_keeps_listing mid hook"
  shows "server_lists mid (new_tcp_server port (center_protocols js hook mc custom) t r)"
  using center_protocols_keep_listing [OF assms]
  by (auto simp: server_lists_def new_tcp_server_def ran_def dest!: protocol_map_ran)

lemma served_room_moves:
  assumes "server_step js (ts_protocols srv) s l s'" and "l \<noteq> Shared_change" and "server_lists mid srv"
  shows "room_moves mid (shared s) (shared s')"
  using server_step_shared [OF assms(1,2)]
proof
  assume "\<exists>request. shared s' = snd (dispatch (ts_protocols srv) request (shared s))"
  then obtain request where "shared s' = snd (dispatch (ts_protocols srv) request (shared s))" by blast
  with assms(3) show ?thesis
    by (auto simp: dispatch_def Let_def server_lists_def keeps_listing_def ran_def split: option.split)
qed simp

section \<open>What holds of the site\<close>

definition center_lists :: "string \<Rightarrow> center \<Rightarrow> bool" where
  "center_lists mid c \<longleftrightarrow>
     c_machine_id c = mid \<and> (\<forall>h \<in> set (c_custom c). keeps_listing mid h) \<and> hook_keeps_listing mid (c_hook c)
   \<and> (\<forall>srv. c_slot c = Some srv \<longrightarrow> server_lists mid srv)"

definition service_lists :: "string \<Rightarrow> service \<Rightarrow> bool" where
  "service_lists mid v \<longleftrightarrow> (\<forall>srv. sv_task v = Running srv \<longrightarrow> server_lists mid srv)"

abbreviation listed :: "'m site \<Rightarrow> player_info list" where
  "listed s \<equiv> players (room_roster (c_room (st_center s)))"

definition site_lists :: "string \<Rightarrow> 'm site \<Rightarrow> bool" where
  "site_lists mid s \<longleftrightarrow>
     center_lists mid (st_center s) \<and> (\<forall>v \<in> set (st_services s). service_lists mid v) \<and> list_ok mid (listed s)"

definition site_moves :: "string \<Rightarrow> 'm site \<Rightarrow> 'm site \<Rightarrow> bool" where
  "site_moves mid s t \<longleftrightarrow>
     (site_lists mid s \<longrightarrow> site_lists mid t \<and> (host_in mid (listed s) \<longrightarrow> host_in mid (listed t)))"

fun listed_post :: "string \<Rightarrow> center_result \<Rightarrow> 'm site \<Rightarrow> bool" where
  "listed_post mid (Started (Inr _)) s = host_in mid (listed s)"
| "listed_post mid _ s = True"

interpretation listing: task_relation "site_lists mid" "site_moves mid" "listed_post mid" for mid
  by unfold_locales (auto simp: site_moves_def)

lemma site_moves_center:
  assumes "center_lists mid (st_center s) \<Longrightarrow> center_lists mid c'"
    and "room_moves mid (c_room (st_center s)) (c_room c')"
  shows "site_moves mid s (s\<lparr>st_center := c', st_world := m\<rparr>)" and "site_moves mid s (s\<lparr>st_center := c'\<rparr>)"
  using assms by (auto simp: site_moves_def site_lists_def room_moves_def list_moves_def)

lemma site_moves_on_center:
  assumes "center_lists mid (st_center s) \<Longrightarrow> center_lists mid (f (st_center s))"
    and "room_moves mid (c_room (st_center s)) (c_room (f (st_center s)))"
  shows "site_moves mid s (on_center f s)"
  unfolding on_center_def by (rule site_moves_center(2) [OF assms])

lemma site_moves_world [simp]: "site_moves mid s (s\<lparr>st_world := m\<rparr>)"
  by (simp add: site_moves_def site_lists_def)

lemma site_moves_service:
  assumes "site_lists mid s \<Longrightarrow> service_lists mid v"
  shows "site_moves mid s (s\<lparr>st_services := (st_services s)[n := v]\<rparr>)"
  using assms set_update_subset_insert [of "st_services s" n v]
  by (auto simp: site_moves_def site_lists_def)

lemma service_lists_cancel [simp]: "service_lists mid v \<Longrightarrow> service_lists mid (cancel_service ct v)"
  by (auto simp: service_lists_def cancel_service_def server_lists_def split: serve_task.splits if_splits)

lemma site_moves_cancel [simp]: "site_moves mid s (cancel_token env ct s)"
  by (simp add: site_moves_def site_lists_def)

lemma site_moves_cancel_kept [simp]: "site_moves mid s (cancel_kept env s)"
  by (auto simp: site_moves_def site_lists_def cancel_kept_def center_lists_def split: option.split)

lemma site_moves_over [simp]: "site_moves mid s (service_over n s)"
  unfolding service_over_def by (rule site_moves_service) (simp add: service_lists_def)

lemma site_moves_sleep [simp]: "site_moves mid s (sleep_200 env s)"
  by (simp add: sleep_200_def)

lemma site_moves_spawn [simp]: "site_moves mid s (spawn_service ct s)"
  by (auto simp: site_moves_def site_lists_def spawn_service_def service_lists_def)

lemma site_moves_open:
  assumes "hook_keeps_listing mid hook"
  shows "site_moves mid s (open_server env port hook s)"
  unfolding open_server_def using assms
  by (intro site_moves_on_center) (auto simp: center_lists_def intro: new_tcp_server_lists)

lemma bind_server_lists: "bind_server b srv = (r, srv') \<Longrightarrow> ts_protocols srv' = ts_protocols srv"
  by (auto simp: bind_server_def split: if_splits sum.splits)

lemma server_lists_more [simp]:
  "server_lists mid (stop_server srv) = server_lists mid srv" "server_lists mid (srv\<lparr>ts_state := st\<rparr>) = server_lists mid srv"
  by (simp_all add: server_lists_def stop_server_def)

lemma begin_service_lists:
  assumes "begin_service env n srv s = (r, t)" and "server_lists mid srv"
  shows "site_moves mid s t" and "r = Inl srv' \<Longrightarrow> server_lists mid srv'"
proof -
  have "site_moves mid s t \<and> (r = Inl srv' \<longrightarrow> server_lists mid srv')"
  proof (cases "ts_listening srv")
    case True
    with assms show ?thesis by (auto simp: begin_service_def listing.moves_refl)
  next
    case False
    let ?ct = "sv_token (st_services s ! n)"
    obtain bound m where b: "ce_bind env (ts_port srv) (st_world s) = (bound, m)" by fastforce
    obtain q srv1 where q: "bind_server bound srv = (q, srv1)" by fastforce
    have lists: "server_lists mid srv1" using assms(2) bind_server_lists [OF q] by (simp add: server_lists_def)
    show ?thesis
    proof (cases q)
      case (Inl e)
      with assms False b q have "t = cancel_token env ?ct (s\<lparr>st_world := m\<rparr>)" "r = Inl (stop_server srv1)"
        by (simp_all add: begin_service_def Let_def)
      then show ?thesis using lists listing.moves_trans [OF site_moves_world site_moves_cancel] by auto
    next
      case (Inr u)
      let ?srv = "srv1\<lparr>ts_state := renew_server (st_cancelled s ?ct) (ts_state srv1)\<rparr>"
      let ?u = "s\<lparr>st_world := m\<rparr>"
      have t: "t = ?u\<lparr>st_services := (st_services ?u)[n := \<lparr>sv_token = ?ct, sv_task = Running ?srv\<rparr>]\<rparr>" "r = Inr ()"
        using assms False b q Inr by (simp_all add: begin_service_def Let_def)
      have "site_moves mid ?u t"
        unfolding t using lists by (intro site_moves_service) (simp add: service_lists_def)
      then show ?thesis using t(2) listing.moves_trans [OF site_moves_world] by auto
    qed
  qed
  then show "site_moves mid s t" and "r = Inl srv' \<Longrightarrow> server_lists mid srv'" by auto
qed

lemma outside_lists:
  assumes "site_outside env s t"
  shows "site_moves mid s t"
  using assms
proof cases
  case (served n srv l st)
  let ?u = "s\<lparr>st_services := (st_services s)[n := (st_services s ! n)\<lparr>sv_task := Running (srv\<lparr>ts_state := st\<rparr>)\<rparr>]\<rparr>"
  have lists: "server_lists mid srv" if "site_lists mid s"
    using that served(2,3) nth_mem [OF served(2)] by (auto simp: site_lists_def service_lists_def)
  show ?thesis
  proof (cases "site_lists mid s")
    case True
    have "site_moves mid s ?u"
      using lists by (intro site_moves_service) (simp add: service_lists_def)
    moreover have "site_moves mid ?u t"
      unfolding served(1) using served_room_moves [OF served(6,4) lists [OF True]]
      by (intro site_moves_on_center) (simp_all add: center_lists_def)
    ultimately show ?thesis by (rule listing.moves_trans)
  qed (simp add: site_moves_def)
next
  case (wound_up srv l st)
  show ?thesis
  proof (cases "site_lists mid s")
    case True
    then have "server_lists mid srv" using wound_up(2) by (simp add: site_lists_def center_lists_def)
    with served_room_moves [OF wound_up(5,4)] show ?thesis
      unfolding wound_up(1) by (intro site_moves_on_center) (simp_all add: center_lists_def)
  qed (simp add: site_moves_def)
qed (auto intro!: site_moves_on_center simp: center_lists_def)

section \<open>The programs\<close>

lemma listing_put_c:
  assumes "\<And>c. center_lists mid c \<Longrightarrow> center_lists mid (f c)" and "\<And>c. room_moves mid (c_room c) (c_room (f c))"
    and "listing.ok_after mid s p"
  shows "listing.ok_after mid s (put_c f p)"
  unfolding put_c_def using assms by (intro listing.ok_put_any site_moves_on_center) blast+

lemma listing_locked_c:
  assumes "\<And>c m a c' m'. f c m = (a, c', m') \<Longrightarrow>
      (center_lists mid c \<longrightarrow> center_lists mid c') \<and> room_moves mid (c_room c) (c_room c')"
    and "\<And>a. listing.ok_after mid s (k a)"
  shows "listing.ok_after mid s (locked_c f k)"
  unfolding locked_c_def
proof (rule listing.ok_call_any [OF _ assms(2)])
  fix t u :: "'a site" and a
  assume step: "(case f (st_center t) (st_world t) of (a, c, m) \<Rightarrow> (a, t\<lparr>st_center := c, st_world := m\<rparr>)) = (a, u)"
  then obtain c and m :: 'a where "f (st_center t) (st_world t) = (a, c, m)" "u = t\<lparr>st_center := c, st_world := m\<rparr>"
    by (auto split: prod.splits)
  with assms(1) [of "st_center t" "st_world t"] show "site_moves mid t u" by (auto intro: site_moves_center)
qed

lemma listing_notify: "listing.ok_after mid s p \<Longrightarrow> listing.ok_after mid s (notify_task p)"
  unfolding notify_task_def
  by (intro listing_locked_c listing_put_c)
    (auto simp: center_lists_def center_get_players_def room_players_def send_players_def room_moves_def Let_def split: prod.splits)

lemma listing_write:
  assumes "\<And>l. list_moves mid l (f l)" and "listing.ok_after mid s p"
  shows "listing.ok_after mid s (put_c (write_players f) (notify_task p))"
  using assms by (intro listing_put_c listing_notify) (simp_all add: center_lists_def write_players_def room_moves_def Let_def)

lemma listing_list_host:
  "listing.ok_after mid s (list_host_task (Done (Started (Inr ()))))"
  unfolding list_host_task_def look_c_def put_c_def
proof (intro listing.ok_look_any listing.ok_put_state conjI)
  fix node_id :: "string option" and t :: "'a site"
  assume "site_lists mid t"
  then have mid: "c_machine_id (st_center t) = mid" by (simp add: site_lists_def center_lists_def)
  let ?u = "on_center (push_host node_id) t"
  have pushed: "list_moves mid (listed t) (listed ?u) \<and> host_in mid (listed ?u)"
    using mid by (simp add: push_host_def host_player_def list_moves_push Let_def)
  then show "site_moves mid t ?u"
    by (intro site_moves_on_center) (simp_all add: center_lists_def push_host_def room_moves_def Let_def)
  with \<open>site_lists mid t\<close> have "site_lists mid ?u" by (simp add: site_moves_def)
  then have "listing.ok_after mid ?u (Done (Started (Inr ())))"
    using pushed by (intro listing.ok_Done) (simp add: site_moves_def)
  then show "listing.ok_after mid ?u (notify_task (Done (Started (Inr ()))))" by (rule listing_notify)
qed

lemma listing_start: "listing.ok_after mid s (start_task env ct (\<lambda>r. Done (Started r)))"
proof -
  have network: "listing.ok_after mid s (start_network_task env port (\<lambda>r. Done (Started r)))" for s :: "'a site" and port
    unfolding start_network_task_def
    by (intro listing.ok_look_any listing.ok_try_call_any)
      (auto intro!: listing_list_host listing.ok_Done listing.moves_trans [OF site_moves_world site_moves_on_center]
        simp: center_lists_def split: sum.split option.splits)
  have opened: "listing.ok_after mid s (look c_hook' (\<lambda>hook. put (open_server env port hook)
      (put_c (\<lambda>c. c\<lparr>c_server_ct := Some ct\<rparr>) (put (spawn_service ct) (put (sleep_200 env)
        (start_network_task env port (\<lambda>r. Done (Started r))))))))"
    if "c_hook' = (\<lambda>s. c_hook (st_center s))" for s :: "'a site" and port c_hook'
    unfolding that
    by (intro listing.ok_look_state listing.ok_put_any listing_put_c network site_moves_open)
      (auto simp: site_lists_def center_lists_def)
  show ?thesis
    unfolding start_task_def look_c_def
    by (intro listing.ok_look_any listing_put_c)
      (auto simp: center_lists_def intro!: listing.ok_Done opened split: sum.split)
qed

lemma listing_serve: "listing.ok_after mid s (run_server_task env n (Done Served))"
  unfolding run_server_task_def locked_c_def
proof (rule listing.ok_call_state)
  fix t u :: "'a site" and slot
  assume t: "site_moves mid s t" "site_lists mid t"
    and step: "(case (c_slot (st_center t), (st_center t)\<lparr>c_slot := None\<rparr>, st_world t) of
        (a, c, m) \<Rightarrow> (a, t\<lparr>st_center := c, st_world := m\<rparr>)) = (slot, u)"
  then have u: "slot = c_slot (st_center t)" "u = t\<lparr>st_center := (st_center t)\<lparr>c_slot := None\<rparr>, st_world := st_world t\<rparr>"
    by auto
  have moved: "site_moves mid t u" unfolding u by (rule site_moves_center) (simp_all add: center_lists_def)
  have put_back: "listing.ok_after mid v (put_back (Some srv) (Done Served))" if "server_lists mid srv" for v :: "'a site" and srv
    unfolding put_back_def using that by (intro listing_put_c listing.ok_Done) (simp_all add: center_lists_def)
  have loop: "listing.ok_after mid v (accept_loop n (Done Served))" for v :: "'a site"
    unfolding accept_loop_def
  proof (rule listing.ok_try_call_state)
    fix w x :: "'a site" and srv
    assume w: "site_lists mid w" and e: "end_service n w = Some (srv, x)"
    from e have n: "n < length (st_services w)" "sv_task (st_services w ! n) = Running srv"
      "x = w\<lparr>st_services := (st_services w)[n := (st_services w ! n)\<lparr>sv_task := Over\<rparr>]\<rparr>"
      by (auto simp: end_service_def split: if_splits serve_task.splits)
    from w n(2) nth_mem [OF n(1)] have "server_lists mid srv" by (auto simp: site_lists_def service_lists_def)
    moreover have "site_moves mid w x" unfolding n(3) by (rule site_moves_service) (simp add: service_lists_def)
    ultimately show "site_moves mid w x \<and> listing.ok_after mid x (put_back (Some (stop_server srv)) (Done Served))"
      using put_back by simp
  qed
  have begun: "listing.ok_after mid u (call (begin_service env n srv) (\<lambda>begun. case begun of
      Inl srv \<Rightarrow> put (service_over n) (put_back (Some srv) (Done Served)) | Inr _ \<Rightarrow> accept_loop n (Done Served)))"
    if "server_lists mid srv" for srv
  proof (rule listing.ok_call_state)
    fix w r and x :: "'a site"
    assume "begin_service env n srv w = (r, x)"
    from begin_service_lists [OF this that] show "site_moves mid w x \<and> listing.ok_after mid x (case r of
        Inl srv \<Rightarrow> put (service_over n) (put_back (Some srv) (Done Served)) | Inr _ \<Rightarrow> accept_loop n (Done Served))"
      by (auto split: sum.split intro!: listing.ok_put_any put_back loop)
  qed
  have none: "listing.ok_after mid u (put (service_over n) (put_back None (Done Served)))"
    unfolding put_back_def by (intro listing.ok_put_any listing_put_c listing.ok_Done) (simp_all add: center_lists_def)
  show "site_moves mid t u \<and> listing.ok_after mid u (case slot of
      None \<Rightarrow> put (service_over n) (put_back None (Done Served))
    | Some srv \<Rightarrow> call (begin_service env n srv) (\<lambda>begun. case begun of
        Inl srv \<Rightarrow> put (service_over n) (put_back (Some srv) (Done Served)) | Inr _ \<Rightarrow> accept_loop n (Done Served)))"
    using moved begun none t(2) u(1) by (auto simp: site_lists_def center_lists_def split: option.split)
qed

lemma listing_close: "listing.ok_after mid s (close_task env (\<lambda>r. Done (Shut r)))"
  unfolding close_task_def put_back_def
  by (intro listing_put_c listing.ok_put_any listing_locked_c listing.ok_Done)
    (auto simp: center_lists_def dest!: stop_effect')

definition listing_may_start :: "string \<Rightarrow> 'm center_pool \<Rightarrow> center_job \<Rightarrow> bool" where
  "listing_may_start mid p j \<longleftrightarrow>
     center_may_start p j \<and> (\<forall>hook. j = Hook_job hook \<longrightarrow> hook_keeps_listing mid (Some hook))"

lemma kick_lists:
  assumes "center_disconnect_machine order m c = (found, c')"
  shows "(center_lists mid c \<longrightarrow> center_lists mid c') \<and> c_room c' = c_room c"
  using assms by (auto simp: center_disconnect_machine_def center_lists_def split: option.splits prod.splits)

lemma listing_program:
  assumes "\<forall>hook. j = Hook_job hook \<longrightarrow> hook_keeps_listing mid (Some hook)"
  shows "listing.ok_after mid s (center_program env j)"
proof (cases j)
  case (Kick_job order m)
  have "(center_lists mid c \<longrightarrow> center_lists mid c') \<and> room_moves mid (c_room c) (c_room c')"
    if "(case center_disconnect_machine order m c of (b, c) \<Rightarrow> (b, c, w)) = (a, c', w')" for c c' a and w w' :: 'a
    using kick_lists [of order m c a c' mid] that by (auto split: prod.splits)
  then show ?thesis unfolding Kick_job center_program.simps by (intro listing_locked_c listing.ok_Done) auto
next
  case (Players_job)
  show ?thesis unfolding Players_job center_program.simps
    by (intro listing_locked_c listing.ok_Done)
      (auto simp: center_get_players_def room_players_def room_moves_def center_lists_def split: prod.splits)
qed (use assms in \<open>auto simp: remove_player_task_def handle_player_ping_task_def look_c_def set_player_ping_handler_def
    center_lists_def list_moves_ping list_moves_leave
    intro!: listing_start listing_serve listing_close listing_write listing.ok_look_any listing_put_c listing_locked_c
      listing.ok_Done split: prod.splits\<close>)

definition new_room_site :: "string \<Rightarrow> 'm site \<Rightarrow> bool" where
  "new_room_site mid s \<longleftrightarrow>
     c_slot (st_center s) = None \<and> st_services s = [] \<and> listed s = [] \<and> c_machine_id (st_center s) = mid
   \<and> (\<forall>h \<in> set (c_custom (st_center s)). keeps_listing mid h) \<and> hook_keeps_listing mid (c_hook (st_center s))"

interpretation listers: cooperation "new_room_site mid" "site_lists mid" "site_moves mid" "listed_post mid"
  "center_program env" "listing_may_start mid" "site_outside env"
  for env :: "('m, 'i, 'u, 'v, 'j) center_env" and mid
proof unfold_locales
  fix s t t' :: "'m site" and p :: "'m center_pool" and j
  show "site_lists mid s" if "new_room_site mid s"
    using that by (simp add: new_room_site_def site_lists_def center_lists_def list_ok_def guest_ids_def)
  show "site_moves mid s t" if "site_outside env s t" using that by (rule outside_lists)
  show "keeps (site_lists mid) (site_moves mid) (listed_post mid) (center_program env j) s" if "listing_may_start mid p j"
    using that unfolding listing_may_start_def
    by (intro listing.ok_keeps [OF listing_program listing.moves_refl]) simp
qed (fact listing.moves_safe listing.moves_refl listing.moves_trans)+

section \<open>Clients served while a start is under way\<close>

text \<open>Steps of the server of the only task that serves.\<close>

lemma served_run:
  assumes "run (server_step (ce_js env) protocols) st ls st'" and "\<forall>l \<in> set ls. l \<noteq> Shared_change \<and> l \<noteq> Cancel_server"
    and "st_services (common p) = [\<lparr>sv_token = ct, sv_task = Running srv\<rparr>]" and "ts_protocols srv = protocols"
    and "(ts_state srv)\<lparr>shared := c_room (st_center (common p))\<rparr> = st"
  shows "\<exists>srv' s. run (pool_step program may_start (site_outside env)) p (replicate (length ls) Outside) (p\<lparr>common := s\<rparr>)
    \<and> st_center s = (st_center (common p))\<lparr>c_room := shared st'\<rparr> \<and> st_world s = st_world (common p)
    \<and> st_services s = [\<lparr>sv_token = ct, sv_task = Running srv'\<rparr>]"
  using assms
proof (induction arbitrary: p srv rule: run.induct)
  case (run_Nil st)
  then have "c_room (st_center (common p)) = shared st" by auto
  then show ?case
    using run_Nil by (intro exI [of _ srv] exI [of _ "common p"]) (simp add: run.run_Nil)
next
  case (run_Cons st l st1 ls st2)
  let ?srv = "srv\<lparr>ts_state := st1\<rparr>"
  let ?s = "on_center (\<lambda>c. c\<lparr>c_room := shared st1\<rparr>)
    ((common p)\<lparr>st_services := (st_services (common p))[0 := (st_services (common p) ! 0)\<lparr>sv_task := Running ?srv\<rparr>]\<rparr>)"
  have "site_outside env (common p) ?s"
    using run_Cons.prems run_Cons.hyps(1) by (intro site_outside.served [where l = l]) simp_all
  then have step: "pool_step program may_start (site_outside env) p Outside (p\<lparr>common := ?s\<rparr>)" by (rule outside)
  have "\<exists>srv' s. run (pool_step program may_start (site_outside env)) (p\<lparr>common := ?s\<rparr>)
        (replicate (length ls) Outside) ((p\<lparr>common := ?s\<rparr>)\<lparr>common := s\<rparr>)
    \<and> st_center s = (st_center (common (p\<lparr>common := ?s\<rparr>)))\<lparr>c_room := shared st2\<rparr>
    \<and> st_world s = st_world (common (p\<lparr>common := ?s\<rparr>)) \<and> st_services s = [\<lparr>sv_token = ct, sv_task = Running srv'\<rparr>]"
    by (rule run_Cons.IH [where srv = ?srv]) (use run_Cons.prems in simp_all)
  then obtain srv' s where "run (pool_step program may_start (site_outside env)) (p\<lparr>common := ?s\<rparr>)
        (replicate (length ls) Outside) (p\<lparr>common := s\<rparr>)"
    "st_center s = (st_center (common p))\<lparr>c_room := shared st2\<rparr>" "st_world s = st_world (common p)"
    "st_services s = [\<lparr>sv_token = ct, sv_task = Running srv'\<rparr>]"
    by auto
  with step show ?case
    using run.run_Cons [where step = "pool_step program may_start (site_outside env)", OF step]
    by (intro exI [of _ srv'] exI [of _ s]) simp
qed

text \<open>A client that connects to a new server and sends one ping.\<close>

definition early_client :: "protocol_request \<Rightarrow> server_label list" where
  "early_client request = [Accept ''10.144.144.9:5000'' ''10.144.144.9'', Conn 0 No_io, Conn 0 No_io, Conn 0 (Read (Inr request))]"

lemma early_client_runs:
  assumes "protocols (request_key request) = Some h"
  shows "\<exists>st. run (server_step js protocols) (new_server t room) (early_client request) st
    \<and> shared st = snd (handle h request room)"
proof -
  let ?step = "server_step js protocols" and ?c = "''10.144.144.9:5000''" and ?ip = "''10.144.144.9''"
  let ?conn = "\<lparr>conn_id = ?c, conn_ip = ?ip, conn_ct = 1, conn_pc = Register_active, conn_served = []\<rparr>"
  let ?s0 = "new_server t room"
  let ?s1 = "accept_client ?c ?ip ?s0"
  let ?s2 = "update_conn 0 (set_pc Register_ip ?conn)
      (?s1\<lparr>registry := (registry ?s1)\<lparr>active_clients := (active_clients (registry ?s1))(?c \<mapsto> 1)\<rparr>\<rparr>)"
  let ?s3 = "update_conn 0 (set_pc Serving (set_pc Register_ip ?conn))
      (?s2\<lparr>registry := (registry ?s2)\<lparr>client_ip := (client_ip (registry ?s2))(?c \<mapsto> ?ip)\<rparr>\<rparr>)"
  let ?s4 = "update_conn 0 (set_pc (Handling request (fst (handle h request room)))
        (set_pc Serving (set_pc Register_ip ?conn))) (?s3\<lparr>shared := snd (handle h request room)\<rparr>)"
  note defs = accept_client_def new_server_def update_conn_def set_pc_def server_token_def
  have 1: "?step ?s0 (Accept ?c ?ip) ?s1" by (rule server_step.accept) (simp_all add: new_server_def)
  have 2: "?step ?s1 (Conn 0 No_io) ?s2" by (rule server_step.conn) (simp_all add: defs)
  have 3: "?step ?s2 (Conn 0 No_io) ?s3" by (rule server_step.conn) (simp_all add: defs)
  have "dispatch protocols request room = handle h request room" using assms by (simp add: dispatch_def)
  then have 4: "?step ?s3 (Conn 0 (Read (Inr request))) ?s4"
    by (intro server_step.conn) (simp_all add: defs split: prod.split)
  have "run ?step ?s0 (early_client request) ?s4"
    unfolding early_client_def
    by (rule run_Cons [where step = ?step, OF 1 run_Cons [where step = ?step, OF 2
        run_Cons [where step = ?step, OF 3 run_Cons [where step = ?step, OF 4 run_Nil]]]])
  then show ?thesis by (intro exI [of _ ?s4]) (simp add: update_conn_def)
qed

text \<open>A start during whose sleep such a client is served: its entry is on the list before the host's.\<close>

lemma early_ping_run:
  assumes "check_keys standard_keys (c_custom c) = Inr ()" and "c_hook c = None"
    and "ce_bind env (scan_port (ce_bindable env m)) m = (Inr q, m1)"
    and "m2 = lib_sleep (ce_lib env) 200 m1"
    and "start (ce_lib env) (center_config (c\<lparr>c_tcp_port := scan_port (ce_bindable env m)\<rparr>) (ce_system env m2))
           (c_easy_tier c) m2 = Some (Inr (), mgr, m3)"
    and "players (room_roster (c_room c)) = []" and "obtains_lock (lock_outcomes (c_room c) (lock_calls (c_room c)))"
    and "request_key request = ''c:player_ping''" and "parse_player_info (ce_js env) (req_body request) = Inr info"
  shows "\<exists>ls p'. run (center_pool_step env) \<lparr>tasks = [], common = site_of c m\<rparr> ls p'
    \<and> tasks p' = [(Start_job ct, Done (Started (Inr ()))), (Serve_job 0, accept_loop 0 (Done Served))]
    \<and> listed (common p') = [info\<lparr>pi_kind := Guest\<rparr>, host_player (c\<lparr>c_easy_tier := mgr\<rparr>)]"
proof -
  let ?step = "center_pool_step env"
  let ?port = "scan_port (ce_bindable env m)"
  let ?rest = "put (sleep_200 env) (start_network_task env ?port (\<lambda>r. Done (Started r)))"
  let ?p = "\<lambda>s. \<lparr>tasks = [(Start_job ct, ?rest), (Serve_job 0, accept_loop 0 (Done Served))], common = s\<rparr>"
  let ?map = "center_map (ce_js env) (c_hook c) (c_minecraft_port c) (c_custom c)"
  obtain ls s srv where begun: "run ?step \<lparr>tasks = [], common = site_of c m\<rparr> ls (?p s)"
    and s: "c_task (whole s) = Running srv" "map sv_token (st_services s) = [ct]" "st_world s = m1"
    and whole: "c_easy_tier (whole s) = c_easy_tier c" "c_tcp_port (whole s) = ?port"
      "\<forall>sys. center_config (whole s) sys = center_config (c\<lparr>c_tcp_port := ?port\<rparr>) sys"
      "ts_state srv = new_server (lib_now (ce_lib env) m) (c_room c)" "ts_protocols srv = ?map"
      "c_room (whole s) = c_room c" "\<forall>mgr. host_player ((whole s)\<lparr>c_easy_tier := mgr\<rparr>) = host_player (c\<lparr>c_easy_tier := mgr\<rparr>)"
    using start_sleeps [OF assms(1,3), of ct] by (elim exE conjE)
  from s(1,2) have services: "st_services s = [\<lparr>sv_token = ct, sv_task = Running srv\<rparr>]"
    by (cases "st_services s") (auto simp: whole_def)
  have same: "c_room (st_center s) = c_room c" "c_tcp_port (st_center s) = ?port"
    using whole(2,6) by (simp_all add: whole_def)
  obtain st where early: "run (server_step (ce_js env) ?map) (new_server (lib_now (ce_lib env) m) (c_room c)) (early_client request) st"
    and st: "shared st = handle_player_ping info (c_room c)"
    using early_client_runs [of ?map request "player_ping_protocol (ce_js env) (\<lambda>info r. (True, handle_player_ping info r))"]
      center_map_standard(3) [OF assms(1), of "ce_js env" "c_hook c" "c_minecraft_port c"] assms(2,8,9)
    by (force simp: handle_player_ping)
  have "\<exists>srv' t. run ?step (?p s) (replicate (length (early_client request)) Outside) ((?p s)\<lparr>common := t\<rparr>)
    \<and> st_center t = (st_center (common (?p s)))\<lparr>c_room := shared st\<rparr> \<and> st_world t = st_world (common (?p s))
    \<and> st_services t = [\<lparr>sv_token = ct, sv_task = Running srv'\<rparr>]"
    by (rule served_run [OF early, where srv = srv]) (simp_all add: early_client_def services whole same new_server_def)
  then obtain srv' t where pinged: "run ?step (?p s) (replicate (length (early_client request)) Outside) (?p t)"
    and t: "st_center t = (st_center s)\<lparr>c_room := shared st\<rparr>" "st_world t = m1"
      "st_services t = [\<lparr>sv_token = ct, sv_task = Running srv'\<rparr>]"
    using s(3) by auto
  have "whole t = (whole s)\<lparr>c_room := shared st, c_task := Running srv'\<rparr>"
    using s(2) by (cases "st_services s") (simp_all add: whole_def t)
  with whole have t_whole: "c_easy_tier (whole t) = c_easy_tier c" "c_room (whole t) = handle_player_ping info (c_room c)"
    "\<forall>sys. center_config (whole t) sys = center_config (c\<lparr>c_tcp_port := ?port\<rparr>) sys"
    "host_player ((whole t)\<lparr>c_easy_tier := mgr\<rparr>) = host_player (c\<lparr>c_easy_tier := mgr\<rparr>)"
    by (simp_all add: st center_config_def host_player_def)
  let ?c = "(whole t)\<lparr>c_easy_tier := mgr\<rparr>"
  have "start_network env (whole t) (lib_sleep (ce_lib env) 200 (st_world t)) =
      Some (Inr (), ?c\<lparr>c_room := add_host (host_player ?c) (c_room ?c)\<rparr>, m3)"
    using assms(4,5) t_whole by (simp add: start_network_def t Let_def)
  then obtain k u where started: "run ?step (?p t) (replicate k (Turn 0))
        \<lparr>tasks = [(Start_job ct, Done (Started (Inr ()))), (Serve_job 0, accept_loop 0 (Done Served))], common = u\<rparr>"
      and u: "whole u = ?c\<lparr>c_room := add_host (host_player ?c) (c_room ?c)\<rparr>"
    using started_after_spawn [of "?p t" ct env ?port "(Serve_job 0, accept_loop 0 (Done Served))" "Inr ()"]
      t(1) same(2) by fastforce
  have "c_room (st_center u) = add_host (host_player (c\<lparr>c_easy_tier := mgr\<rparr>)) (handle_player_ping info (c_room c))"
    using arg_cong [OF u, of c_room] t_whole by (simp add: whole_def)
  then have "listed u = [info\<lparr>pi_kind := Guest\<rparr>, host_player (c\<lparr>c_easy_tier := mgr\<rparr>)]"
    using assms(6,7) by (simp add: add_host_def handle_player_ping_def players_ping ping_section_def position_None)
  with run_append [OF begun run_append [OF pinged started]] show ?thesis by fastforce
qed

text \<open>A pool in which only jobs of one kind were started.\<close>

lemma reach_restricted:
  assumes "reach init (pool_step program may_start outside) p"
    and "\<And>q j. j \<in> fst ` set (tasks p) \<Longrightarrow> may_start q j \<Longrightarrow> may_start' q j"
  shows "reach init (pool_step program may_start' outside) p"
  using assms
proof (induction rule: reach.induct)
  case (reach_init p)
  then show ?case by (auto intro: reach.reach_init)
next
  case (reach_step p l p')
  have jobs: "fst ` set (tasks p) \<subseteq> fst ` set (tasks p')"
    using reach_step.hyps(2)
  proof (cases rule: pool_step.cases)
    case (turn i j u k s)
    then have "map fst (tasks p') = map fst (tasks p)" by (simp add: map_update list_update_same_conv)
    then show ?thesis by (metis list.set_map order_refl)
  qed auto
  then have "reach init (pool_step program may_start' outside) p" using reach_step by blast
  moreover have "pool_step program may_start' outside p l p'"
    using reach_step.hyps(2)
  proof (cases rule: pool_step.cases)
    case (start j)
    then show ?thesis using reach_step.prems by (auto intro: pool_step.start)
  qed (auto intro: pool_step.intros)
  ultimately show ?case by (rule reach.reach_step)
qed

section \<open>Properties\<close>

text \<open>
  C3: from before the start of a new centre on, whatever clients connect, send and disconnect and
  whatever the owner calls, in every interleaving with the start itself, other starts and closes, at
  most one guest has each machine id and nobody but the owner is listed as host; and once a start has
  returned successfully the owner is on the list as host, for good.  The hooks and the custom protocols
  are taken to keep to this themselves.  (A guest entry with the owner's machine id is possible, see
  \<open>early_ping_doubles_host\<close>.)
\<close>

theorem host_listed_while_open:
  assumes "reach (\<lambda>p. tasks p = [] \<and> new_room_site mid (common p)) (center_pool_step env) p"
    and "\<forall>hook. Hook_job hook \<in> fst ` set (tasks p) \<longrightarrow> hook_keeps_listing mid (Some hook)"
  shows "distinct (guest_ids (listed (common p)))
    \<and> (\<forall>q \<in> set (listed (common p)). pi_kind q = Host \<longrightarrow> pi_machine_id q = mid)
    \<and> ((Start_job ct, Done (Started (Inr ()))) \<in> set (tasks p) \<longrightarrow>
         (\<exists>q \<in> set (listed (common p)). pi_machine_id q = mid \<and> pi_kind q = Host))"
proof -
  have reach: "reach (\<lambda>p. tasks p = [] \<and> new_room_site mid (common p))
      (pool_step (center_program env) (listing_may_start mid) (site_outside env)) p"
    by (rule reach_restricted [OF assms(1)]) (use assms(2) in \<open>unfold listing_may_start_def, blast\<close>)
  then have "site_lists mid (common p)" by (rule listers.reached(1))
  moreover have "listed_post mid (Started (Inr ())) (common p)" if "(Start_job ct, Done (Started (Inr ()))) \<in> set (tasks p)"
    using reach that by (rule listers.reached(2))
  ultimately show ?thesis by (simp add: site_lists_def list_ok_def host_in_def)
qed

text \<open>A request whose body the sample reader takes as the machine id.\<close>

definition sample_ping :: "string \<Rightarrow> protocol_request" where
  "sample_ping mid = \<lparr> namespace = ''c'', request_type = ''player_ping'', req_body = into_bytes mid \<rparr>"

lemma sample_ping_run:
  assumes "parse_player_info body_json (into_bytes mid) = Inr info"
  shows "\<exists>ls p'. run (center_pool_step sample_center_env) \<lparr>tasks = [], common = site_of sample_center sample_world\<rparr> ls p'
    \<and> tasks p' = [(Start_job 7, Done (Started (Inr ()))), (Serve_job 0, accept_loop 0 (Done Served))]
    \<and> (\<exists>h. listed (common p') = [info\<lparr>pi_kind := Guest\<rparr>, h] \<and> pi_machine_id h = ''h1'' \<and> pi_kind h = Host)"
proof -
  let ?port = "scan_port (ce_bindable sample_center_env sample_world)"
  let ?m = "lib_sleep (ce_lib sample_center_env) 200 sample_world"
  let ?config = "center_config (sample_center\<lparr>c_tcp_port := ?port\<rparr>) (ce_system sample_center_env ?m)"
  have "is_ok (build_toml_config (sample_lib True) ?config)"
    by (rule sample_config_ok) (simp add: center_config_def default_network_config_def)
  then obtain mgr m3 where start: "start (ce_lib sample_center_env) ?config (c_easy_tier sample_center) ?m = Some (Inr (), mgr, m3)"
    using sample_start [of ?config new_manager ?m] by (auto simp: new_manager_def)
  have "obtains_lock (lock_outcomes (c_room sample_center) (lock_calls (c_room sample_center)))"
    by (simp add: new_room_def obtains_lock_iff lock_retry_limit_def)
  moreover have "request_key (sample_ping mid) = ''c:player_ping''" "req_body (sample_ping mid) = into_bytes mid"
    by (simp_all add: sample_ping_def request_key_def)
  moreover have "ce_js sample_center_env = body_json" by (simp add: sample_center_env_def)
  ultimately show ?thesis
    using early_ping_run [OF _ _ sample_center_env_sel(3) refl start, of "sample_ping mid" info 7] assms
    by (fastforce simp: host_player_def)
qed

theorem host_listed_while_open_witness:
  "\<exists>ls p. run (center_pool_step sample_center_env) \<lparr>tasks = [], common = site_of sample_center sample_world\<rparr> ls p
    \<and> guest_ids (listed (common p)) = [''g9'']
    \<and> (\<exists>q \<in> set (listed (common p)). pi_machine_id q = ''h1'' \<and> pi_kind q = Host)"
proof -
  have "parse_player_info body_json (into_bytes ''g9'') = Inr \<lparr>pi_name = [], pi_machine_id = ''g9'',
      pi_easytier_id = None, pi_vendor = [], pi_kind = Host\<rparr>"
    by (simp add: parse_player_info_def body_json_def str_or_def value_to_string_def)
  from sample_ping_run [OF this] obtain ls p where p:
    "run (center_pool_step sample_center_env) \<lparr>tasks = [], common = site_of sample_center sample_world\<rparr> ls p"
    "tasks p = [(Start_job 7, Done (Started (Inr ()))), (Serve_job 0, accept_loop 0 (Done Served))]"
    "guest_ids (listed (common p)) = [''g9'']"
    by (auto simp: guest_ids_def)
  have "reach (\<lambda>p. tasks p = [] \<and> new_room_site ''h1'' (common p)) (center_pool_step sample_center_env) p"
    by (rule reach_run [OF p(1) reach_init]) (simp add: new_room_site_def site_of_def hook_keeps_listing_def)
  from host_listed_while_open [OF this, of 7] p show ?thesis by auto
qed

text \<open>
  C30: The host is put on the list without looking whether its machine id is there.  When a client pings
  with that id while \<open>start\<close> sleeps, the room ends with two entries of the id, a guest first and the host
  second.
\<close>

theorem early_ping_doubles_host:
  assumes "check_keys standard_keys (c_custom c) = Inr ()" and "c_hook c = None"
    and "ce_bind env (scan_port (ce_bindable env m)) m = (Inr q, m1)"
    and "m2 = lib_sleep (ce_lib env) 200 m1"
    and "start (ce_lib env) (center_config (c\<lparr>c_tcp_port := scan_port (ce_bindable env m)\<rparr>) (ce_system env m2))
           (c_easy_tier c) m2 = Some (Inr (), mgr, m3)"
    and "players (room_roster (c_room c)) = []" and "obtains_lock (lock_outcomes (c_room c) (lock_calls (c_room c)))"
    and "request_key request = ''c:player_ping''" and "parse_player_info (ce_js env) (req_body request) = Inr info"
    and "pi_machine_id info = c_machine_id c"
  shows "\<exists>ls p'. run (center_pool_step env) \<lparr>tasks = [], common = site_of c m\<rparr> ls p'
    \<and> (Start_job ct, Done (Started (Inr ()))) \<in> set (tasks p')
    \<and> map (\<lambda>p. (pi_machine_id p, pi_kind p)) (listed (common p')) = [(c_machine_id c, Guest), (c_machine_id c, Host)]"
proof -
  from early_ping_run [OF assms(1-9), of ct] show ?thesis
    using assms(10) by (fastforce simp: host_player_def)
qed

theorem early_ping_doubles_host_witness:
  "\<exists>ls p'. run (center_pool_step sample_center_env) \<lparr>tasks = [], common = site_of sample_center sample_world\<rparr> ls p'
    \<and> map (\<lambda>p. (pi_machine_id p, pi_kind p)) (listed (common p')) = [(''h1'', Guest), (''h1'', Host)]"
proof -
  let ?port = "scan_port (ce_bindable sample_center_env sample_world)"
  let ?m = "lib_sleep (ce_lib sample_center_env) 200 sample_world"
  let ?config = "center_config (sample_center\<lparr>c_tcp_port := ?port\<rparr>) (ce_system sample_center_env ?m)"
  have "is_ok (build_toml_config (sample_lib True) ?config)"
    by (rule sample_config_ok) (simp add: center_config_def default_network_config_def)
  then obtain mgr m3 where start: "start (ce_lib sample_center_env) ?config (c_easy_tier sample_center) ?m = Some (Inr (), mgr, m3)"
    using sample_start [of ?config new_manager ?m] by (auto simp: new_manager_def)
  have "obtains_lock (lock_outcomes (c_room sample_center) (lock_calls (c_room sample_center)))"
    by (simp add: new_room_def obtains_lock_iff lock_retry_limit_def)
  moreover have "request_key (sample_ping ''h1'') = ''c:player_ping''" by (simp add: sample_ping_def request_key_def)
  moreover have "parse_player_info (ce_js sample_center_env) (req_body (sample_ping ''h1'')) = Inr \<lparr>pi_name = [],
      pi_machine_id = ''h1'', pi_easytier_id = None, pi_vendor = [], pi_kind = Host\<rparr>"
    by (simp add: parse_player_info_def body_json_def str_or_def value_to_string_def sample_ping_def sample_center_env_def)
  ultimately show ?thesis
    using early_ping_doubles_host [OF _ _ sample_center_env_sel(3) refl start, of "sample_ping ''h1''" _ 7] by fastforce
qed

end
