(* ===== verification/Town.thy ===== *)
theory Town
  imports Room_Session
begin

text \<open>
  A world for the concrete instances that span the whole program: EasyTier instances that run until
  they are deleted, a clock, cancelled tokens, a network on which one centre advertises itself, and a
  link to the handlers of that centre.  A guest joins its room here, and asks it for what it needs.
\<close>

section \<open>The world\<close>

record town = "center_room link" +
  tw_running :: "nat list"
  tw_next :: nat
  tw_clock :: nat
  tw_cancelled :: "nat list"

definition new_town :: town where
  "new_town =
     \<lparr> link_inbox = [], link_shared = link_shared sample_link,
       tw_running = [], tw_next = 0, tw_clock = 0, tw_cancelled = [] \<rparr>"

definition town_lib :: "(town, string, string, string) easytier_lib" where
  "town_lib =
     \<lparr> lib_parse_inet = Some, lib_parse_url = Some, lib_parse_v6 = (\<lambda>_. None),
       lib_parse_peer = (\<lambda>s. case parse_uint (2 ^ 32 - 1) s of Some n \<Rightarrow> Inr n | None \<Rightarrow> Inl []),
       lib_run = (\<lambda>_ m. (Inr (tw_next m),
                         m\<lparr>tw_running := tw_next m # tw_running m, tw_next := Suc (tw_next m)\<rparr>)),
       lib_delete = (\<lambda>i m. (Inr (), m\<lparr>tw_running := removeAll i (tw_running m)\<rparr>)),
       lib_instance = (\<lambda>i m. i \<in> set (tw_running m)),
       lib_ready = (\<lambda>_ _. True), lib_peer_id = (\<lambda>i _. i), lib_ipv4 = (\<lambda>_ _. None),
       lib_routes = (\<lambda>_ _. [\<lparr>rt_ipv4 = Some 0x0A909001, rt_hostname = advertised_hostname 25000, rt_peer_id = 1\<rparr>]),
       lib_disconnect = (\<lambda>_ _ m. (Inr (), m)),
       lib_deny = (\<lambda>_ _ m. (Inr (), m)), lib_allow = (\<lambda>_ _ m. m),
       lib_patch = (\<lambda>_ _ m. (Inr (), m)),
       lib_sleep = (\<lambda>d m. m\<lparr>tw_clock := tw_clock m + d\<rparr>), lib_now = tw_clock \<rparr>"

definition town_engine :: regex_engine where
  "town_engine pat s = (if pat = hostname_pattern then hostname_engine pat s else room_engine pat s)"

definition town_center_env :: "(town, string, string, string, string \<rightharpoonup> string) center_env" where
  "town_center_env =
     \<lparr> ce_lib = town_lib, ce_js = sample_json, ce_bindable = (\<lambda>_ _. True),
       ce_bind = (\<lambda>p m. (Inr p, m)), ce_cancel = (\<lambda>ct m. m\<lparr>tw_cancelled := ct # tw_cancelled m\<rparr>),
       ce_system = (\<lambda>_. bare_system) \<rparr>"

definition town_guest_env :: "(town, string, string, string, string \<rightharpoonup> string) guest_env" where
  "town_guest_env =
     \<lparr> env_lib = town_lib, env_net = link_net (center_map sample_json None 25565 []), env_rx = town_engine,
       env_js = sample_json, env_ping_body = (\<lambda>_ _ _ _. Inr [1]),
       env_wait = (\<lambda>ct d m. (ct \<in> set (tw_cancelled m), m\<lparr>tw_clock := tw_clock m + d\<rparr>)),
       env_is_cancelled = (\<lambda>ct m. ct \<in> set (tw_cancelled m)),
       env_cancel = (\<lambda>ct m. m\<lparr>tw_cancelled := ct # tw_cancelled m\<rparr>),
       env_free_port = (\<lambda>m. (40000, m)), env_system = (\<lambda>_. bare_system) \<rparr>"

lemma town_sel [simp]:
  "lib_run town_lib c m = (Inr (tw_next m), m\<lparr>tw_running := tw_next m # tw_running m, tw_next := Suc (tw_next m)\<rparr>)"
  "lib_delete town_lib i m = (Inr (), m\<lparr>tw_running := removeAll i (tw_running m)\<rparr>)"
  "lib_instance town_lib i m \<longleftrightarrow> i \<in> set (tw_running m)" "lib_ready town_lib i m"
  "lib_routes town_lib i m = [\<lparr>rt_ipv4 = Some 0x0A909001, rt_hostname = advertised_hostname 25000, rt_peer_id = 1\<rparr>]"
  "lib_sleep town_lib d m = m\<lparr>tw_clock := tw_clock m + d\<rparr>" "lib_now town_lib m = tw_clock m"
  "ce_lib town_center_env = town_lib" "ce_bind town_center_env p m = (Inr p, m)"
  "ce_cancel town_center_env ct m = m\<lparr>tw_cancelled := ct # tw_cancelled m\<rparr>"
  "env_lib town_guest_env = town_lib" "env_net town_guest_env = link_net (center_map sample_json None 25565 [])"
  "env_rx town_guest_env = town_engine" "env_js town_guest_env = sample_json"
  "env_cancel town_guest_env ct m = m\<lparr>tw_cancelled := ct # tw_cancelled m\<rparr>"
  "net_close (link_net protocols) h w = w"
  by (simp_all add: town_lib_def town_center_env_def town_guest_env_def link_net_def)

lemma town_clock [simp]: "clock_advances town_lib"
  by (simp add: clock_advances_def)

lemma town_engine_reads [simp]: "engine_reads_room_pattern town_engine" "engine_reads_hostname_pattern town_engine"
proof -
  have "room_pattern \<noteq> hostname_pattern" by (simp add: room_pattern_def hostname_pattern_def)
  then show "engine_reads_room_pattern town_engine"
    using room_engine_reads by (simp add: engine_reads_room_pattern_def town_engine_def)
  show "engine_reads_hostname_pattern town_engine"
    using hostname_engine_reads by (simp add: engine_reads_hostname_pattern_def town_engine_def)
qed

section \<open>Starting EasyTier\<close>

lemma town_starts:
  assumes "port_forwards config = []" and "instance_id mgr = None"
  shows "\<exists>mgr' m'. start town_lib config mgr m = Some (Inr (), mgr', m') \<and> instance_id mgr' = Some (tw_next m)
    \<and> tw_next m \<in> set (tw_running m') \<and> tw_cancelled m' = tw_cancelled m \<and> link_inbox m' = link_inbox m
    \<and> link_shared m' = link_shared m"
proof -
  have "is_ok (build_toml_config town_lib config)"
    using assms(1) by (simp add: config_accepted town_lib_def Let_def)
  then obtain c where "build_toml_config town_lib config = Inr c" by (auto simp: is_ok_iff)
  with assms(2) show ?thesis
    by (simp add: start_def is_running_def Let_def wait_ready.simps [of town_lib] cache_instance_def)
qed

lemma town_room_starts:
  "\<exists>c m' n. center_start town_center_env ct (new_center code name mid vendor port nodes [] locks) m = Some (Inr (), c, m')
    \<and> instance_id (c_easy_tier c) = Some n \<and> c_server_ct c = Some ct \<and> (\<exists>srv. c_task c = Running srv)
    \<and> link_inbox m' = link_inbox m \<and> link_shared m' = link_shared m \<and> tw_cancelled m' = tw_cancelled m"
proof -
  let ?c = "new_center code name mid vendor port nodes [] locks"
  have "check_keys standard_keys (c_custom ?c) = Inr ()" "c_easy_tier ?c = new_manager" by (simp_all add: new_center_def)
  with center_start_eq [of ?c town_center_env m _ m ct]
  obtain c1 where "server_begun town_center_env ?c (Inr (scan_port (ce_bindable town_center_env m))) c1"
    and c1: "c_easy_tier c1 = new_manager" "c_server_ct c1 = Some ct"
    and eq: "center_start town_center_env ct ?c m = start_network town_center_env c1 (m\<lparr>tw_clock := tw_clock m + 200\<rparr>)"
    by (auto simp: bind_effect_def)
  from this(1) obtain srv where srv: "c_task c1 = Running srv" by (auto simp: server_begun_def)
  let ?m = "m\<lparr>tw_clock := tw_clock m + 200\<rparr>"
  obtain mgr m' where "start town_lib (center_config c1 (ce_system town_center_env ?m)) new_manager ?m = Some (Inr (), mgr, m')"
    "instance_id mgr = Some (tw_next ?m)" "link_inbox m' = link_inbox m" "link_shared m' = link_shared m"
    "tw_cancelled m' = tw_cancelled m"
    using town_starts [of "center_config c1 (ce_system town_center_env ?m)" new_manager ?m]
    by (auto simp: center_config_def default_network_config_def new_manager_def)
  with eq c1 srv show ?thesis by (simp add: start_network_def Let_def)
qed

section \<open>A guest in the town\<close>

text \<open>The room has its one player, and the guest is connected to it.\<close>

definition town_open :: "town \<Rightarrow> bool" where
  "town_open m \<longleftrightarrow> players (room_roster (link_shared m)) = [sample_player ''H'' ''h1'' Host]
     \<and> (\<forall>k. lock_outcomes (link_shared m) k = (\<lambda>_. True))"

definition in_town :: "guest \<Rightarrow> town \<Rightarrow> bool" where
  "in_town g m \<longleftrightarrow> link_ready g m \<and> town_open m"

lemma town_open_more [simp]:
  "town_open new_town" "town_open (m\<lparr>link_inbox := inbox\<rparr>) = town_open m" "town_open (m\<lparr>tw_running := is\<rparr>) = town_open m"
  "town_open (m\<lparr>tw_clock := t\<rparr>) = town_open m" "town_open (m\<lparr>tw_cancelled := cts\<rparr>) = town_open m"
  by (simp_all add: town_open_def new_town_def)

definition town_center :: center_discovery_result where
  "town_center = \<lparr> cd_virtual_ip = ''10.144.144.1'', cd_port = 25000 \<rparr>"

lemma town_env_eq: "town_guest_env\<lparr>env_net := link_net (center_map sample_json None 25565 [])\<rparr> = town_guest_env"
  by (simp add: town_guest_env_def)

lemma town_discovers:
  assumes "instance_id mgr = Some i" and "i \<in> set (tw_running m)"
  shows "discover_from town_guest_env mgr ct (Suc n) m = (Inr town_center, m)"
proof -
  have "show_ipv4 (ipv4_of_u32 0x0A909001) = ''10.144.144.1''" by code_simp
  then have "try_parse_center town_engine (get_nodes town_lib mgr m) = Some town_center"
    using assms by (simp add: get_nodes_def route_to_node_def try_parse_center_first center_of_node_def
        center_port_advertised town_center_def del: try_parse_center.simps)
  then show ?thesis by simp
qed

lemma town_pings:
  assumes "in_town g m"
  shows "\<exists>m'. send_player_ping town_guest_env g m = (Inr (), g, m') \<and> in_town g m'
    \<and> tw_running m' = tw_running m \<and> tw_cancelled m' = tw_cancelled m"
proof -
  let ?info = "\<lparr>pi_name = ''H'', pi_machine_id = ''h1'', pi_easytier_id = None, pi_vendor = ''v'', pi_kind = Host\<rparr>"
  let ?m' = "m\<lparr>link_shared := handle_player_ping ?info (link_shared m)\<rparr>"
  have parse: "parse_player_info sample_json [1] = Inr ?info"
    by (simp add: parse_player_info_def sample_json_def one_json_def str_or_def value_to_string_def)
  have "send_player_ping (town_guest_env\<lparr>env_net := link_net (center_map sample_json None 25565 [])\<rparr>) g m = (Inr (), g, ?m')"
  proof (rule link.player_ping)
    show "link_ready g m" using assms by (simp add: in_town_def)
    show "sj_entry_to_vec (env_js (town_guest_env\<lparr>env_net := link_net (center_map sample_json None 25565 [])\<rparr>))
        \<lparr>pe_name = g_player_name g, pe_machine_id = g_machine_id g,
        pe_easytier_id = ping_node_id g, pe_vendor = g_vendor g, pe_kind = None\<rparr> = Inr [1]"
      by (simp add: sample_json_def one_json_def)
    show "wf_request (standard_request ''player_ping'' [1])" by (intro wf_standard_request) simp_all
    show "link_served (center_map sample_json None 25565 []) (standard_request ''player_ping'' [1]) m
        = (\<lparr>status = 0, resp_body = []\<rparr>, ?m')"
      using center_map_standard(3) [of "[]" sample_json None 25565]
      by (subst link_served_standard [where h = "player_ping_protocol sample_json
            (\<lambda>info r. (True, handle_player_ping info r))"])
        (simp_all add: handle_player_ping parse check_keys_ok, simp_all add: standard_request_def parse)
    show "wf_response \<lparr>status = 0, resp_body = []\<rparr>" by (simp add: wf_response_def)
  qed
  moreover have "in_town g ?m'"
    using assms by (simp add: in_town_def town_open_def link_ready_def Center.handle_player_ping_def players_ping publish_def
        ping_section_def refresh_player_def sample_player_def)
  ultimately show ?thesis unfolding town_env_eq by (intro exI [of _ ?m']) simp
qed

lemma town_negotiates:
  assumes "in_town g m" and "g_custom_keys g = []"
  shows "\<exists>keys. negotiate_protocols town_guest_env g m = (Inr (), g\<lparr>g_negotiated := keys\<rparr>, m)"
proof -
  have "length (join [CHR 0x00] standard_protocols) < 2 ^ 32" "length (join [CHR 0x00] standard_keys) < 2 ^ 32"
    by (simp_all add: standard_protocols_def standard_keys_def)
  then show ?thesis
    using link_negotiation [where custom = "[]" and g = g and w = m and env = town_guest_env and js = sample_json
        and hook = None and port = 25565] assms
    by (auto simp: town_env_eq in_town_def check_keys_ok my_protocols_def)
qed

lemma town_port: "in_town g m \<Longrightarrow> get_server_port town_guest_env g m = (Inr 25565, g, m)"
  using guest_gets_server_port [where custom = "[]" and g = g and w = m and env = town_guest_env and js = sample_json
      and hook = None and port = 25565]
  by (simp add: town_env_eq in_town_def check_keys_ok)

lemma town_list:
  assumes "in_town g m"
  shows "\<exists>m'. get_player_list town_guest_env g m = (Inr [sample_player ''H'' ''h1'' Host], g, m') \<and> in_town g m'
    \<and> tw_running m' = tw_running m \<and> tw_cancelled m' = tw_cancelled m"
proof -
  let ?m' = "m\<lparr>link_shared := snd (room_players (link_shared m))\<rparr>"
  have room: "players (room_roster (link_shared m)) = [sample_player ''H'' ''h1'' Host]"
    "\<forall>k. lock_outcomes (link_shared m) k = (\<lambda>_. True)" "link_ready g m"
    using assms by (simp_all add: in_town_def town_open_def)
  have "get_player_list (town_guest_env\<lparr>env_net := link_net (center_map (env_js town_guest_env) None 25565 [])\<rparr>) g m
      = (players_of_body (env_js town_guest_env) [1], g, ?m')"
    by (rule link_player_list) (use room in \<open>simp_all add: check_keys_ok sample_json_def one_json_def\<close>)
  then have "get_player_list town_guest_env g m = (players_of_body sample_json [1], g, ?m')"
    by (simp add: town_env_eq)
  moreover have "players_of_body sample_json [1] = Inr [sample_player ''H'' ''h1'' Host]"
    using players_of_carried_list [OF sample_json_list] .
  moreover have "in_town g ?m'" using room by (simp add: in_town_def town_open_def link_ready_def room_players_def)
  ultimately show ?thesis by (intro exI [of _ ?m']) simp
qed

lemma town_connects:
  assumes "town_open m"
  shows "\<exists>g m'. connect town_guest_env code ct (new_guest name mid vendor [] nodes) m = Some (Inr (), g, m')
    \<and> in_town g m' \<and> g_heartbeat_ct g = Some ct \<and> instance_id (g_easy_tier g) = Some (tw_next m)
    \<and> tw_next m \<in> set (tw_running m') \<and> \<not> g_use_port_forward g \<and> g_config g \<noteq> None \<and> g_center g = Some town_center
    \<and> g_minecraft_host g = None"
proof -
  let ?g0 = "new_guest name mid vendor [] nodes"
  let ?config = "guest_config code ?g0 (env_system town_guest_env m)"
  obtain mgr m1 where start: "start town_lib ?config new_manager m = Some (Inr (), mgr, m1)"
    and mgr: "instance_id mgr = Some (tw_next m)" "tw_next m \<in> set (tw_running m1)"
    and m1: "link_inbox m1 = link_inbox m" "link_shared m1 = link_shared m"
    using town_starts [of ?config new_manager m]
    by (auto simp: guest_config_def default_network_config_def new_manager_def)
  let ?g1 = "?g0\<lparr>g_easy_tier := mgr, g_center := Some town_center, g_config := Some ?config\<rparr>"
  let ?g2 = "?g1\<lparr>g_tcp := \<lparr>client_stream = Some (0, [])\<rparr>\<rparr>" and ?m2 = "m1\<lparr>link_inbox := []\<rparr>"
  have tcp: "tcp_connect (env_net town_guest_env) ''10.144.144.1'' 25000 new_client m1
      = (Some (Inr ()), \<lparr>client_stream = Some (0, [])\<rparr>, ?m2)"
    by (simp add: tcp_connect_def link_net_def new_client_def drop_stream_def)
  have "in_town ?g2 ?m2" using assms m1 by (simp add: in_town_def town_open_def link_ready_def)
  from town_pings [OF this] obtain m3 where ping: "send_player_ping town_guest_env ?g2 ?m2 = (Inr (), ?g2, m3)"
    and m3: "in_town ?g2 m3" "tw_running m3 = tw_running m1" by auto
  from town_negotiates [OF m3(1)] obtain keys where
    neg: "negotiate_protocols town_guest_env ?g2 m3 = (Inr (), ?g2\<lparr>g_negotiated := keys\<rparr>, m3)"
    by (auto simp: new_guest_def)
  let ?g3 = "?g2\<lparr>g_negotiated := keys\<rparr>"
  have once: "try_connect_once town_guest_env ''10.144.144.1'' 25000 ?g1 m1 = (Inr True, ?g3, m3)"
    using tcp ping neg by (simp add: try_connect_once_def new_guest_def)
  have "connect_center town_guest_env town_center ct ?g1 m1
      = (Inr (), start_heartbeat ct (?g3\<lparr>g_use_port_forward := False\<rparr>), m3)"
    using once by (simp add: connect_center_def town_center_def)
  moreover have "discover_from town_guest_env mgr ct 60 m1 = (Inr town_center, m1)"
    using town_discovers [OF mgr, of ct 59] by simp
  ultimately have "connect town_guest_env code ct ?g0 m
      = Some (Inr (), start_heartbeat ct (?g3\<lparr>g_use_port_forward := False\<rparr>), m3)"
    using start by (simp add: connect_def Let_def new_guest_def)
  moreover have "in_town (start_heartbeat ct (?g3\<lparr>g_use_port_forward := False\<rparr>)) m3"
    using m3(1) by (simp add: in_town_def link_ready_def start_heartbeat_def)
  ultimately show ?thesis using mgr m3(2)
    by (intro exI [of _ "start_heartbeat ct (?g3\<lparr>g_use_port_forward := False\<rparr>)"] exI [of _ m3])
      (simp add: start_heartbeat_def new_guest_def)
qed

text \<open>The guest gets the address of Minecraft without a port forward.\<close>

lemma town_maps:
  assumes "in_town g m" and "\<not> g_use_port_forward g" and "g_config g \<noteq> None" and "g_center g = Some town_center"
    and "g_minecraft_host g = None"
  shows "map_minecraft_port town_guest_env g m = (Inr (''10.144.144.1'', 25565),
      g\<lparr>g_minecraft_host := Some ''10.144.144.1'', g_minecraft_port := Some 25565\<rparr>, m)"
  using assms town_port [OF assms(1)] by (simp add: map_minecraft_port_def town_center_def)

end
