(* ===== verification/Client.thy ===== *)
theory Client
  imports Town Relay
begin

text \<open>
  The entry of the library (\<open>client.rs\<close>): the relay nodes with their cache, creating and joining rooms,
  and closing everything that is managed.  Centres and guests are shared with the caller, so they
  live in a store and the client manages their numbers.
\<close>

section \<open>Environment and state\<close>

text \<open>
  The environments of centres and guests, the HTTP client, the system locale, the clock, and the
  buffers the random source fills, by number.
\<close>

record ('m, 'i, 'u, 'v, 'j) client_env =
  ke_guest :: "('m, 'i, 'u, 'v, 'j) guest_env"
  ke_center :: "('m, 'i, 'u, 'v, 'j) center_env"
  ke_http :: "'m http_get"
  ke_locale :: "'m \<Rightarrow> string option"
  ke_now :: "'m \<Rightarrow> nat"
  ke_rng :: "nat \<Rightarrow> u8 list"

definition relay_node_cache_ttl :: nat where "relay_node_cache_ttl = 300000"

record client =
  k_override :: "string list option"
  k_additional :: "string list option"
  k_user_agent :: "string option"
  k_region :: "string option"
  k_endpoint :: "string option"
  k_cached :: "(nat \<times> string list) option"
  k_managed_centers :: "nat list"
  k_managed_guests :: "nat list"
  k_centers :: "center list"
  k_guests :: "guest list"
  k_draws :: nat

definition new_scaffolding_client ::
  "string list option \<Rightarrow> string list option \<Rightarrow> string option \<Rightarrow> string option \<Rightarrow> client" where
  "new_scaffolding_client override_nodes additional agent region =
     \<lparr> k_override = override_nodes, k_additional = additional, k_user_agent = agent, k_region = region,
       k_endpoint = None, k_cached = None, k_managed_centers = [], k_managed_guests = [],
       k_centers = [], k_guests = [], k_draws = 0 \<rparr>"

definition with_relay_endpoint :: "string \<Rightarrow> client \<Rightarrow> client" where
  "with_relay_endpoint ep k = k\<lparr>k_endpoint := Some ep\<rparr>"

section \<open>Relay nodes\<close>

definition client_provider :: "('m, 'i, 'u, 'v, 'j) client_env \<Rightarrow> client \<Rightarrow> 'm \<Rightarrow> relay_node_provider" where
  "client_provider env k m =
     (let p = new_provider (ke_locale env m) (k_user_agent k) (k_region k)
      in case k_endpoint k of Some ep \<Rightarrow> with_endpoint ep p | None \<Rightarrow> p)"

definition fresh_nodes ::
  "('m, 'i, 'u, 'v, 'j) client_env \<Rightarrow> client \<Rightarrow> 'm \<Rightarrow> string list \<times> 'm" where
  "fresh_nodes env k m =
     (case k_override k of
        Some nodes \<Rightarrow> (resolve (Some nodes) (k_additional k), m)
      | None \<Rightarrow>
          (let (fetched, m) = fetch (env_js (ke_guest env)) (ke_http env) (client_provider env k m) m
           in (resolve (Some fetched) (k_additional k), m)))"

text \<open>\<open>resolve_relay_nodes\<close>; the instant is taken before the work.\<close>

definition resolve_relay_nodes ::
  "('m, 'i, 'u, 'v, 'j) client_env \<Rightarrow> client \<Rightarrow> 'm \<Rightarrow> string list \<times> client \<times> 'm" where
  "resolve_relay_nodes env k m =
     (let now = ke_now env m; cached = k_cached k
      in case cached of
           Some (cached_at, nodes) \<Rightarrow>
             if nodes \<noteq> [] \<and> now - cached_at < relay_node_cache_ttl then (nodes, k, m)
             else (let (nodes, m) = fresh_nodes env k m
                   in if nodes = []
                      then (case cached of
                              Some (_, old) \<Rightarrow> if old \<noteq> [] then (old, k, m) else (nodes, k, m)
                            | None \<Rightarrow> (nodes, k, m))
                      else (nodes, k\<lparr>k_cached := Some (now, nodes)\<rparr>, m))
         | None \<Rightarrow>
             (let (nodes, m) = fresh_nodes env k m
              in if nodes = [] then (nodes, k, m)
                 else (nodes, k\<lparr>k_cached := Some (now, nodes)\<rparr>, m)))"

section \<open>Rooms\<close>

text \<open>
  \<open>create_room\<close>: the number of the centre, or the error.  \<open>None\<close> if it does not return: the
  generator loops or panics, or EasyTier never starts.  A centre whose start failed is in the store,
  as its tasks go on, but is not managed.
\<close>

definition create_room ::
  "('m, 'i, 'u, 'v, 'j) client_env \<Rightarrow> string \<Rightarrow> string \<Rightarrow> string \<Rightarrow> u16 \<Rightarrow> nat
     \<Rightarrow> center_room protocol_handler list \<Rightarrow> ping_hook option \<Rightarrow> (nat \<Rightarrow> lock_tries) \<Rightarrow> client \<Rightarrow> 'm
     \<Rightarrow> (nat res \<times> client \<times> 'm) option" where
  "create_room env player_name machine_id vendor mc_port ct custom hook locks k m =
     (case generate (env_rx (ke_guest env)) (ke_rng env) (k_draws k) of
        Some (Inr room_code, draws) \<Rightarrow>
          (let (nodes, k, m) = resolve_relay_nodes env (k\<lparr>k_draws := draws\<rparr>) m;
               c = new_center room_code player_name machine_id vendor mc_port (Some nodes) custom locks;
               c = (case hook of Some h \<Rightarrow> set_player_ping_handler h c | None \<Rightarrow> c)
           in case center_start (ke_center env) ct c m of
                None \<Rightarrow> None
              | Some (Inl e, c, m) \<Rightarrow> Some (Inl e, k\<lparr>k_centers := k_centers k @ [c]\<rparr>, m)
              | Some (Inr _, c, m) \<Rightarrow>
                  Some (Inr (length (k_centers k)),
                        k\<lparr>k_centers := k_centers k @ [c],
                          k_managed_centers := k_managed_centers k @ [length (k_centers k)]\<rparr>, m))
      | _ \<Rightarrow> None)"

text \<open>\<open>join_room\<close>: a guest that could not connect leaves at once.\<close>

definition join_room ::
  "('m, 'i, 'u, 'v, 'j) client_env \<Rightarrow> string \<Rightarrow> string \<Rightarrow> string \<Rightarrow> string \<Rightarrow> string list \<Rightarrow> nat \<Rightarrow> client \<Rightarrow> 'm
     \<Rightarrow> (nat res \<times> client \<times> 'm) option" where
  "join_room env room_code_str player_name machine_id vendor custom_keys ct k m =
     (case parse (env_rx (ke_guest env)) room_code_str of
        Inl e \<Rightarrow> Some (Inl e, k, m)
      | Inr code \<Rightarrow>
          (let (nodes, k, m) = resolve_relay_nodes env k m;
               g = new_guest player_name machine_id vendor custom_keys (Some nodes)
           in case connect (ke_guest env) code ct g m of
                None \<Rightarrow> None
              | Some (Inl e, g, m) \<Rightarrow>
                  (let (g, m) = leave (ke_guest env) g m
                   in Some (Inl e, k\<lparr>k_guests := k_guests k @ [g]\<rparr>, m))
              | Some (Inr _, g, m) \<Rightarrow>
                  Some (Inr (length (k_guests k)),
                        k\<lparr>k_guests := k_guests k @ [g],
                          k_managed_guests := k_managed_guests k @ [length (k_guests k)]\<rparr>, m)))"

section \<open>Closing\<close>

fun close_centers ::
  "('m, 'i, 'u, 'v, 'j) client_env \<Rightarrow> nat list \<Rightarrow> center list \<Rightarrow> 'm \<Rightarrow> center list \<times> 'm" where
  "close_centers env [] cs m = (cs, m)"
| "close_centers env (i # is) cs m =
     (let (_, c, m) = center_close (ke_center env) (cs ! i) m in close_centers env is (cs[i := c]) m)"

fun leave_guests ::
  "('m, 'i, 'u, 'v, 'j) client_env \<Rightarrow> nat list \<Rightarrow> guest list \<Rightarrow> 'm \<Rightarrow> guest list \<times> 'm" where
  "leave_guests env [] gs m = (gs, m)"
| "leave_guests env (i # is) gs m =
     (let (g, m) = leave (ke_guest env) (gs ! i) m in leave_guests env is (gs[i := g]) m)"

definition close_all :: "('m, 'i, 'u, 'v, 'j) client_env \<Rightarrow> client \<Rightarrow> 'm \<Rightarrow> client \<times> 'm" where
  "close_all env k m =
     (let (cs, m) = close_centers env (k_managed_centers k) (k_centers k) m;
          (gs, m) = leave_guests env (k_managed_guests k) (k_guests k) m
      in (k\<lparr>k_managed_centers := [], k_centers := cs, k_managed_guests := [], k_guests := gs\<rparr>, m))"

section \<open>Lemmas\<close>

text \<open>Without an override the fresh list is never empty.\<close>

lemma fresh_nodes_nonempty: "k_override k = None \<Longrightarrow> fst (fresh_nodes env k m) \<noteq> []"
  by (simp add: fresh_nodes_def case_prod_beta relay.resolved_nonempty)

lemma leave_effect:
  assumes "leave env g m = (g', m')"
  shows "\<not> is_connected (g_tcp g') \<and> g_heartbeat_ct g' = None \<and> g_easy_tier g' = new_manager"
  using assms
  by (auto simp: leave_def stop_heartbeat_def hang_up_def disconnect_def is_connected_def stop_def
      split: option.splits prod.splits)

text \<open>
  A closed centre: no server in its slot, no token kept, no EasyTier instance on record, and the accept
  loop, if it still runs, has been told to end.  A guest that has left.
\<close>

definition closed_center :: "center \<Rightarrow> bool" where
  "closed_center c \<longleftrightarrow>
     c_slot c = None \<and> c_server_ct c = None \<and> c_easy_tier c = new_manager
   \<and> (\<forall>srv. c_task c = Running srv \<longrightarrow> cancelled (ts_state srv) server_token)"

definition left_guest :: "guest \<Rightarrow> bool" where
  "left_guest g \<longleftrightarrow> \<not> is_connected (g_tcp g) \<and> g_heartbeat_ct g = None \<and> g_easy_tier g = new_manager"

text \<open>A server that runs and was not told to end can be: its token is kept.\<close>

definition center_ok :: "center \<Rightarrow> bool" where
  "center_ok c \<longleftrightarrow>
     (\<forall>srv. c_task c = Running srv \<longrightarrow> cancelled (ts_state srv) server_token \<or> c_server_ct c \<noteq> None)"

text \<open>
  What was called from outside: deleting an EasyTier instance and cancelling a token.  \<open>told\<close> remembers
  these calls, as far as the closing operations are concerned.
\<close>

datatype closing_call = Deleted nat | Cancelled nat

definition calls_recorded :: "('m, 'i, 'u, 'v, 'j) client_env \<Rightarrow> (closing_call \<Rightarrow> 'm \<Rightarrow> bool) \<Rightarrow> bool" where
  "calls_recorded env told \<longleftrightarrow>
     (\<forall>lib i m. lib = ce_lib (ke_center env) \<or> lib = env_lib (ke_guest env) \<longrightarrow>
        told (Deleted i) (snd (lib_delete lib i m)) \<and> (\<forall>call. told call m \<longrightarrow> told call (snd (lib_delete lib i m))))
   \<and> (\<forall>cancel ct m. cancel = ce_cancel (ke_center env) \<or> cancel = env_cancel (ke_guest env) \<longrightarrow>
        told (Cancelled ct) (cancel ct m) \<and> (\<forall>call. told call m \<longrightarrow> told call (cancel ct m)))
   \<and> (\<forall>h m call. told call m \<longrightarrow> told call (net_close (env_net (ke_guest env)) h m))"

text \<open>What a centre holds, and a guest, was given up by such calls.\<close>

definition center_told :: "(closing_call \<Rightarrow> 'm \<Rightarrow> bool) \<Rightarrow> center \<Rightarrow> 'm \<Rightarrow> bool" where
  "center_told told c m \<longleftrightarrow>
     (\<forall>i. instance_id (c_easy_tier c) = Some i \<longrightarrow> told (Deleted i) m)
   \<and> (\<forall>ct. c_server_ct c = Some ct \<longrightarrow> told (Cancelled ct) m)"

definition guest_told :: "(closing_call \<Rightarrow> 'm \<Rightarrow> bool) \<Rightarrow> guest \<Rightarrow> 'm \<Rightarrow> bool" where
  "guest_told told g m \<longleftrightarrow>
     (\<forall>i. instance_id (g_easy_tier g) = Some i \<longrightarrow> told (Deleted i) m)
   \<and> (\<forall>ct. g_heartbeat_ct g = Some ct \<longrightarrow> told (Cancelled ct) m)"

lemma center_close_told:
  assumes "center_close (ke_center env) c m = (r, c', m')" and "calls_recorded env told"
  shows "center_told told c m' \<and> (\<forall>call. told call m \<longrightarrow> told call m')"
  using assms
  by (cases "c_server_ct c"; cases "instance_id (c_easy_tier c)"; cases "c_task c")
    (auto simp: center_close_def cancel_running_def stop_def Let_def calls_recorded_def center_told_def)

lemma leave_told:
  assumes "leave (ke_guest env) g m = (g', m')" and "calls_recorded env told"
  shows "guest_told told g m' \<and> (\<forall>call. told call m \<longrightarrow> told call m')"
  using assms
  by (cases "g_heartbeat_ct g"; cases "instance_id (g_easy_tier g)"; cases "client_stream (g_tcp g)")
    (auto simp: leave_def stop_heartbeat_def hang_up_def disconnect_def drop_stream_def stop_def Let_def
      calls_recorded_def guest_told_def split: prod.splits)

lemma center_close_closes:
  assumes "center_close env c m = (r, c', m')" and "center_ok c"
  shows "r = Inr () \<and> closed_center c'"
  using assms
  by (auto simp: center_close_def cancel_running_def cancel_server_def stop_def Let_def closed_center_def center_ok_def
      split: option.splits serve_task.splits prod.splits)

lemma closed_center_ok: "closed_center c \<Longrightarrow> center_ok c"
  by (simp add: closed_center_def center_ok_def)

text \<open>Closing and leaving touch the given numbers, and nothing else.\<close>

lemma close_centers_effect:
  assumes "close_centers env is cs m = (cs', m')" and "\<forall>i \<in> set is. i < length cs \<and> center_ok (cs ! i)"
  shows "length cs' = length cs \<and> (\<forall>i < length cs. i \<notin> set is \<longrightarrow> cs' ! i = cs ! i)
       \<and> (\<forall>i \<in> set is. closed_center (cs' ! i))"
  using assms
proof (induction "is" arbitrary: cs m)
  case (Cons i ns)
  obtain r c m1 where cl: "center_close (ke_center env) (cs ! i) m = (r, c, m1)" by (metis prod_cases3)
  with Cons.prems have rec: "close_centers env ns (cs[i := c]) m1 = (cs', m')" by simp
  have c: "closed_center c" using center_close_closes [OF cl] Cons.prems(2) by simp
  have "\<forall>j \<in> set ns. j < length (cs[i := c]) \<and> center_ok (cs[i := c] ! j)"
    using Cons.prems(2) closed_center_ok [OF c] by (auto simp: nth_list_update)
  from Cons.IH [OF rec this] have IH: "length cs' = length cs"
    "\<forall>j < length cs. j \<notin> set ns \<longrightarrow> cs' ! j = cs[i := c] ! j" "\<forall>j \<in> set ns. closed_center (cs' ! j)"
    by auto
  have "closed_center (cs' ! i)" using IH(2,3) c Cons.prems(2) by (cases "i \<in> set ns") auto
  with IH show ?case by auto
qed simp

lemma close_centers_told:
  assumes "close_centers env is cs m = (cs', m')" and "\<forall>i \<in> set is. i < length cs" and "calls_recorded env told"
  shows "(\<forall>i \<in> set is. center_told told (cs ! i) m') \<and> (\<forall>call. told call m \<longrightarrow> told call m')"
  using assms
proof (induction "is" arbitrary: cs m)
  case (Cons i ns)
  obtain r c m1 where cl: "center_close (ke_center env) (cs ! i) m = (r, c, m1)" by (metis prod_cases3)
  with Cons.prems have rec: "close_centers env ns (cs[i := c]) m1 = (cs', m')" by simp
  note first = center_close_told [OF cl Cons.prems(3)]
  have "\<forall>j \<in> set ns. j < length (cs[i := c])" using Cons.prems(2) by simp
  from Cons.IH [OF rec this Cons.prems(3)]
  have IH: "\<forall>j \<in> set ns. center_told told (cs[i := c] ! j) m'" "\<forall>call. told call m1 \<longrightarrow> told call m'" by simp_all
  have "center_told told (cs ! i) m'" using first IH(2) by (simp add: center_told_def)
  moreover have "center_told told (cs ! j) m'" if "j \<in> set ns" "j \<noteq> i" for j using IH(1) that by force
  ultimately show ?case using first IH(2) by auto
qed simp

lemma leave_guests_effect:
  assumes "leave_guests env is gs m = (gs', m')" and "\<forall>i \<in> set is. i < length gs"
  shows "length gs' = length gs \<and> (\<forall>i < length gs. i \<notin> set is \<longrightarrow> gs' ! i = gs ! i)
       \<and> (\<forall>i \<in> set is. left_guest (gs' ! i))"
  using assms
proof (induction "is" arbitrary: gs m)
  case (Cons i ns)
  obtain g m1 where lv: "leave (ke_guest env) (gs ! i) m = (g, m1)" by (cases "leave (ke_guest env) (gs ! i) m")
  with Cons.prems have rec: "leave_guests env ns (gs[i := g]) m1 = (gs', m')" by simp
  have g: "left_guest g" using leave_effect [OF lv] by (simp add: left_guest_def)
  from Cons.IH [OF rec] Cons.prems(2) have IH: "length gs' = length gs"
    "\<forall>j < length gs. j \<notin> set ns \<longrightarrow> gs' ! j = gs[i := g] ! j" "\<forall>j \<in> set ns. left_guest (gs' ! j)"
    by auto
  have "left_guest (gs' ! i)" using IH(2,3) g Cons.prems(2) by (cases "i \<in> set ns") auto
  with IH show ?case by auto
qed simp

lemma leave_guests_told:
  assumes "leave_guests env is gs m = (gs', m')" and "\<forall>i \<in> set is. i < length gs" and "calls_recorded env told"
  shows "(\<forall>i \<in> set is. guest_told told (gs ! i) m') \<and> (\<forall>call. told call m \<longrightarrow> told call m')"
  using assms
proof (induction "is" arbitrary: gs m)
  case (Cons i ns)
  obtain g m1 where lv: "leave (ke_guest env) (gs ! i) m = (g, m1)" by (cases "leave (ke_guest env) (gs ! i) m")
  with Cons.prems have rec: "leave_guests env ns (gs[i := g]) m1 = (gs', m')" by simp
  note first = leave_told [OF lv Cons.prems(3)]
  have "\<forall>j \<in> set ns. j < length (gs[i := g])" using Cons.prems(2) by simp
  from Cons.IH [OF rec this Cons.prems(3)]
  have IH: "\<forall>j \<in> set ns. guest_told told (gs[i := g] ! j) m'" "\<forall>call. told call m1 \<longrightarrow> told call m'" by simp_all
  have "guest_told told (gs ! i) m'" using first IH(2) by (simp add: guest_told_def)
  moreover have "guest_told told (gs ! j) m'" if "j \<in> set ns" "j \<noteq> i" for j using IH(1) that by force
  ultimately show ?case using first IH(2) by auto
qed simp

text \<open>What is managed is in the store, and a managed centre can be closed.\<close>

definition managed_stored :: "client \<Rightarrow> bool" where
  "managed_stored k \<longleftrightarrow>
     (\<forall>i \<in> set (k_managed_centers k). i < length (k_centers k))
   \<and> (\<forall>i \<in> set (k_managed_guests k). i < length (k_guests k))"

definition managed_ok :: "client \<Rightarrow> bool" where
  "managed_ok k \<longleftrightarrow> managed_stored k \<and> (\<forall>i \<in> set (k_managed_centers k). center_ok (k_centers k ! i))"

lemma center_start_token:
  "center_start env ct c m = Some (r, c', m') \<Longrightarrow> c_server_ct c' = Some ct \<or> r \<noteq> Inr () \<and> c_task c' = c_task c"
  by (auto simp: center_start_def start_network_def task_begins_def Let_def split: sum.splits option.splits prod.splits)

lemma created_centers:
  "managed_ok k \<Longrightarrow> managed_ok (k\<lparr>k_draws := d, k_cached := ch, k_centers := k_centers k @ [c]\<rparr>)"
  "managed_ok k \<Longrightarrow> center_ok c \<Longrightarrow> managed_ok (k\<lparr>k_draws := d, k_cached := ch, k_centers := k_centers k @ [c],
     k_managed_centers := k_managed_centers k @ [length (k_centers k)]\<rparr>)"
  by (auto simp: managed_ok_def managed_stored_def nth_append less_Suc_eq)

lemma resolve_relay_nodes_frame:
  "resolve_relay_nodes env k m = (nodes, k', m') \<Longrightarrow> \<exists>c. k' = k\<lparr>k_cached := c\<rparr>"
  by (auto simp: resolve_relay_nodes_def Let_def split: option.splits prod.splits if_splits)
    (metis client.surjective client.update_convs(6))+

lemma create_room_managed:
  assumes "create_room env name mid vendor port ct custom hook locks k m = Some (r, k', m')" and "managed_ok k"
  shows "managed_ok k'"
proof -
  obtain code draws where gen: "generate (env_rx (ke_guest env)) (ke_rng env) (k_draws k) = Some (Inr code, draws)"
    using assms(1) by (auto simp: create_room_def split: option.splits sum.splits)
  obtain nodes k1 m1 where res: "resolve_relay_nodes env (k\<lparr>k_draws := draws\<rparr>) m = (nodes, k1, m1)"
    by (metis prod_cases3)
  obtain ch where k1: "k1 = k\<lparr>k_draws := draws, k_cached := ch\<rparr>" using resolve_relay_nodes_frame [OF res] by auto
  let ?c0 = "let c = new_center code name mid vendor port (Some nodes) custom locks
      in (case hook of Some h \<Rightarrow> set_player_ping_handler h c | None \<Rightarrow> c)"
  obtain s c m2 where st: "center_start (ke_center env) ct ?c0 m1 = Some (s, c, m2)"
    using assms(1) gen res by (auto simp: create_room_def Let_def split: option.splits)
  show ?thesis
  proof (cases s)
    case (Inl e)
    then have "k' = k\<lparr>k_draws := draws, k_cached := ch, k_centers := k_centers k @ [c]\<rparr>"
      using assms(1) gen res st k1 by (auto simp: create_room_def Let_def)
    with assms(2) created_centers(1) show ?thesis by simp
  next
    case (Inr u)
    then have "c_server_ct c = Some ct" using center_start_token [OF st] by auto
    then have "center_ok c" by (simp add: center_ok_def)
    moreover from Inr have "k' = k\<lparr>k_draws := draws, k_cached := ch, k_centers := k_centers k @ [c],
        k_managed_centers := k_managed_centers k @ [length (k_centers k)]\<rparr>"
      using assms(1) gen res st k1 by (auto simp: create_room_def Let_def)
    ultimately show ?thesis using assms(2) created_centers(2) by simp
  qed
qed

lemma join_room_managed:
  assumes "join_room env code name mid vendor keys ct k m = Some (r, k', m')" and "managed_ok k"
  shows "managed_ok k'"
proof (cases "parse (env_rx (ke_guest env)) code")
  case (Inr rc)
  obtain nodes k1 m1 where res: "resolve_relay_nodes env k m = (nodes, k1, m1)"
    by (metis prod_cases3)
  obtain ch where "k1 = k\<lparr>k_cached := ch\<rparr>" using resolve_relay_nodes_frame [OF res] by auto
  with assms Inr res show ?thesis
    by (auto simp: join_room_def managed_ok_def managed_stored_def less_Suc_eq Let_def split: option.splits sum.splits prod.splits)
qed (use assms in \<open>auto simp: join_room_def\<close>)

lemma close_all_result:
  assumes "close_all env k m = (k', m')" and "managed_ok k"
  shows "k_managed_centers k' = [] \<and> k_managed_guests k' = []
       \<and> (\<forall>i \<in> set (k_managed_centers k). closed_center (k_centers k' ! i))
       \<and> (\<forall>i \<in> set (k_managed_guests k). left_guest (k_guests k' ! i))
       \<and> (\<forall>i < length (k_centers k). i \<notin> set (k_managed_centers k) \<longrightarrow> k_centers k' ! i = k_centers k ! i)
       \<and> (\<forall>i < length (k_guests k). i \<notin> set (k_managed_guests k) \<longrightarrow> k_guests k' ! i = k_guests k ! i)"
    and "calls_recorded env told \<Longrightarrow>
         (\<forall>i \<in> set (k_managed_centers k). center_told told (k_centers k ! i) m')
       \<and> (\<forall>i \<in> set (k_managed_guests k). guest_told told (k_guests k ! i) m')"
proof -
  obtain cs m1 where cs: "close_centers env (k_managed_centers k) (k_centers k) m = (cs, m1)"
    by (cases "close_centers env (k_managed_centers k) (k_centers k) m")
  obtain gs m2 where gs: "leave_guests env (k_managed_guests k) (k_guests k) m1 = (gs, m2)"
    by (cases "leave_guests env (k_managed_guests k) (k_guests k) m1")
  from assms(2) have ok: "\<forall>i \<in> set (k_managed_centers k). i < length (k_centers k) \<and> center_ok (k_centers k ! i)"
    "\<forall>i \<in> set (k_managed_guests k). i < length (k_guests k)" by (simp_all add: managed_ok_def managed_stored_def)
  have k': "k' = k\<lparr>k_managed_centers := [], k_centers := cs, k_managed_guests := [], k_guests := gs\<rparr>" "m' = m2"
    using assms(1) cs gs by (simp_all add: close_all_def)
  then show "k_managed_centers k' = [] \<and> k_managed_guests k' = []
       \<and> (\<forall>i \<in> set (k_managed_centers k). closed_center (k_centers k' ! i))
       \<and> (\<forall>i \<in> set (k_managed_guests k). left_guest (k_guests k' ! i))
       \<and> (\<forall>i < length (k_centers k). i \<notin> set (k_managed_centers k) \<longrightarrow> k_centers k' ! i = k_centers k ! i)
       \<and> (\<forall>i < length (k_guests k). i \<notin> set (k_managed_guests k) \<longrightarrow> k_guests k' ! i = k_guests k ! i)"
    using close_centers_effect [OF cs ok(1)] leave_guests_effect [OF gs ok(2)] by simp
  assume "calls_recorded env told"
  from close_centers_told [OF cs _ this] leave_guests_told [OF gs ok(2) this] ok(1)
  show "(\<forall>i \<in> set (k_managed_centers k). center_told told (k_centers k ! i) m')
       \<and> (\<forall>i \<in> set (k_managed_guests k). guest_told told (k_guests k ! i) m')"
    unfolding k'(2) by (simp add: center_told_def)
qed

section \<open>The client as a system\<close>

text \<open>
  The calls of the client, and what owners do with the handles they were given.  A centre's handle can
  be used in every way but one: it is not started again while its server runs (see
  \<open>failed_restart_orphans_server\<close> of \<open>Center_Pool\<close> for what that loses).  Guests change in any way.
\<close>

inductive center_use ::
  "('m, 'i, 'u, 'v, 'j) center_env \<Rightarrow> center \<times> 'm \<Rightarrow> center \<times> 'm \<Rightarrow> bool" for env where
  works: "run (center_step (ce_js env)) c ls c' \<Longrightarrow> center_use env (c, m) (c', m')"
| hooked: "center_use env (c, m) (set_player_ping_handler h c, m)"
| kicked: "center_disconnect_machine order mid c = (found, c') \<Longrightarrow> center_use env (c, m) (c', m)"
| closed: "center_close env c m = (r, c', m') \<Longrightarrow> center_use env (c, m) (c', m')"
| restarted: "\<forall>srv. c_task c \<noteq> Running srv \<Longrightarrow> center_start env ct c m = Some (r, c', m') \<Longrightarrow>
     center_use env (c, m) (c', m')"

datatype client_op = Creating | Joining | Closing | Center_use nat | Guests_use

inductive client_step ::
  "('m, 'i, 'u, 'v, 'j) client_env \<Rightarrow> client \<times> 'm \<Rightarrow> client_op \<Rightarrow> client \<times> 'm \<Rightarrow> bool" for env where
  creating: "create_room env name mid vendor port ct custom hook locks k m = Some (r, k', m') \<Longrightarrow>
     client_step env (k, m) Creating (k', m')"
| joining: "join_room env code name mid vendor keys ct k m = Some (r, k', m') \<Longrightarrow>
     client_step env (k, m) Joining (k', m')"
| closing: "close_all env k m = (k', m') \<Longrightarrow> client_step env (k, m) Closing (k', m')"
| using_center: "i < length (k_centers k) \<Longrightarrow> center_use (ke_center env) (k_centers k ! i, m) (c, m') \<Longrightarrow>
     client_step env (k, m) (Center_use i) (k\<lparr>k_centers := (k_centers k)[i := c]\<rparr>, m')"
| using_guests: "length gs = length (k_guests k) \<Longrightarrow>
     client_step env (k, m) Guests_use (k\<lparr>k_guests := gs\<rparr>, m')"

fun client_init :: "client \<times> 'm \<Rightarrow> bool" where
  "client_init (k, m) \<longleftrightarrow> k_managed_centers k = [] \<and> k_managed_guests k = [] \<and> k_centers k = [] \<and> k_guests k = []"

fun client_inv :: "client \<times> 'm \<Rightarrow> bool" where
  "client_inv (k, m) = managed_ok k"

lemma center_run_ok: "run (center_step js) c ls c' \<Longrightarrow> center_ok c \<Longrightarrow> center_ok c'"
proof (induction rule: run.induct)
  case (run_Cons c l c' ls c'')
  from run_Cons.hyps(1) have "center_ok c'"
  proof (cases rule: center_step.cases)
    case (serve s l st)
    then show ?thesis using run_Cons.prems cancelled_mono [OF serve(5)] by (auto simp: center_ok_def)
  qed (use run_Cons.prems in \<open>auto simp: center_ok_def remove_player_def center_get_players_def task_ends_def
      split: prod.split\<close>)
  with run_Cons.IH show ?case by blast
qed simp

lemma center_use_ok:
  assumes "center_use env (c, m) (c', m')" and "center_ok c"
  shows "center_ok c'"
  using assms(1)
proof (cases rule: center_use.cases)
  case (works ls)
  then show ?thesis using assms(2) by (rule center_run_ok)
next
  case (closed r)
  then show ?thesis using center_close_closes [OF closed assms(2)] closed_center_ok by blast
next
  case (restarted ct r)
  then show ?thesis using center_start_token [OF restarted(2)] by (auto simp: center_ok_def)
next
  case (hooked h)
  then show ?thesis using assms(2) by (simp add: center_ok_def set_player_ping_handler_def)
next
  case (kicked order mid found)
  then show ?thesis using assms(2)
    by (auto simp: center_ok_def center_disconnect_machine_def split: option.splits prod.splits)
qed

interpretation client_system: invariant_system client_init "client_step env" client_inv
  for env :: "('m, 'i, 'u, 'v, 'j) client_env"
proof unfold_locales
  fix s s' :: "client \<times> 'm" and l
  show "client_inv s" if "client_init s" using that by (cases s) (simp add: managed_ok_def managed_stored_def)
  assume inv: "client_inv s" and step: "client_step env s l s'"
  from step show "client_inv s'"
  proof (cases rule: client_step.cases)
    case (creating name mid vendor port ct custom hook locks k m r k' m')
    with inv create_room_managed [OF creating(4)] show ?thesis by simp
  next
    case (joining code name mid vendor keys ct k m r k' m')
    with inv join_room_managed [OF joining(4)] show ?thesis by simp
  next
    case (closing k m k' m')
    with inv close_all_result [OF closing(4)] show ?thesis by (simp add: managed_ok_def managed_stored_def)
  next
    case (using_center i k m c m')
    with inv center_use_ok [OF using_center(5)] show ?thesis by (auto simp: managed_ok_def managed_stored_def nth_list_update)
  next
    case (using_guests gs k m m')
    with inv show ?thesis by (simp add: managed_ok_def managed_stored_def)
  qed
qed

text \<open>A client for the concrete instances: nothing answers over HTTP.\<close>

definition sample_client_env :: "(sample_net, string, string, string, string) client_env" where
  "sample_client_env =
     \<lparr> ke_guest = sample_env, ke_center = sample_center_env, ke_http = (\<lambda>_ _ m. (No_reply, m)),
       ke_locale = (\<lambda>_. None), ke_now = sn_clock, ke_rng = (\<lambda>_. replicate 8 0) \<rparr>"

definition sample_client :: client where
  "sample_client = new_scaffolding_client None None None None"

text \<open>The client of the concrete town, where a room can be created and joined.\<close>

definition town_client_env :: "(town, string, string, string, string \<rightharpoonup> string) client_env" where
  "town_client_env =
     \<lparr> ke_guest = town_guest_env, ke_center = town_center_env, ke_http = (\<lambda>_ _ m. (No_reply, m)),
       ke_locale = (\<lambda>_. None), ke_now = tw_clock, ke_rng = (\<lambda>_. replicate 8 0) \<rparr>"

lemma town_client_sel [simp]:
  "ke_guest town_client_env = town_guest_env" "ke_center town_client_env = town_center_env"
  "ke_rng town_client_env = (\<lambda>_. replicate 8 0)" "ke_http town_client_env = (\<lambda>_ _ m. (No_reply, m))"
  by (simp_all add: town_client_env_def)

primrec town_told :: "closing_call \<Rightarrow> town \<Rightarrow> bool" where
  "town_told (Deleted i) m \<longleftrightarrow> i \<notin> set (tw_running m)"
| "town_told (Cancelled ct) m \<longleftrightarrow> ct \<in> set (tw_cancelled m)"

lemma town_records: "calls_recorded town_client_env town_told"
proof -
  have "town_told call (m\<lparr>tw_running := removeAll i (tw_running m)\<rparr>)" "town_told call (m\<lparr>tw_cancelled := ct # tw_cancelled m\<rparr>)"
    if "town_told call m" for call m i ct
    using that by (cases call; simp)+
  then show ?thesis by (auto simp: calls_recorded_def)
qed

lemma town_nodes: "\<exists>nodes ch. resolve_relay_nodes town_client_env k m = (nodes, k\<lparr>k_cached := ch\<rparr>, m)"
proof -
  obtain nodes k' m' where res: "resolve_relay_nodes town_client_env k m = (nodes, k', m')" by (metis prod_cases3)
  have "snd (fetch sample_json (\<lambda>_ _ m. (No_reply, m)) p w) = w" for p and w :: town
    by (simp add: fetch_def fetch_from_def fetch_nodes_def http_text_def split: option.split)
  then have "snd (fresh_nodes town_client_env k m) = m" by (simp add: fresh_nodes_def case_prod_beta split: option.split)
  then have "m' = m" using res by (auto simp: resolve_relay_nodes_def Let_def split: option.splits prod.splits if_splits)
  with resolve_relay_nodes_frame [OF res] res show ?thesis by auto
qed

lemma town_generates: "\<exists>code draws. generate town_engine (\<lambda>_. replicate 8 0) k = Some (Inr code, draws)
    \<and> parse town_engine (raw code) = Inr code"
  using generate_outcome [OF town_engine_reads(1), of "\<lambda>_. replicate 8 0" k] validate_checksum_zeros
  by (auto simp: fills_eight_def)

lemma town_creates:
  "\<exists>c k' m' n. create_room town_client_env name mid vendor port ct [] None locks k m = Some (Inr (length (k_centers k)), k', m')
    \<and> k_centers k' = k_centers k @ [c] \<and> k_managed_centers k' = k_managed_centers k @ [length (k_centers k)]
    \<and> k_guests k' = k_guests k \<and> k_managed_guests k' = k_managed_guests k
    \<and> instance_id (c_easy_tier c) = Some n \<and> c_server_ct c = Some ct \<and> (\<exists>srv. c_task c = Running srv)
    \<and> (town_open m \<longrightarrow> town_open m')"
proof -
  obtain code draws where "generate town_engine (\<lambda>_. replicate 8 0) (k_draws k) = Some (Inr code, draws)"
    using town_generates by blast
  moreover obtain nodes ch where "resolve_relay_nodes town_client_env (k\<lparr>k_draws := draws\<rparr>) m
      = (nodes, k\<lparr>k_draws := draws, k_cached := ch\<rparr>, m)"
    using town_nodes [of "k\<lparr>k_draws := draws\<rparr>" m] by auto
  moreover obtain c m' n where "center_start town_center_env ct (new_center code name mid vendor port (Some nodes) [] locks) m
      = Some (Inr (), c, m')" "instance_id (c_easy_tier c) = Some n" "c_server_ct c = Some ct"
    "\<exists>srv. c_task c = Running srv" "link_shared m' = link_shared m"
    using town_room_starts by metis
  ultimately show ?thesis by (auto simp: create_room_def town_open_def)
qed

lemma town_joins:
  assumes "town_open m" and "parse town_engine room = Inr code"
  shows "\<exists>g k' m' n. join_room town_client_env room name mid vendor [] ct k m = Some (Inr (length (k_guests k)), k', m')
    \<and> k_guests k' = k_guests k @ [g] \<and> k_managed_guests k' = k_managed_guests k @ [length (k_guests k)]
    \<and> k_centers k' = k_centers k \<and> k_managed_centers k' = k_managed_centers k
    \<and> in_town g m' \<and> g_heartbeat_ct g = Some ct \<and> instance_id (g_easy_tier g) = Some n
    \<and> \<not> g_use_port_forward g \<and> g_config g \<noteq> None \<and> g_center g = Some town_center \<and> g_minecraft_host g = None"
proof -
  obtain nodes ch where nodes: "resolve_relay_nodes town_client_env k m = (nodes, k\<lparr>k_cached := ch\<rparr>, m)"
    using town_nodes by blast
  obtain g m' where "connect town_guest_env code ct (new_guest name mid vendor [] (Some nodes)) m = Some (Inr (), g, m')"
    "in_town g m' \<and> g_heartbeat_ct g = Some ct \<and> instance_id (g_easy_tier g) = Some (tw_next m)
    \<and> \<not> g_use_port_forward g \<and> g_config g \<noteq> None \<and> g_center g = Some town_center \<and> g_minecraft_host g = None"
    using town_connects [OF assms(1), of code ct name mid vendor "Some nodes"] by blast
  with assms(2) nodes show ?thesis by (simp add: join_room_def)
qed

section \<open>Properties\<close>

text \<open>
  C22: in every state the calls of the client and the use of its rooms can lead to, \<open>close_all\<close> closes every
  managed centre and leaves every managed guest.  A closed centre has no server in its slot and no
  EasyTier instance on record, and its accept loop, if it still runs, is cancelled; a guest has no
  connection and no heartbeat.  Every token they kept was cancelled, and EasyTier was asked to delete
  every instance they had.  Nothing is managed afterwards, and nothing else is touched.
\<close>

theorem close_all_closes_managed:
  assumes "reach client_init (client_step env) (k, m)" and "close_all env k m = (k', m')"
    and "calls_recorded env told"
  shows "k_managed_centers k' = [] \<and> k_managed_guests k' = []
       \<and> (\<forall>i \<in> set (k_managed_centers k).
            closed_center (k_centers k' ! i) \<and> center_told told (k_centers k ! i) m')
       \<and> (\<forall>i \<in> set (k_managed_guests k).
            left_guest (k_guests k' ! i) \<and> guest_told told (k_guests k ! i) m')
       \<and> (\<forall>i < length (k_centers k). i \<notin> set (k_managed_centers k) \<longrightarrow> k_centers k' ! i = k_centers k ! i)
       \<and> (\<forall>i < length (k_guests k). i \<notin> set (k_managed_guests k) \<longrightarrow> k_guests k' ! i = k_guests k ! i)"
proof -
  have "managed_ok k" using client_system.inv_reach [OF assms(1)] by simp
  from close_all_result [OF assms(2) this] assms(3) show ?thesis by blast
qed

theorem close_all_closes_managed_witness:
  "\<exists>k m k' m' i j. reach client_init (client_step town_client_env) (k, m) \<and> close_all town_client_env k m = (k', m')
    \<and> (\<exists>srv. c_task (k_centers k ! 0) = Running srv) \<and> instance_id (c_easy_tier (k_centers k ! 0)) = Some i
    \<and> closed_center (k_centers k' ! 0) \<and> town_told (Cancelled 7) m' \<and> town_told (Deleted i) m'
    \<and> is_connected (g_tcp (k_guests k ! 0)) \<and> instance_id (g_easy_tier (k_guests k ! 0)) = Some j
    \<and> left_guest (k_guests k' ! 0) \<and> town_told (Cancelled 5) m' \<and> town_told (Deleted j) m'"
proof -
  let ?k = "new_scaffolding_client None None None None"
  have new: "k_guests ?k = []" "k_centers ?k = []" "k_managed_guests ?k = []" "k_managed_centers ?k = []"
    by (simp_all add: new_scaffolding_client_def)
  obtain c k1 m1 i where created: "create_room town_client_env ''H'' ''h1'' ''v'' 25565 7 [] None (\<lambda>_ _. True) ?k new_town
      = Some (Inr 0, k1, m1)"
    and c: "k_centers k1 = [c]" "k_managed_centers k1 = [0]" "k_guests k1 = []" "k_managed_guests k1 = []"
      "instance_id (c_easy_tier c) = Some i" "c_server_ct c = Some 7" "\<exists>srv. c_task c = Running srv" "town_open m1"
    using town_creates [of "''H''" "''h1''" "''v''" 25565 7 "\<lambda>_ _. True" ?k new_town] new by auto
  obtain code draws where "parse town_engine (raw code) = Inr code" using town_generates by blast
  from town_joins [OF c(8) this, of "''g''" "''g1''" "''v''" 5 k1]
  obtain g k m j where joined: "join_room town_client_env (raw code) ''g'' ''g1'' ''v'' [] 5 k1 m1 = Some (Inr 0, k, m)"
    and g: "k_guests k = [g]" "k_managed_guests k = [0]" "k_centers k = [c]" "k_managed_centers k = [0]"
      "in_town g m" "g_heartbeat_ct g = Some 5" "instance_id (g_easy_tier g) = Some j"
    using c by auto
  have "reach client_init (client_step town_client_env) (?k, new_town)" by (rule reach_init) (simp add: new)
  from reach_step [where step = "client_step town_client_env", OF this creating [OF created]]
  have "reach client_init (client_step town_client_env) (k1, m1)" .
  from reach_step [where step = "client_step town_client_env", OF this joining [OF joined]]
  have reach: "reach client_init (client_step town_client_env) (k, m)" .
  obtain k' m' where close: "close_all town_client_env k m = (k', m')" by fastforce
  have "is_connected (g_tcp g)" using g(5) by (auto simp: in_town_def link_ready_def)
  with close_all_closes_managed [OF reach close town_records] c g reach close show ?thesis
    by (intro exI [of _ k] exI [of _ m] exI [of _ k'] exI [of _ m'] exI [of _ i] exI [of _ j])
      (simp add: center_told_def guest_told_def)
qed

text \<open>
  A resolved list is kept with its instant and reused without asking anybody until 300 s after
  that instant; without an override it is never empty.
\<close>

lemma relay_nodes_cached_until_ttl:
  assumes "resolve_relay_nodes env k m = (nodes, k', m')"
  shows "(k_override k = None \<longrightarrow> nodes \<noteq> [])
       \<and> (nodes \<noteq> [] \<longrightarrow> (\<exists>t. k_cached k' = Some (t, nodes)
            \<and> (\<forall>m''. ke_now env m'' < t + relay_node_cache_ttl \<longrightarrow>
                 resolve_relay_nodes env k' m'' = (nodes, k', m''))))"
proof -
  obtain fresh m1 where fresh: "fresh_nodes env k m = (fresh, m1)" by (cases "fresh_nodes env k m")
  have nonempty: "k_override k = None \<longrightarrow> fresh \<noteq> []"
    using fresh_nodes_nonempty [of k env m] fresh by auto
  have kept: "nodes \<noteq> [] \<longrightarrow> (\<exists>t. k_cached k' = Some (t, nodes))"
    and "k_override k = None \<longrightarrow> nodes \<noteq> []"
    using assms fresh nonempty
    by (auto simp: resolve_relay_nodes_def Let_def split: option.splits if_splits)
  moreover have "resolve_relay_nodes env k' m'' = (nodes, k', m'')"
    if "nodes \<noteq> []" "k_cached k' = Some (t, nodes)" "ke_now env m'' < t + relay_node_cache_ttl" for t m''
  proof -
    have "ke_now env m'' - t < relay_node_cache_ttl" using that(3) by (simp add: relay_node_cache_ttl_def)
    with that(1,2) show ?thesis by (simp add: resolve_relay_nodes_def)
  qed
  ultimately show ?thesis by blast
qed

text \<open>
  C37: when the cached list has expired and the node service cannot be reached, the client does not fall
  back to the expired list: it returns the built-in nodes with the additional ones and puts them in
  the cache in its place.
\<close>

theorem failed_refresh_replaces_cache:
  assumes "k_override k = None" and "k_cached k = Some (t, old)" and "t + relay_node_cache_ttl \<le> ke_now env m"
    and "\<forall>url agent w. fst (ke_http env url agent w) = No_reply"
  shows "\<exists>m'. resolve_relay_nodes env k m =
    (resolve (Some default_nodes) (k_additional k),
     k\<lparr>k_cached := Some (ke_now env m, resolve (Some default_nodes) (k_additional k))\<rparr>, m')"
proof -
  have silent: "fetch_nodes js (ke_http env) p url w = (None, snd (ke_http env url (user_agent p) w))"
    for js :: "'e serde_json" and p url w
  proof -
    obtain reply w' where eq: "ke_http env url (user_agent p) w = (reply, w')"
      by (cases "ke_http env url (user_agent p) w")
    then have "reply = No_reply" using assms(4) [rule_format, of url "user_agent p" w] by simp
    with eq show ?thesis by (simp add: fetch_nodes_def http_text_def)
  qed
  have "fst (fetch (env_js (ke_guest env)) (ke_http env) p w) = default_nodes" for p w
    by (simp add: fetch_def fetch_from_def silent split: option.split)
  then have "fst (fresh_nodes env k m) = resolve (Some default_nodes) (k_additional k)"
    using assms(1) by (simp add: fresh_nodes_def case_prod_beta)
  moreover have "\<not> ke_now env m - t < relay_node_cache_ttl" using assms(3) by simp
  ultimately show ?thesis
    using assms(1,2) fresh_nodes_nonempty [OF assms(1), of env m]
    by (cases "fresh_nodes env k m") (simp add: resolve_relay_nodes_def)
qed

theorem failed_refresh_replaces_cache_witness:
  "\<exists>m'. resolve_relay_nodes sample_client_env (sample_client\<lparr>k_cached := Some (0, [''tcp://old:1''])\<rparr>)
        (sample_world\<lparr>sn_clock := 300000\<rparr>)
    = (resolve (Some default_nodes) None,
       sample_client\<lparr>k_cached := Some (300000, resolve (Some default_nodes) None)\<rparr>, m')"
  using failed_refresh_replaces_cache [of "sample_client\<lparr>k_cached := Some (0, [''tcp://old:1''])\<rparr>" 0 "[''tcp://old:1'']"
      sample_client_env "sample_world\<lparr>sn_clock := 300000\<rparr>"]
  by (simp add: sample_client_env_def sample_client_def new_scaffolding_client_def relay_node_cache_ttl_def)

end
