(* ===== verification/Client_Tasks.thy ===== *)
theory Client_Tasks
  imports Client Tasks
begin

text \<open>
  The calls of the library entry (\<open>client.rs\<close>) as asynchronous functions: each of the three locks is
  taken for one access, and a call of a centre or a guest is one action here (\<open>Center_Tasks\<close> and
  \<open>Guest_Tasks\<close> have them lock by lock).  Run alone the calls are those of \<open>Client\<close>; interleaved,
  closing everything misses a room that is being created.
\<close>

section \<open>The calls\<close>

type_synonym ('m, 'r) client_prog = "(client \<times> 'm, 'r) prog"

text \<open>The work after a miss: \<open>cached\<close> is what was in the cache when the call looked.\<close>

definition refresh_task ::
  "('m, 'i, 'u, 'v, 'j) client_env \<Rightarrow> nat \<Rightarrow> (nat \<times> string list) option
     \<Rightarrow> (string list \<Rightarrow> ('m, 'r) client_prog) \<Rightarrow> ('m, 'r) client_prog" where
  "refresh_task env instant cached p =
     call (\<lambda>(k, m). case fresh_nodes env k m of (nodes, m) \<Rightarrow> (nodes, (k, m))) (\<lambda>nodes.
       if nodes = []
       then (case cached of
               Some (_, old) \<Rightarrow> if old \<noteq> [] then p old else p nodes
             | None \<Rightarrow> p nodes)
       else put (\<lambda>(k, m). (k\<lparr>k_cached := Some (instant, nodes)\<rparr>, m)) (p nodes))"

definition resolve_relay_nodes_task ::
  "('m, 'i, 'u, 'v, 'j) client_env \<Rightarrow> (string list \<Rightarrow> ('m, 'r) client_prog) \<Rightarrow> ('m, 'r) client_prog" where
  "resolve_relay_nodes_task env p =
     look (\<lambda>(k, m). ke_now env m) (\<lambda>instant. look (\<lambda>(k, m). k_cached k) (\<lambda>cached.
       case cached of
         Some (cached_at, nodes) \<Rightarrow>
           if nodes \<noteq> [] \<and> instant - cached_at < relay_node_cache_ttl then p nodes
           else refresh_task env instant cached p
       | None \<Rightarrow> refresh_task env instant cached p))"

text \<open>Starting the new centre; its number in the store, or the error.\<close>

definition open_center ::
  "('m, 'i, 'u, 'v, 'j) client_env \<Rightarrow> nat \<Rightarrow> center \<Rightarrow> client \<times> 'm \<Rightarrow> (nat res \<times> client \<times> 'm) option" where
  "open_center env ct c s =
     (case s of (k, m) \<Rightarrow>
        case center_start (ke_center env) ct c m of
          None \<Rightarrow> None
        | Some (r, c, m) \<Rightarrow>
            Some (rbind r (\<lambda>_. Inr (length (k_centers k))), k\<lparr>k_centers := k_centers k @ [c]\<rparr>, m))"

definition manage_center :: "nat \<Rightarrow> client \<times> 'm \<Rightarrow> client \<times> 'm" where
  "manage_center n s = (case s of (k, m) \<Rightarrow> (k\<lparr>k_managed_centers := k_managed_centers k @ [n]\<rparr>, m))"

definition create_room_task ::
  "('m, 'i, 'u, 'v, 'j) client_env \<Rightarrow> string \<Rightarrow> string \<Rightarrow> string \<Rightarrow> u16 \<Rightarrow> nat
     \<Rightarrow> center_room protocol_handler list \<Rightarrow> ping_hook option \<Rightarrow> (nat \<Rightarrow> lock_tries)
     \<Rightarrow> (nat res \<Rightarrow> ('m, 'r) client_prog) \<Rightarrow> ('m, 'r) client_prog" where
  "create_room_task env player_name machine_id vendor mc_port ct custom hook locks p =
     try_call (\<lambda>(k, m). case generate (env_rx (ke_guest env)) (ke_rng env) (k_draws k) of
         Some (Inr room_code, draws) \<Rightarrow> Some (room_code, (k\<lparr>k_draws := draws\<rparr>, m))
       | _ \<Rightarrow> None) (\<lambda>room_code.
     resolve_relay_nodes_task env (\<lambda>nodes.
       let c = new_center room_code player_name machine_id vendor mc_port (Some nodes) custom locks;
           c = (case hook of Some h \<Rightarrow> set_player_ping_handler h c | None \<Rightarrow> c)
       in try_call (open_center env ct c) (\<lambda>r.
            case r of
              Inl e \<Rightarrow> p (Inl e)
            | Inr n \<Rightarrow> put (manage_center n) (p (Inr n)))))"

text \<open>A guest that could not connect leaves at once.\<close>

definition connect_guest ::
  "('m, 'i, 'u, 'v, 'j) client_env \<Rightarrow> room_code \<Rightarrow> nat \<Rightarrow> guest \<Rightarrow> client \<times> 'm \<Rightarrow> ((unit res \<times> nat) \<times> client \<times> 'm) option" where
  "connect_guest env code ct g s =
     (case s of (k, m) \<Rightarrow>
        case connect (ke_guest env) code ct g m of
          None \<Rightarrow> None
        | Some (r, g, m) \<Rightarrow> Some ((r, length (k_guests k)), k\<lparr>k_guests := k_guests k @ [g]\<rparr>, m))"

definition leave_guest :: "('m, 'i, 'u, 'v, 'j) client_env \<Rightarrow> nat \<Rightarrow> client \<times> 'm \<Rightarrow> client \<times> 'm" where
  "leave_guest env i s =
     (case s of (k, m) \<Rightarrow>
        case leave (ke_guest env) (k_guests k ! i) m of (g, m) \<Rightarrow> (k\<lparr>k_guests := (k_guests k)[i := g]\<rparr>, m))"

definition join_room_task ::
  "('m, 'i, 'u, 'v, 'j) client_env \<Rightarrow> string \<Rightarrow> string \<Rightarrow> string \<Rightarrow> string \<Rightarrow> string list \<Rightarrow> nat
     \<Rightarrow> (nat res \<Rightarrow> ('m, 'r) client_prog) \<Rightarrow> ('m, 'r) client_prog" where
  "join_room_task env room_code_str player_name machine_id vendor custom_keys ct p =
     (case parse (env_rx (ke_guest env)) room_code_str of
        Inl e \<Rightarrow> p (Inl e)
      | Inr code \<Rightarrow> resolve_relay_nodes_task env (\<lambda>nodes.
          try_call (connect_guest env code ct (new_guest player_name machine_id vendor custom_keys (Some nodes))) (\<lambda>(r, n).
            case r of
              Inl e \<Rightarrow> put (leave_guest env n) (p (Inl e))
            | Inr _ \<Rightarrow> put (\<lambda>(k, m). (k\<lparr>k_managed_guests := k_managed_guests k @ [n]\<rparr>, m)) (p (Inr n)))))"

definition close_center :: "('m, 'i, 'u, 'v, 'j) client_env \<Rightarrow> nat \<Rightarrow> client \<times> 'm \<Rightarrow> client \<times> 'm" where
  "close_center env i s =
     (case s of (k, m) \<Rightarrow>
        case center_close (ke_center env) (k_centers k ! i) m of
          (_, c, m) \<Rightarrow> (k\<lparr>k_centers := (k_centers k)[i := c]\<rparr>, m))"

fun each_task :: "(nat \<Rightarrow> client \<times> 'm \<Rightarrow> client \<times> 'm) \<Rightarrow> nat list \<Rightarrow> ('m, 'r) client_prog \<Rightarrow> ('m, 'r) client_prog" where
  "each_task f [] p = p"
| "each_task f (i # is) p = put (f i) (each_task f is p)"

text \<open>\<open>close_all\<close>: both lists are taken, each under its lock, and what was taken is closed.\<close>

definition close_all_task :: "('m, 'i, 'u, 'v, 'j) client_env \<Rightarrow> ('m, 'r) client_prog \<Rightarrow> ('m, 'r) client_prog" where
  "close_all_task env p =
     call (\<lambda>(k, m). (k_managed_centers k, (k\<lparr>k_managed_centers := []\<rparr>, m))) (\<lambda>centers.
     each_task (close_center env) centers
       (call (\<lambda>(k, m). (k_managed_guests k, (k\<lparr>k_managed_guests := []\<rparr>, m))) (\<lambda>guests.
        each_task (leave_guest env) guests p)))"

section \<open>Run alone they are the calls\<close>

lemma alone_resolve [simp]:
  "alone (resolve_relay_nodes_task env p) (k, m) =
     (case resolve_relay_nodes env k m of (nodes, k, m) \<Rightarrow> alone (p nodes) (k, m))"
  by (auto simp: resolve_relay_nodes_task_def resolve_relay_nodes_def refresh_task_def Let_def
      split: option.split prod.split)

lemma alone_create_room:
  "alone (create_room_task env name mid vendor port ct custom hook locks p) (k, m) =
     (case create_room env name mid vendor port ct custom hook locks k m of
        None \<Rightarrow> None | Some (r, k, m) \<Rightarrow> alone (p r) (k, m))"
  by (auto simp: create_room_task_def create_room_def open_center_def manage_center_def Let_def
      split: option.splits prod.splits sum.splits)

lemma alone_join_room:
  "alone (join_room_task env code name mid vendor keys ct p) (k, m) =
     (case join_room env code name mid vendor keys ct k m of
        None \<Rightarrow> None | Some (r, k, m) \<Rightarrow> alone (p r) (k, m))"
  by (auto simp: join_room_task_def join_room_def connect_guest_def leave_guest_def Let_def
      split: option.splits prod.splits sum.splits)

lemma alone_close_each:
  "alone (each_task (close_center env) is p) (k, m) =
     (case close_centers env is (k_centers k) m of (cs, m) \<Rightarrow> alone p (k\<lparr>k_centers := cs\<rparr>, m))"
  by (induction "is" arbitrary: k m) (auto simp: close_center_def split: prod.split)

lemma alone_leave_each:
  "alone (each_task (leave_guest env) is p) (k, m) =
     (case leave_guests env is (k_guests k) m of (gs, m) \<Rightarrow> alone p (k\<lparr>k_guests := gs\<rparr>, m))"
  by (induction "is" arbitrary: k m) (auto simp: leave_guest_def split: prod.split)

lemma alone_close_all:
  "alone (close_all_task env p) (k, m) = alone p (close_all env k m)"
  by (cases k) (auto simp: close_all_task_def close_all_def alone_close_each alone_leave_each Let_def split: prod.split)

section \<open>The calls in a pool\<close>

datatype client_job =
    Create_job string string string u16 nat "center_room protocol_handler list" "ping_hook option" "nat \<Rightarrow> lock_tries"
  | Join_job string string string string "string list" nat
  | Close_all_job

datatype client_result = Created "nat res" | Entered "nat res" | All_closed

fun client_program :: "('m, 'i, 'u, 'v, 'j) client_env \<Rightarrow> client_job \<Rightarrow> ('m, client_result) client_prog" where
  "client_program env (Create_job name mid vendor port ct custom hook locks) =
     create_room_task env name mid vendor port ct custom hook locks (\<lambda>r. Done (Created r))"
| "client_program env (Join_job code name mid vendor keys ct) =
     join_room_task env code name mid vendor keys ct (\<lambda>r. Done (Entered r))"
| "client_program env Close_all_job = close_all_task env (Done All_closed)"

type_synonym 'm client_pool = "(client \<times> 'm, client_job, client_result) pool"

text \<open>Besides, the owners of the handles use them, and the world changes.\<close>

definition handles_used :: "client \<times> 'm \<Rightarrow> client \<times> 'm \<Rightarrow> bool" where
  "handles_used s t \<longleftrightarrow>
     (\<exists>cs gs. fst t = (fst s)\<lparr>k_centers := cs, k_guests := gs\<rparr>
        \<and> length cs = length (k_centers (fst s)) \<and> length gs = length (k_guests (fst s)))"

abbreviation client_pool_step ::
  "('m, 'i, 'u, 'v, 'j) client_env \<Rightarrow> 'm client_pool \<Rightarrow> client_job pool_label \<Rightarrow> 'm client_pool \<Rightarrow> bool" where
  "client_pool_step env \<equiv> pool_step (client_program env) (\<lambda>_ _. True) handles_used"

section \<open>Every interleaving\<close>

text \<open>
  What is managed is in the store, and what is cached is not empty; the store only grows, and with an
  override in place nobody asks the node service.
\<close>

definition client_safe :: "client \<times> 'm \<Rightarrow> bool" where
  "client_safe s \<longleftrightarrow> managed_stored (fst s) \<and> (\<forall>t nodes. k_cached (fst s) = Some (t, nodes) \<longrightarrow> nodes \<noteq> [])"

definition client_moves :: "client \<times> 'm \<Rightarrow> client \<times> 'm \<Rightarrow> bool" where
  "client_moves s t \<longleftrightarrow> (client_safe s \<longrightarrow> client_safe t)
     \<and> length (k_centers (fst s)) \<le> length (k_centers (fst t))
     \<and> length (k_guests (fst s)) \<le> length (k_guests (fst t))"

fun client_post :: "client_result \<Rightarrow> client \<times> 'm \<Rightarrow> bool" where
  "client_post (Created (Inr n)) s = (n < length (k_centers (fst s)))"
| "client_post (Entered (Inr n)) s = (n < length (k_guests (fst s)))"
| "client_post _ s = True"

interpretation entry: task_relation client_safe client_moves client_post
  by unfold_locales (auto simp: client_moves_def)

lemma entry_kept:
  assumes "k_managed_centers (fst t) = k_managed_centers (fst s)" and "k_managed_guests (fst t) = k_managed_guests (fst s)"
    and "k_cached (fst t) = k_cached (fst s)"
    and "length (k_centers (fst s)) \<le> length (k_centers (fst t))" and "length (k_guests (fst s)) \<le> length (k_guests (fst t))"
  shows "client_moves s t"
  using assms by (fastforce simp: client_moves_def client_safe_def managed_stored_def)

lemma entry_fresh:
  assumes "entry.ok_after s (p nodes)" and "nodes \<noteq> []"
  shows "entry.ok_after s (put (\<lambda>(k, m). (k\<lparr>k_cached := Some (instant, nodes)\<rparr>, m)) (p nodes))"
proof (rule entry.ok_put_any [OF _ assms(1)])
  fix t :: "client \<times> 'a"
  show "client_moves t (case t of (k, m) \<Rightarrow> (k\<lparr>k_cached := Some (instant, nodes)\<rparr>, m))"
    using assms(2) by (cases t) (simp add: client_moves_def client_safe_def managed_stored_def)
qed

lemma entry_refresh:
  fixes p :: "string list \<Rightarrow> ('m, client_result) client_prog"
  assumes "\<And>nodes. entry.ok_after s (p nodes)"
  shows "entry.ok_after s (refresh_task env instant cached p)"
  unfolding refresh_task_def
proof (rule entry.ok_call_any)
  fix t u :: "client \<times> 'm" and nodes
  show "client_moves t u" if "(case t of (k, m) \<Rightarrow> case fresh_nodes env k m of (nodes, m) \<Rightarrow> (nodes, (k, m))) = (nodes, u)"
    using that by (intro entry_kept) (auto split: prod.splits)
  show "entry.ok_after s (if nodes = [] then (case cached of
        Some (_, old) \<Rightarrow> if old \<noteq> [] then p old else p nodes | None \<Rightarrow> p nodes)
      else put (\<lambda>(k, m). (k\<lparr>k_cached := Some (instant, nodes)\<rparr>, m)) (p nodes))"
  proof (cases "nodes = []")
    case True
    then show ?thesis using assms by (simp split: option.split prod.split)
  next
    case False
    show ?thesis by (simp only: False if_False) (rule entry_fresh [OF assms False])
  qed
qed

lemma entry_resolve:
  assumes "\<And>nodes. entry.ok_after s (p nodes)"
  shows "entry.ok_after s (resolve_relay_nodes_task env p)"
  unfolding resolve_relay_nodes_task_def
  by (intro entry.ok_look_any) (simp add: assms entry_refresh split: option.split prod.split)

lemma entry_center:
  fixes s :: "client \<times> 'm"
  shows "entry.ok_after s (try_call (open_center env ct c) (\<lambda>r. case r of
      Inl e \<Rightarrow> Done (Created (Inl e)) | Inr n \<Rightarrow> put (manage_center n) (Done (Created (Inr n)))))"
proof (rule entry.ok_try_call_state, rule conjI)
  fix t u :: "client \<times> 'm" and r
  assume op: "open_center env ct c t = Some (r, u)"
  obtain k m where t: "t = (k, m)" by fastforce
  with op obtain q c' m' where "center_start (ke_center env) ct c m = Some (q, c', m')"
    by (auto simp: open_center_def split: option.splits)
  with op t have a: "t = (k, m)" "r = rbind q (\<lambda>_. Inr (length (k_centers k)))"
    "u = (k\<lparr>k_centers := k_centers k @ [c']\<rparr>, m')"
    by (simp_all add: open_center_def)
  then show "client_moves t u" by (intro entry_kept) simp_all
  have "entry.ok_after u (put (manage_center n) (Done (Created (Inr n))))" if "n < length (k_centers (fst u))" for n
  proof (rule entry.ok_put_state, rule conjI)
    fix v assume v: "client_moves u v"
    with that have n: "n < length (k_centers (fst v))" by (simp add: client_moves_def)
    then show "client_moves v (manage_center n v)"
      by (cases v) (simp add: manage_center_def client_moves_def client_safe_def managed_stored_def)
    show "entry.ok_after (manage_center n v) (Done (Created (Inr n)))"
      using n by (intro entry.ok_Done) (cases v, simp add: manage_center_def client_moves_def)
  qed
  moreover have "r = Inr n \<Longrightarrow> n < length (k_centers (fst u))" for n
    using a by (cases q) simp_all
  ultimately show "entry.ok_after u (case r of
      Inl e \<Rightarrow> Done (Created (Inl e)) | Inr n \<Rightarrow> put (manage_center n) (Done (Created (Inr n))))"
    by (cases r) (simp_all add: entry.ok_Done)
qed

lemma entry_create:
  fixes s :: "client \<times> 'm"
  shows "entry.ok_after s (client_program env (Create_job name mid vendor port ct custom hook locks))"
  unfolding client_program.simps create_room_task_def Let_def
proof (rule entry.ok_try_call_any, goal_cases)
  case (1 t a u)
  then show ?case by (intro entry_kept) (auto split: prod.splits option.splits sum.splits)
qed (intro entry_resolve entry_center)

lemma entry_leave: "client_moves s (leave_guest env i s)"
  by (cases s) (auto simp: leave_guest_def intro!: entry_kept split: prod.split)

lemma entry_close: "client_moves s (close_center env i s)"
  by (cases s) (auto simp: close_center_def intro!: entry_kept split: prod.split)

lemma entry_each:
  "(\<And>i s. client_moves s (f i s)) \<Longrightarrow> entry.ok_after s p \<Longrightarrow> entry.ok_after s (each_task f is p)"
  by (induction "is") (auto intro!: entry.ok_put_any)

lemma entry_guest:
  fixes s :: "client \<times> 'm"
  shows "entry.ok_after s (try_call (connect_guest env rc ct g) (\<lambda>(r, n). case r of
      Inl e \<Rightarrow> put (leave_guest env n) (Done (Entered (Inl e)))
    | Inr _ \<Rightarrow> put (\<lambda>(k, m). (k\<lparr>k_managed_guests := k_managed_guests k @ [n]\<rparr>, m)) (Done (Entered (Inr n)))))"
proof (rule entry.ok_try_call_state, rule conjI)
  fix t u :: "client \<times> 'm" and a
  assume op: "connect_guest env rc ct g t = Some (a, u)"
  then obtain k m r g' m' where a: "t = (k, m)" "a = (r, length (k_guests k))"
    "u = (k\<lparr>k_guests := k_guests k @ [g']\<rparr>, m')"
    by (auto simp: connect_guest_def split: prod.splits option.splits)
  then show "client_moves t u" by (intro entry_kept) simp_all
  let ?n = "length (k_guests k)"
  have managed: "entry.ok_after u (put (\<lambda>(k, m). (k\<lparr>k_managed_guests := k_managed_guests k @ [?n]\<rparr>, m))
      (Done (Entered (Inr ?n))))"
  proof (rule entry.ok_put_state, rule conjI)
    fix v assume v: "client_moves u v"
    with a(3) have n: "?n < length (k_guests (fst v))" by (simp add: client_moves_def)
    let ?w = "case v of (k', m) \<Rightarrow> (k'\<lparr>k_managed_guests := k_managed_guests k' @ [?n]\<rparr>, m)"
    show "client_moves v ?w"
      using n by (cases v) (simp add: client_moves_def client_safe_def managed_stored_def)
    show "entry.ok_after ?w (Done (Entered (Inr ?n)))"
      using n by (intro entry.ok_Done) (cases v, simp add: client_moves_def)
  qed
  have "entry.ok_after u (put (leave_guest env ?n) (Done (Entered (Inl e))))" for e
    by (rule entry.ok_put_any [OF entry_leave entry.ok_Done]) simp
  with managed show "entry.ok_after u (case a of (r, n) \<Rightarrow> case r of
      Inl e \<Rightarrow> put (leave_guest env n) (Done (Entered (Inl e)))
    | Inr _ \<Rightarrow> put (\<lambda>(k, m). (k\<lparr>k_managed_guests := k_managed_guests k @ [n]\<rparr>, m)) (Done (Entered (Inr n))))"
    unfolding a(2) by (cases r) simp_all
qed

lemma entry_join: "entry.ok_after s (client_program env (Join_job code name mid vendor keys ct))"
  unfolding client_program.simps join_room_task_def
  by (cases "parse (env_rx (ke_guest env)) code") (simp_all add: entry.ok_Done entry_resolve [OF entry_guest])

lemma entry_close_all:
  fixes s :: "client \<times> 'm"
  shows "entry.ok_after s (client_program env Close_all_job)"
proof -
  have taken: "client_moves t u" if "(case t of (k, m) \<Rightarrow> (f k, (k\<lparr>k_managed_centers := []\<rparr>, m))) = (a, u)
      \<or> (case t of (k, m) \<Rightarrow> (f k, (k\<lparr>k_managed_guests := []\<rparr>, m))) = (a, u)"
    for t u :: "client \<times> 'm" and f :: "client \<Rightarrow> nat list" and a
    using that by (cases t) (auto simp: client_moves_def client_safe_def managed_stored_def)
  have "entry.ok_after s (Done All_closed)" by (rule entry.ok_Done) simp
  then show ?thesis
    unfolding client_program.simps close_all_task_def
    using taken by (intro entry.ok_call_any entry_each entry_close entry_leave) blast+
qed

definition new_client :: "client \<times> 'm \<Rightarrow> bool" where
  "new_client s \<longleftrightarrow> client_init s \<and> k_cached (fst s) = None"

interpretation entry_pool: cooperation new_client client_safe client_moves client_post
  "client_program env" "\<lambda>_ _. True" handles_used
  for env :: "('m, 'i, 'u, 'v, 'j) client_env"
proof unfold_locales
  fix s t t' :: "client \<times> 'm" and p :: "'m client_pool" and j
  show "client_safe s" if "new_client s"
    using that by (cases s) (auto simp: new_client_def client_safe_def managed_stored_def)
  show "client_moves s t" if "handles_used s t"
    using that by (intro entry_kept) (auto simp: handles_used_def)
  show "keeps client_safe client_moves client_post (client_program env j) s"
    by (rule entry.ok_keeps [OF _ entry.moves_refl])
      (cases j; simp only: entry_create entry_join entry_close_all)
qed (fact entry.moves_safe entry.moves_refl entry.moves_trans)+

section \<open>Properties\<close>

text \<open>
  Creating a room, joining one and closing everything, taken lock by lock and not interrupted,
  are the calls of the atomic model: the same result, the same client with its store, the same world.
\<close>

lemma client_tasks_alone:
  "alone (create_room_task env name mid vendor port ct custom hook locks Done) (k, m)
     = map_option (\<lambda>(r, k, m). (r, (k, m))) (create_room env name mid vendor port ct custom hook locks k m)
 \<and> alone (join_room_task env code name mid vendor keys ct Done) (k, m)
     = map_option (\<lambda>(r, k, m). (r, (k, m))) (join_room env code name mid vendor keys ct k m)
 \<and> alone (close_all_task env (Done ())) (k, m) = Some ((), close_all env k m)"
  by (simp add: alone_create_room alone_join_room alone_close_all map_option_case split: option.split prod.split)

text \<open>What holds of the entry in every interleaving of its calls and the uses of the handles.\<close>

lemma interleaved_entry:
  assumes "reach (\<lambda>p. tasks p = [] \<and> new_client (common p)) (client_pool_step env) p"
  shows "managed_stored (fst (common p))"
    and "k_cached (fst (common p)) = Some (t, nodes) \<Longrightarrow> nodes \<noteq> []"
    and "(j, Done (Created (Inr n))) \<in> set (tasks p) \<Longrightarrow> n < length (k_centers (fst (common p)))"
  using entry_pool.reached(1) [OF assms] entry_pool.reached(2) [OF assms, of j "Created (Inr n)"]
  by (auto simp: client_safe_def)

lemma close_all_unmanages:
  "close_all env k m = (k', m') \<Longrightarrow> k_managed_centers k' = [] \<and> k_managed_guests k' = []"
  by (auto simp: close_all_def Let_def split: prod.splits)

text \<open>
  C32: Closing everything does not reach a room that is being created.  When \<open>close_all\<close> runs while
  \<open>create_room\<close> has generated its code and not started its centre yet, both succeed, and afterwards
  the room is open and managed although everything was closed.
\<close>

theorem close_all_misses_pending_room:
  assumes "clock_advances (ce_lib (ke_center env))"
    and "generate (env_rx (ke_guest env)) (ke_rng env) (k_draws k) = Some (Inr code, draws)"
    and "close_all env (k\<lparr>k_draws := draws\<rparr>) m = (k1, m1)"
    and "resolve_relay_nodes env k1 m1 = (nodes, k2, m2)"
    and "center_start (ke_center env) ct (new_center code name mid vendor port (Some nodes) custom locks) m2 = Some (Inr (), c, m3)"
  shows "\<exists>ls p'. run (client_pool_step env) \<lparr>tasks = [], common = (k, m)\<rparr> ls p'
    \<and> tasks p' = [(Create_job name mid vendor port ct custom None locks, Done (Created (Inr (length (k_centers k1))))),
                  (Close_all_job, Done All_closed)]
    \<and> k_managed_centers (fst (common p')) = [length (k_centers k1)]
    \<and> k_centers (fst (common p')) ! length (k_centers k1) = c \<and> c_server_ct c = Some ct \<and> \<not> closed_center c"
proof -
  let ?step = "client_pool_step env" and ?job = "Create_job name mid vendor port ct custom None locks"
  let ?n = "length (k_centers k1)" and ?k = "k\<lparr>k_draws := draws\<rparr>"
  define rest where "rest = resolve_relay_nodes_task env (\<lambda>nodes.
      try_call (open_center env ct (new_center code name mid vendor port (Some nodes) custom locks)) (\<lambda>r.
        case r of Inl e \<Rightarrow> Done (Created (Inl e)) | Inr n \<Rightarrow> put (manage_center n) (Done (Created (Inr n)))))"
  obtain ch where k2: "k2 = k1\<lparr>k_cached := ch\<rparr>" using resolve_relay_nodes_frame [OF assms(4)] by blast
  let ?k' = "k2\<lparr>k_centers := k_centers k2 @ [c], k_managed_centers := k_managed_centers k2 @ [?n]\<rparr>"
  define p1 where "p1 = \<lparr>tasks = [(?job, client_program env ?job)], common = (k, m)\<rparr>"
  define p2 where "p2 = \<lparr>tasks = [(?job, rest)], common = (?k, m)\<rparr>"
  define p3 where "p3 = \<lparr>tasks = [(?job, rest), (Close_all_job, client_program env Close_all_job)], common = (?k, m)\<rparr>"
  define p4 where "p4 = \<lparr>tasks = [(?job, rest), (Close_all_job, Done All_closed)], common = (k1, m1)\<rparr>"
  define p5 where "p5 = \<lparr>tasks = [(?job, Done (Created (Inr ?n))), (Close_all_job, Done All_closed)], common = (?k', m3)\<rparr>"
  have s1: "?step \<lparr>tasks = [], common = (k, m)\<rparr> (Start ?job) p1"
    using start [of "\<lambda>_ _. True" "\<lparr>tasks = [], common = (k, m)\<rparr>" ?job "client_program env" handles_used]
    by (simp add: p1_def)
  have "turns [0] p1 = Some p2"
    using assms(2) by (simp add: p1_def p2_def rest_def create_room_task_def try_call_def Let_def)
  from turns_run [OF this] have s2: "run ?step p1 (map Turn [0]) p2" .
  have s3: "?step p2 (Start Close_all_job) p3"
    using start [of "\<lambda>_ _. True" p2 Close_all_job "client_program env" handles_used] by (simp add: p2_def p3_def)
  have "alone (client_program env Close_all_job) (?k, m) = Some (All_closed, (k1, m1))"
    by (simp add: alone_close_all assms(3))
  then obtain n where s4: "run ?step p3 (replicate n (Turn 1)) p4"
    using alone_runs [of 1 p3 Close_all_job "client_program env Close_all_job" All_closed "(k1, m1)"
        "client_program env" "\<lambda>_ _. True" handles_used]
    by (auto simp: p3_def p4_def)
  have "alone rest (k1, m1) = Some (Created (Inr ?n), (?k', m3))"
    using assms(4,5) k2 by (simp add: rest_def open_center_def manage_center_def)
  then obtain n' where s5: "run ?step p4 (replicate n' (Turn 0)) p5"
    using alone_runs [of 0 p4 ?job rest "Created (Inr ?n)" "(?k', m3)" "client_program env" "\<lambda>_ _. True" handles_used]
    by (auto simp: p4_def p5_def)
  have "c_server_ct c = Some ct" 
    using center_start_outcome [OF assms(1), of ct "new_center code name mid vendor port (Some nodes) custom locks" m2]
      assms(5) by auto
  moreover from this have "\<not> closed_center c" by (simp add: closed_center_def)
  moreover have "k_managed_centers (fst (common p5)) = [?n]" "k_centers (fst (common p5)) ! ?n = c"
    using close_all_unmanages [OF assms(3)] by (simp_all add: p5_def k2)
  ultimately show ?thesis
    using run_Cons [where step = ?step, OF s1 run_append [OF s2 run_Cons [where step = ?step, OF s3 run_append [OF s4 s5]]]]
    by (intro exI conjI) (assumption, simp_all add: p5_def)
qed

theorem close_all_misses_pending_room_witness:
  "\<exists>ls p' n. run (client_pool_step (sample_client_env\<lparr>ke_guest := sample_env\<lparr>env_rx := room_engine\<rparr>\<rparr>))
      \<lparr>tasks = [], common = (sample_client, sample_world)\<rparr> ls p'
    \<and> tasks p' = [(Create_job ''H'' ''h1'' ''v'' 25565 7 [] None (\<lambda>_ _. True), Done (Created (Inr n))),
                  (Close_all_job, Done All_closed)]
    \<and> k_managed_centers (fst (common p')) = [n] \<and> \<not> closed_center (k_centers (fst (common p')) ! n)"
proof -
  let ?env = "sample_client_env\<lparr>ke_guest := sample_env\<lparr>env_rx := room_engine\<rparr>\<rparr>"
  have env: "clock_advances (ce_lib (ke_center ?env))" "ke_center ?env = sample_center_env"
    by (simp_all add: sample_client_env_def)
  have "\<exists>code draws. generate room_engine (\<lambda>_. replicate 8 0) 0 = Some (Inr code, draws)"
    using generate_outcome [OF room_engine_reads, of "\<lambda>_. replicate 8 0" 0] validate_checksum_zeros
    by (auto simp: fills_eight_def)
  then obtain code draws where gen: "generate (env_rx (ke_guest ?env)) (ke_rng ?env) (k_draws sample_client) = Some (Inr code, draws)"
    by (auto simp: sample_client_env_def sample_client_def new_scaffolding_client_def)
  obtain k1 m1 where cl: "close_all ?env (sample_client\<lparr>k_draws := draws\<rparr>) sample_world = (k1, m1)" by fastforce
  obtain nodes k2 m2 where res: "resolve_relay_nodes ?env k1 m1 = (nodes, k2, m2)" by (metis prod_cases3)
  obtain c m3 where st: "center_start (ke_center ?env) 7
      (new_center code ''H'' ''h1'' ''v'' 25565 (Some nodes) [] (\<lambda>_ _. True)) m2 = Some (Inr (), c, m3)"
    unfolding env(2) using sample_room_starts by blast
  from close_all_misses_pending_room [OF env(1) gen cl res st] show ?thesis by metis
qed

end
