(* ===== verification/Cli.thy ===== *)
theory Cli
  imports Client
begin

text \<open>
  The command line program (\<open>qomicex-connector-cli/src/main.rs\<close>): a local relay, hosting a room and
  joining one.  The lines the main task prints are passed on as a list; every exit of the program is
  a value.
\<close>

section \<open>Environment\<close>

text \<open>
  The library entry; the \<open>url\<close> parser with the text of its error; \<open>TomlConfig::default()\<close>; waiting for
  Ctrl+C, \<open>None\<close> if it never comes; what the tasks of an open room do to it meanwhile; how many heartbeats of a guest elapse
  meanwhile; the lock attempts of the player list of a new room.
\<close>

record ('m, 'i, 'u, 'v, 'j) cli_env =
  li_client :: "('m, 'i, 'u, 'v, 'j) client_env"
  li_parse_url :: "string \<Rightarrow> string + 'u"
  li_default_config :: "('i, 'u, 'v) toml_config"
  li_ctrl_c :: "'m \<Rightarrow> ((string + unit) \<times> 'm) option"
  li_room_open :: "center \<Rightarrow> 'm \<Rightarrow> center \<times> 'm"
  li_beats :: "'m \<Rightarrow> nat"
  li_locks :: "nat \<Rightarrow> lock_tries"

text \<open>The arguments; \<open>None\<close> where a default applies.\<close>

datatype cli_command =
    Cmd_relay "string option" "nat option"
  | Cmd_host string "string option"
  | Cmd_guest string "string option"

definition default_listen :: string where "default_listen = ''0.0.0.0:11010''"

definition default_player_name :: string where "default_player_name = ''Qomicex-Player''"

text \<open>\<open>main\<close> returns a result, or the process is ended with a code.\<close>

datatype cli_exit = Returned "string + unit" | Exited nat

section \<open>The relay\<close>

definition relay_config ::
  "('m, 'i, 'u, 'v, 'j) cli_env \<Rightarrow> string \<Rightarrow> string + ('i, 'u, 'v) toml_config" where
  "relay_config env listen =
     rbind (li_parse_url env (''tcp://'' @ listen)) (\<lambda>tcp.
     rbind (li_parse_url env (''udp://'' @ listen)) (\<lambda>udp.
       Inr ((li_default_config env)\<lparr>
         tc_network_name := ''qomicex-local-relay'', tc_network_secret := ''qomicex-relay-secret'',
         tc_hostname := ''qomicex-local-relay'', tc_dhcp := Some True, tc_listeners := Some [tcp, udp],
         tc_no_tun := True, tc_use_smoltcp := True, tc_multi_thread := True, tc_latency_first := True \<rparr>)))"

text \<open>The loop that waits for the instance, with \<open>n\<close> rounds left.\<close>

fun await_relay :: "('m, 'i, 'u, 'v) easytier_lib \<Rightarrow> nat \<Rightarrow> nat \<Rightarrow> 'm \<Rightarrow> 'm" where
  "await_relay lib i 0 m = m"
| "await_relay lib i (Suc n) m =
     (if lib_instance lib i m \<and> lib_ready lib i m then m
      else await_relay lib i n (lib_sleep lib 500 m))"

definition run_relay ::
  "('m, 'i, 'u, 'v, 'j) cli_env \<Rightarrow> string \<Rightarrow> nat \<Rightarrow> string list \<Rightarrow> 'm
     \<Rightarrow> ((string + unit) \<times> string list \<times> 'm) option" where
  "run_relay env listen seconds out m =
     (let lib = env_lib (ke_guest (li_client env));
          out = out @ [msg_relay_starting @ listen @ ''...'']
      in case relay_config env listen of
           Inl e \<Rightarrow> Some (Inl e, out, m)
         | Inr cfg \<Rightarrow>
             (case lib_run lib cfg m of
                (Inl e, m) \<Rightarrow> Some (Inl e, out, m)
              | (Inr i, m) \<Rightarrow>
                  (let m = await_relay lib i 60 m;
                       out = out @ [msg_relay_ready]
                   in case (if seconds > 0 then Some (Inr (), lib_sleep lib (seconds * 1000) m) else li_ctrl_c env m) of
                        None \<Rightarrow> None
                      | Some (Inl e, m) \<Rightarrow> Some (Inl e, out, m)
                      | Some (Inr _, m) \<Rightarrow>
                          (case lib_delete lib i m of
                             (Inl e, m) \<Rightarrow> Some (Inl e, out, m)
                           | (Inr _, m) \<Rightarrow> Some (Inr (), out @ [msg_relay_stopped], m)))))"

section \<open>Hosting a room\<close>

text \<open>
  The handle of the centre is an entry of the store; the task that prints the number of players is
  its subscription.
\<close>

definition run_host ::
  "('m, 'i, 'u, 'v, 'j) cli_env \<Rightarrow> nat \<Rightarrow> string \<Rightarrow> string \<Rightarrow> u16 \<Rightarrow> string list \<Rightarrow> client \<Rightarrow> 'm
     \<Rightarrow> ((string + unit) \<times> string list \<times> client \<times> 'm) option" where
  "run_host env ct player_name machine_id port out k m =
     (let out = out @ [msg_creating_room]
      in case create_room (li_client env) player_name machine_id ''Qomicex'' port ct [] None (li_locks env) k m of
           None \<Rightarrow> None
         | Some (Inl e, k, m) \<Rightarrow> Some (Inl (error_display e), out, k, m)
         | Some (Inr n, k, m) \<Rightarrow>
             (let c = k_centers k ! n;
                  out = out @ [msg_room_code @ raw (c_room_code c), msg_press_ctrl_c];
                  c = c\<lparr>c_room := players_changed_rx (c_room c)\<rparr>;
                  (c, m) = li_room_open env c m
              in case li_ctrl_c env m of
                   None \<Rightarrow> None
                 | Some (Inl e, m) \<Rightarrow> Some (Inl e, out, k\<lparr>k_centers := (k_centers k)[n := c]\<rparr>, m)
                 | Some (Inr _, m) \<Rightarrow>
                     (let (r, c, m) = center_close (ke_center (li_client env)) c m
                      in Some (map_err error_display r, out, k\<lparr>k_centers := (k_centers k)[n := c]\<rparr>, m))))"

section \<open>Joining a room\<close>

text \<open>What is done with the guest once it has joined; heartbeats go on while the signal is awaited.\<close>

definition guest_in_room ::
  "('m, 'i, 'u, 'v, 'j) cli_env \<Rightarrow> string list \<Rightarrow> guest \<Rightarrow> 'm
     \<Rightarrow> ((string + unit) \<times> string list \<times> guest \<times> 'm) option" where
  "guest_in_room env out g m =
     (let genv = ke_guest (li_client env); out = out @ [msg_joined]
      in case map_minecraft_port genv g m of
           (Inl e, g, m) \<Rightarrow> Some (Inl (error_display e), out, g, m)
         | (Inr (mc_host, mc_port), g, m) \<Rightarrow>
             (let out = out @ [msg_mc_address @ mc_host @ '':'' @ show_nat (unat mc_port)]
              in case get_player_list genv g m of
                   (Inl e, g, m) \<Rightarrow> Some (Inl (error_display e), out, g, m)
                 | (Inr pls, g, m) \<Rightarrow>
                     (let out = out @ [msg_players @ show_nat (length pls) @ ''):'']
                                  @ map (\<lambda>pl. ''  '' @ pi_name pl) pls @ [msg_press_ctrl_c];
                          (_, g, m) = heartbeat_run (guest_heartbeat genv)
                                        (replicate (li_beats env m) Elapsed) (g, m)
                      in case li_ctrl_c env m of
                           None \<Rightarrow> None
                         | Some (Inl e, m) \<Rightarrow> Some (Inl e, out, g, m)
                         | Some (Inr _, m) \<Rightarrow> (let (g, m) = leave genv g m in Some (Inr (), out, g, m)))))"

definition run_guest ::
  "('m, 'i, 'u, 'v, 'j) cli_env \<Rightarrow> nat \<Rightarrow> string \<Rightarrow> string \<Rightarrow> string \<Rightarrow> string list \<Rightarrow> client \<Rightarrow> 'm
     \<Rightarrow> ((string + unit) \<times> string list \<times> client \<times> 'm) option" where
  "run_guest env ct room_code player_name machine_id out k m =
     (let out = out @ [msg_joining_room @ room_code @ ''...'']
      in case join_room (li_client env) room_code player_name machine_id ''Qomicex'' [] ct k m of
           None \<Rightarrow> None
         | Some (Inl e, k, m) \<Rightarrow> Some (Inl (error_display e), out, k, m)
         | Some (Inr n, k, m) \<Rightarrow>
             map_option (\<lambda>(r, out, g, m). (r, out, k\<lparr>k_guests := (k_guests k)[n := g]\<rparr>, m))
               (guest_in_room env out (k_guests k ! n) m))"

section \<open>The program\<close>

text \<open>The end of \<open>main\<close> for host and guest.\<close>

definition finish ::
  "('m, 'i, 'u, 'v, 'j) cli_env \<Rightarrow> (string + unit) \<times> string list \<times> client \<times> 'm
     \<Rightarrow> cli_exit \<times> string list \<times> client option \<times> 'm" where
  "finish env = (\<lambda>(result, out, k, m).
     let (k, m) = close_all (li_client env) k m
     in case result of
          Inr _ \<Rightarrow> (Returned (Inr ()), out, Some k, m)
        | Inl e \<Rightarrow> (Exited 1, out @ [msg_error @ e], Some k, m))"

text \<open>
  \<open>uuid\<close> is the text of the random identifier; the client is \<open>None\<close> where none was made.  The whole is
  \<open>None\<close> if the program does not return.
\<close>

definition cli_main ::
  "('m, 'i, 'u, 'v, 'j) cli_env \<Rightarrow> string list \<Rightarrow> cli_command \<Rightarrow> string \<Rightarrow> nat \<Rightarrow> 'm
     \<Rightarrow> (cli_exit \<times> string list \<times> client option \<times> 'm) option" where
  "cli_main env relay_args command uuid ct m =
     (let relays = (if relay_args = [] then None else Some relay_args);
          machine_id = take 12 uuid;
          k = new_scaffolding_client relays None None None
      in case command of
           Cmd_relay listen seconds \<Rightarrow>
             map_option (\<lambda>(r, out, m). (Returned r, out, None, m))
               (run_relay env (unwrap_or default_listen listen) (unwrap_or 0 seconds) [] m)
         | Cmd_host mc_port player_name \<Rightarrow>
             (case parse_uint 65535 mc_port of
                None \<Rightarrow> Some (Returned (Inl (error_display (Protocol msg_bad_port))), [], Some k, m)
              | Some port \<Rightarrow>
                  map_option (finish env)
                    (run_host env ct (unwrap_or default_player_name player_name) machine_id
                       (word_of_nat port) [] k m))
         | Cmd_guest room_code player_name \<Rightarrow>
             map_option (finish env)
               (run_guest env ct room_code (unwrap_or default_player_name player_name) machine_id [] k m))"

section \<open>Lemmas\<close>

text \<open>The calls of the library entry return, and what they leave in the store.\<close>

lemma leave_left: "leave env g m = (g', m') \<Longrightarrow> left_guest g'"
  using leave_effect by (simp add: left_guest_def)

lemma join_room_outcome:
  assumes "clock_advances (env_lib (ke_guest env))"
  shows "\<exists>r k' m'. join_room env code name mid vendor keys ct k m = Some (r, k', m')
    \<and> k_centers k' = k_centers k \<and> k_managed_centers k' = k_managed_centers k
    \<and> (case r of
         Inl e \<Rightarrow> k_managed_guests k' = k_managed_guests k
                \<and> (\<exists>gs. k_guests k' = k_guests k @ gs \<and> list_all left_guest gs)
       | Inr n \<Rightarrow> n = length (k_guests k) \<and> k_managed_guests k' = k_managed_guests k @ [n]
                \<and> (\<exists>g. k_guests k' = k_guests k @ [g]))"
proof (cases "parse (env_rx (ke_guest env)) code")
  case (Inl e)
  then show ?thesis by (simp add: join_room_def)
next
  case (Inr rc)
  obtain nodes k1 m1 where res: "resolve_relay_nodes env k m = (nodes, k1, m1)" by (metis prod_cases3)
  obtain ch where k1: "k1 = k\<lparr>k_cached := ch\<rparr>" using resolve_relay_nodes_frame [OF res] by blast
  obtain r g m2 where con: "connect (ke_guest env) rc ct (new_guest name mid vendor keys (Some nodes)) m1
      = Some (r, g, m2)" using connect_total [OF assms] by blast
  obtain g' m3 where lv: "leave (ke_guest env) g m2 = (g', m3)" by fastforce
  show ?thesis
    by (cases r) (simp_all add: join_room_def Inr res con lv k1 leave_left [OF lv])
qed

lemma center_start_code: "center_start env ct c m = Some (r, c', m') \<Longrightarrow> c_room_code c' = c_room_code c"
  by (auto simp: center_start_def start_network_def task_begins_def Let_def split: sum.splits option.splits prod.splits)

lemma create_room_outcome:
  assumes "clock_advances (ce_lib (ke_center env))"
    and "generate (env_rx (ke_guest env)) (ke_rng env) (k_draws k) = Some (Inr code, draws)"
  shows "\<exists>r k' m' c. create_room env name mid vendor port ct custom hook locks k m = Some (r, k', m')
    \<and> k_guests k' = k_guests k \<and> k_managed_guests k' = k_managed_guests k
    \<and> k_centers k' = k_centers k @ [c] \<and> c_room_code c = code
    \<and> (case r of
         Inl e \<Rightarrow> k_managed_centers k' = k_managed_centers k
       | Inr n \<Rightarrow> n = length (k_centers k) \<and> k_managed_centers k' = k_managed_centers k @ [n]
                \<and> c_server_ct c = Some ct)"
proof -
  obtain nodes k1 m1 where res: "resolve_relay_nodes env (k\<lparr>k_draws := draws\<rparr>) m = (nodes, k1, m1)"
    by (metis prod_cases3)
  obtain ch where k1: "k1 = k\<lparr>k_draws := draws, k_cached := ch\<rparr>"
    using resolve_relay_nodes_frame [OF res] by auto
  define c0 where "c0 = (case hook of
      Some h \<Rightarrow> set_player_ping_handler h (new_center code name mid vendor port (Some nodes) custom locks)
    | None \<Rightarrow> new_center code name mid vendor port (Some nodes) custom locks)"
  then have c0: "c_room_code c0 = code"
    by (simp add: set_player_ping_handler_def new_center_def split: option.split)
  obtain r c m2 where st: "center_start (ke_center env) ct c0 m1 = Some (r, c, m2)"
    "r = Inr () \<longrightarrow> c_server_ct c = Some ct"
    using center_start_outcome [OF assms(1), of ct c0 m1] by blast
  show ?thesis
  proof (cases r)
    case (Inl e)
    with assms(2) res st show ?thesis
      by (intro exI [of _ "Inl e"] exI [of _ "k1\<lparr>k_centers := k_centers k1 @ [c]\<rparr>"] exI [of _ m2] exI [of _ c])
        (simp add: create_room_def k1 c0_def [symmetric] center_start_code [OF st(1)] c0)
  next
    case (Inr u)
    with assms(2) res st show ?thesis
      by (intro exI [of _ "Inr (length (k_centers k1))"]
          exI [of _ "k1\<lparr>k_centers := k_centers k1 @ [c],
             k_managed_centers := k_managed_centers k1 @ [length (k_centers k1)]\<rparr>"] exI [of _ m2] exI [of _ c])
        (simp add: create_room_def k1 c0_def [symmetric] center_start_code [OF st(1)] c0)
  qed
qed

text \<open>The tasks of a centre keep the token it was started with and its code.\<close>

lemma center_run_keeps:
  "run (center_step js) c ls c' \<Longrightarrow> c_server_ct c' = c_server_ct c \<and> c_room_code c' = c_room_code c"
proof (induction rule: run.induct)
  case (run_Cons c l c' ls c'')
  from run_Cons(1) have "c_server_ct c' = c_server_ct c \<and> c_room_code c' = c_room_code c"
    by (cases rule: center_step.cases)
      (auto simp: remove_player_def center_get_players_def task_ends_def split: prod.split serve_task.split)
  with run_Cons.IH show ?case by simp
qed simp

lemma heartbeat_run_room:
  "heartbeat_run (guest_heartbeat env) ws (g, m) = (ended, g', m') \<Longrightarrow> same_room g g'"
proof (induction ws arbitrary: g m)
  case (Cons w ws)
  obtain over g1 m1 where it: "heartbeat_iteration (guest_heartbeat env) w (g, m) = (over, g1, m1)"
    by (metis prod_cases3)
  with Cons show ?case
    using heartbeat_room [OF it] by (auto split: if_splits intro: same_room_trans)
qed simp

text \<open>
  What the guest \<open>g\<close> that has joined has printed, and is in the end, when it has not failed: the address is
  the one it mapped, and the players are those that the centre then answered with.
\<close>

definition visited :: "('m, 'i, 'u, 'v, 'j) cli_env \<Rightarrow> string list \<Rightarrow> guest \<Rightarrow> 'm \<Rightarrow> guest \<Rightarrow> string list \<Rightarrow> bool" where
  "visited env before g m g' out \<longleftrightarrow>
     (\<exists>h p pls g1 m1 g2 m2.
        map_minecraft_port (ke_guest (li_client env)) g m = (Inr (h, p), g1, m1)
      \<and> get_player_list (ke_guest (li_client env)) g1 m1 = (Inr pls, g2, m2)
      \<and> minecraft_address g' = Some (h, p)
      \<and> out = before @ [msg_joined, msg_mc_address @ h @ '':'' @ show_nat (unat p),
                    msg_players @ show_nat (length pls) @ ''):'']
                 @ map (\<lambda>pl. ''  '' @ pi_name pl) pls @ [msg_press_ctrl_c])"

lemma map_minecraft_port_holds:
  "map_minecraft_port env g m = (r, g', m') \<Longrightarrow> g_easy_tier g' = g_easy_tier g \<and> g_heartbeat_ct g' = g_heartbeat_ct g"
  by (auto simp: map_minecraft_port_def push_forward_def same_room_def Let_def
      split: if_splits option.splits sum.splits prod.splits dest!: get_server_port_room)

lemma guest_told_same:
  "g_easy_tier g' = g_easy_tier g \<Longrightarrow> g_heartbeat_ct g' = g_heartbeat_ct g \<Longrightarrow> guest_told told g' m = guest_told told g m"
  by (simp add: guest_told_def)

text \<open>In the room: it ends, or the signal does not come; what it holds is held or given up.\<close>

lemma guest_in_room_result:
  shows "guest_in_room env before g m = None \<Longrightarrow> \<exists>w. li_ctrl_c env w = None"
    and "guest_in_room env before g m = Some (r, out, g', m') \<Longrightarrow> r = Inr () \<Longrightarrow> visited env before g m g' out"
    and "guest_in_room env before g m = Some (r, out, g', m') \<Longrightarrow> calls_recorded (li_client env) told \<Longrightarrow>
         g_easy_tier g' = g_easy_tier g \<and> g_heartbeat_ct g' = g_heartbeat_ct g \<or> guest_told told g m'"
proof -
  let ?genv = "ke_guest (li_client env)"
  obtain r1 g1 m1 where mapped: "map_minecraft_port ?genv g m = (r1, g1, m1)" by (metis prod_cases3)
  obtain r2 g2 m2 where list: "get_player_list ?genv g1 m1 = (r2, g2, m2)" by (metis prod_cases3)
  obtain over g3 m3 where beats: "heartbeat_run (guest_heartbeat ?genv)
      (replicate (li_beats env m2) Elapsed) (g2, m2) = (over, g3, m3)" by (metis prod_cases3)
  note steps = mapped list beats
  have room: "same_room g1 g2" "same_room g1 g3"
    using get_player_list_room [OF list] same_room_trans [OF get_player_list_room [OF list] heartbeat_run_room [OF beats]]
    by simp_all
  have held: "g_easy_tier g1 = g_easy_tier g" "g_heartbeat_ct g1 = g_heartbeat_ct g"
    "g_easy_tier g2 = g_easy_tier g" "g_heartbeat_ct g2 = g_heartbeat_ct g"
    "g_easy_tier g3 = g_easy_tier g" "g_heartbeat_ct g3 = g_heartbeat_ct g"
    using map_minecraft_port_holds [OF mapped] room by (simp_all add: same_room_def)
  show "\<exists>w. li_ctrl_c env w = None" if "guest_in_room env before g m = None"
    using that by (auto simp: guest_in_room_def steps Let_def split: sum.splits option.splits prod.splits)
  assume result: "guest_in_room env before g m = Some (r, out, g', m')"
  show "visited env before g m g' out" if ok: "r = Inr ()"
  proof -
    obtain h p pls m4 where end_: "r1 = Inr (h, p)" "r2 = Inr pls" "leave ?genv g3 m4 = (g', m')"
      "out = before @ [msg_joined, msg_mc_address @ h @ '':'' @ show_nat (unat p),
                    msg_players @ show_nat (length pls) @ ''):'']
                 @ map (\<lambda>pl. ''  '' @ pi_name pl) pls @ [msg_press_ctrl_c]"
      using result ok by (auto simp: guest_in_room_def steps Let_def split: sum.splits option.splits prod.splits)
    have "minecraft_address g1 = Some (h, p)" using map_minecraft_port_result [OF mapped] end_(1) by simp
    then have "minecraft_address g' = Some (h, p)"
      using room(2) leave_map [OF end_(3)] by (simp add: same_room_def same_map_def minecraft_address_def)
    with end_ mapped list show ?thesis unfolding visited_def by blast
  qed
  show "g_easy_tier g' = g_easy_tier g \<and> g_heartbeat_ct g' = g_heartbeat_ct g \<or> guest_told told g m'"
    if recorded: "calls_recorded (li_client env) told"
  proof -
    have "g' = g1 \<or> g' = g2 \<or> g' = g3 \<or> (\<exists>m4. leave ?genv g3 m4 = (g', m'))"
      using result by (auto simp: guest_in_room_def steps Let_def split: sum.splits option.splits prod.splits)
    moreover have "guest_told told g m'" if "leave ?genv g3 m4 = (g', m')" for m4
      using leave_told [OF that recorded] held(5,6) by (simp add: guest_told_def)
    ultimately show ?thesis using held by (elim disjE exE) simp_all
  qed
qed

text \<open>A guest that has left leaves again the same way.\<close>

lemma finish_guest:
  assumes "k_managed_centers k = []" and "k_managed_guests k = [0]" and "k_guests k = [g]"
    and "close_all (li_client env) k m = (k', m')"
  shows "\<exists>g'. k_guests k' = [g'] \<and> left_guest g' \<and> minecraft_address g' = minecraft_address g \<and> k_centers k' = k_centers k
      \<and> k_managed_centers k' = [] \<and> k_managed_guests k' = []"
    and "calls_recorded (li_client env) told \<Longrightarrow> guest_told told g m' \<and> (\<forall>call. told call m \<longrightarrow> told call m')"
proof -
  obtain g' m1 where lv: "leave (ke_guest (li_client env)) g m = (g', m1)" by fastforce
  have k': "k' = k\<lparr>k_managed_centers := [], k_managed_guests := [], k_guests := [g']\<rparr>" "m' = m1"
    using assms lv by (simp_all add: close_all_def)
  have "minecraft_address g' = minecraft_address g"
    using leave_map [OF lv] by (simp add: same_map_def minecraft_address_def)
  with leave_left [OF lv] show "\<exists>g'. k_guests k' = [g'] \<and> left_guest g' \<and> minecraft_address g' = minecraft_address g
      \<and> k_centers k' = k_centers k \<and> k_managed_centers k' = [] \<and> k_managed_guests k' = []"
    using assms(1) by (simp add: k')
  show "guest_told told g m' \<and> (\<forall>call. told call m \<longrightarrow> told call m')" if "calls_recorded (li_client env) told"
    using leave_told [OF lv that] by (simp add: k'(2))
qed

section \<open>Properties\<close>

text \<open>The relay says it is ready after its 60 rounds, ready or not.\<close>

lemma relay_reports_ready_regardless:
  assumes "relay_config env listen = Inr cfg"
    and "lib_run (env_lib (ke_guest (li_client env))) cfg m = (Inr i, m1)"
    and "run_relay env listen seconds [] m = Some (r, out, m')"
  shows "take 2 out = [msg_relay_starting @ listen @ ''...'', msg_relay_ready]"
  using assms by (auto simp: run_relay_def Let_def split: if_splits option.splits sum.splits prod.splits)

text \<open>
  C23: given a clock that advances, the program that joins a room returns, whatever the room code, the
  network and the other side do, unless the signal it waits for at the end never comes; and it has left
  every room by then: no connection, no heartbeat token, no EasyTier instance on record, and the token
  and the instance that its guest had were cancelled and deleted.  When joining fails the exit code is
  1 and the error is printed.  After joining it ends without an error only if it has printed the address
  that its guest mapped and the number and names of the players that the centre answered with;
  otherwise the exit code is 1 and the error is the last line.
\<close>

theorem guest_program_leaves:
  assumes "clock_advances (env_lib (ke_guest (li_client env)))" and "calls_recorded (li_client env) told"
  shows "case cli_main env relays (Cmd_guest code name) uuid ct m of
      None \<Rightarrow> \<exists>w. li_ctrl_c env w = None
    | Some (exit, out, client, m') \<Rightarrow>
        (\<exists>k. client = Some k \<and> list_all left_guest (k_guests k) \<and> k_managed_guests k = [] \<and> k_centers k = []
         \<and> (case join_room (li_client env) code (unwrap_or default_player_name name) (take 12 uuid) ''Qomicex'' [] ct
                   (new_scaffolding_client (if relays = [] then None else Some relays) None None None) m of
              None \<Rightarrow> False
            | Some (Inl e, k1, m1) \<Rightarrow>
                exit = Exited 1 \<and> out = [msg_joining_room @ code @ ''...'', msg_error @ error_display e]
            | Some (Inr n, k1, m1) \<Rightarrow>
                guest_told told (k_guests k1 ! n) m'
              \<and> (exit = Returned (Inr ())
                   \<and> (\<exists>g. k_guests k = [g] \<and> visited env [msg_joining_room @ code @ ''...''] (k_guests k1 ! n) m1 g out)
               \<or> exit = Exited 1 \<and> (\<exists>before e. out = before @ [msg_error @ e]))))"
proof -
  let ?k = "new_scaffolding_client (if relays = [] then None else Some relays) None None None"
  let ?name = "unwrap_or default_player_name name"
  have new: "k_guests ?k = []" "k_centers ?k = []" "k_managed_guests ?k = []" "k_managed_centers ?k = []"
    by (simp_all add: new_scaffolding_client_def)
  obtain r k1 m1 where join: "join_room (li_client env) code ?name (take 12 uuid) ''Qomicex'' [] ct ?k m = Some (r, k1, m1)"
    and centers: "k_centers k1 = []" "k_managed_centers k1 = []"
    and out: "case r of
         Inl e \<Rightarrow> k_managed_guests k1 = [] \<and> (\<exists>gs. k_guests k1 = gs \<and> list_all left_guest gs)
       | Inr n \<Rightarrow> n = 0 \<and> k_managed_guests k1 = [n] \<and> (\<exists>g. k_guests k1 = [g])"
    using join_room_outcome [OF assms(1), of code ?name "take 12 uuid" "''Qomicex''" "[]" ct ?k m]
    unfolding new append_Nil list.size by blast
  show ?thesis
  proof (cases r)
    case (Inl e)
    with join centers out show ?thesis
      by (simp add: cli_main_def run_guest_def finish_def close_all_def)
  next
    case (Inr n)
    with out obtain g where g: "n = 0" "k_managed_guests k1 = [0]" "k_guests k1 = [g]" by auto
    show ?thesis
    proof (cases "guest_in_room env [msg_joining_room @ code @ ''...''] g m1")
      case None
      with guest_in_room_result(1) [OF None] join Inr g show ?thesis by (simp add: cli_main_def run_guest_def)
    next
      case (Some result)
      then obtain r2 out2 g2 m2 where room: "guest_in_room env [msg_joining_room @ code @ ''...''] g m1 = Some (r2, out2, g2, m2)"
        by (cases result) auto
      obtain k3 m3 where close: "close_all (li_client env) (k1\<lparr>k_guests := [g2]\<rparr>) m2 = (k3, m3)" by fastforce
      obtain g3 where fin: "k_guests k3 = [g3]" "left_guest g3" "minecraft_address g3 = minecraft_address g2" "k_centers k3 = []"
          "k_managed_guests k3 = []" and told: "guest_told told g2 m3" "\<forall>call. told call m2 \<longrightarrow> told call m3"
        using finish_guest [OF _ _ _ close] assms(2) g centers by auto
      have "guest_told told g m3"
        using guest_in_room_result(3) [OF room assms(2)] told guest_told_same [of g2 g told m3] by (auto simp: guest_told_def)
      moreover have "visited env [msg_joining_room @ code @ ''...''] g m1 g3 out2" if "r2 = Inr ()"
        using guest_in_room_result(2) [OF room that] fin(3) by (simp add: visited_def)
      ultimately show ?thesis
        using join Inr g room close fin
        by (cases r2) (simp_all add: cli_main_def run_guest_def finish_def)
    qed
  qed
qed

text \<open>An environment for the concrete instances: Ctrl+C comes at once and nothing happens before.\<close>

definition sample_cli_env :: "(sample_net, string, string, string, string) cli_env" where
  "sample_cli_env =
     \<lparr> li_client = sample_client_env, li_parse_url = Inr,
       li_default_config =
         \<lparr> tc_network_name = [], tc_network_secret = [], tc_hostname = [], tc_ipv4 = None, tc_dhcp = None,
           tc_listeners = None, tc_no_tun = False, tc_use_smoltcp = False, tc_multi_thread = False,
           tc_latency_first = False, tc_enable_kcp_proxy = False, tc_compress_zstd = False,
           tc_tcp_whitelist = [], tc_udp_whitelist = [], tc_peers = [], tc_port_forwards = [] \<rparr>,
       li_ctrl_c = (\<lambda>m. Some (Inr (), m)), li_room_open = (\<lambda>c m. (c, m)), li_beats = (\<lambda>_. 2),
       li_locks = (\<lambda>_ _. True) \<rparr>"

text \<open>The same in the concrete town.\<close>

definition town_cli_env :: "(town, string, string, string, string \<rightharpoonup> string) cli_env" where
  "town_cli_env =
     \<lparr> li_client = town_client_env, li_parse_url = Inr, li_default_config = li_default_config sample_cli_env,
       li_ctrl_c = (\<lambda>m. Some (Inr (), m)), li_room_open = (\<lambda>c m. (c, m)), li_beats = (\<lambda>_. 0),
       li_locks = (\<lambda>_ _. True) \<rparr>"

lemma town_visit:
  assumes "in_town g m" and "\<not> g_use_port_forward g" and "g_config g \<noteq> None" and "g_center g = Some town_center"
    and "g_minecraft_host g = None"
  shows "\<exists>g' m'. guest_in_room town_cli_env before g m = Some (Inr (), before @ [msg_joined,
      msg_mc_address @ ''10.144.144.1'' @ '':'' @ show_nat 25565, msg_players @ show_nat 1 @ ''):'', ''  H'',
      msg_press_ctrl_c], g', m')"
proof -
  let ?g = "g\<lparr>g_minecraft_host := Some ''10.144.144.1'', g_minecraft_port := Some 25565\<rparr>"
  have "in_town ?g m" using assms(1) by (simp add: in_town_def link_ready_def)
  from town_list [OF this] obtain m1 where "get_player_list town_guest_env ?g m = (Inr [sample_player ''H'' ''h1'' Host], ?g, m1)"
    by blast
  then show ?thesis
    using town_maps [OF assms] by (simp add: guest_in_room_def town_cli_env_def sample_player_def split: prod.split)
qed

lemma cli_visit:
  assumes "join_room (li_client env) code (unwrap_or default_player_name name) (take 12 uuid) ''Qomicex'' [] ct
      (new_scaffolding_client (if relays = [] then None else Some relays) None None None) m = Some (Inr 0, k1, m1)"
    and "k_guests k1 = [g]" and "guest_in_room env [msg_joining_room @ code @ ''...''] g m1 = Some (Inr (), out, g2, m2)"
    and "close_all (li_client env) (k1\<lparr>k_guests := [g2]\<rparr>) m2 = (k, m')"
  shows "cli_main env relays (Cmd_guest code name) uuid ct m = Some (Returned (Inr ()), out, Some k, m')"
  using assms by (simp add: cli_main_def run_guest_def finish_def)

theorem guest_program_leaves_witness:
  "\<exists>(code :: room_code) k m' g. cli_main town_cli_env [] (Cmd_guest (raw code) None) ''0123456789abcdef'' 5 new_town =
      Some (Returned (Inr ()), [msg_joining_room @ raw code @ ''...'', msg_joined,
        msg_mc_address @ ''10.144.144.1:'' @ show_nat 25565, msg_players @ show_nat 1 @ ''):'', ''  H'', msg_press_ctrl_c],
        Some k, m')
    \<and> k_guests k = [g] \<and> left_guest g \<and> town_told (Cancelled 5) m'"
proof -
  obtain code draws where code: "parse town_engine (raw code) = Inr code" using town_generates by blast
  let ?k = "new_scaffolding_client None None None None"
  have new: "k_guests ?k = []" "k_managed_guests ?k = []" by (simp_all add: new_scaffolding_client_def)
  obtain g k1 m1 where join: "join_room town_client_env (raw code) default_player_name (take 12 ''0123456789abcdef'')
        ''Qomicex'' [] 5 ?k new_town = Some (Inr 0, k1, m1)"
    and g: "k_guests k1 = [g]" "in_town g m1" "g_heartbeat_ct g = Some 5" "\<not> g_use_port_forward g" "g_config g \<noteq> None"
      "g_center g = Some town_center" "g_minecraft_host g = None"
    using town_joins [OF town_open_more(1) code, of default_player_name "take 12 ''0123456789abcdef''" "''Qomicex''" 5 ?k] new
    by (auto simp del: take_Cons_numeral take_Suc_Cons)
  let ?out = "[msg_joining_room @ raw code @ ''...'', msg_joined, msg_mc_address @ ''10.144.144.1'' @ '':'' @ show_nat 25565,
      msg_players @ show_nat 1 @ ''):'', ''  H'', msg_press_ctrl_c]"
  obtain g2 m2 where room: "guest_in_room town_cli_env [msg_joining_room @ raw code @ ''...''] g m1 = Some (Inr (), ?out, g2, m2)"
    using town_visit [OF g(2,4-7), of "[msg_joining_room @ raw code @ ''...'']"] by auto
  obtain k m' where close: "close_all (li_client town_cli_env) (k1\<lparr>k_guests := [g2]\<rparr>) m2 = (k, m')" by fastforce
  have env: "li_client town_cli_env = town_client_env" by (simp add: town_cli_env_def)
  have main: "cli_main town_cli_env [] (Cmd_guest (raw code) None) ''0123456789abcdef'' 5 new_town
      = Some (Returned (Inr ()), ?out, Some k, m')"
    by (rule cli_visit [OF _ g(1) room close]) (simp only: env join unwrap_or_def option.case if_True simp_thms)
  have hyps: "clock_advances (env_lib (ke_guest (li_client town_cli_env)))" "calls_recorded (li_client town_cli_env) town_told"
    using town_records by (simp_all add: env)
  from guest_program_leaves [OF hyps, where relays = "[]" and code = "raw code" and name = None
      and uuid = "''0123456789abcdef''" and ct = 5 and m = new_town]
  obtain g3 where "k_guests k = [g3]" "left_guest g3" "guest_told town_told g m'"
    using main join g(1) by (auto simp: env)
  then show ?thesis using main g(3)
    by (intro exI [of _ code] exI [of _ k] exI [of _ m'] exI [of _ g3]) (simp add: guest_told_def)
qed

text \<open>The program that hosts a room, up to closing it.\<close>

lemma run_host_result:
  fixes env :: "('m, 'i, 'u, 'v, 'j) cli_env"
  defines "cenv \<equiv> li_client env"
  assumes "clock_advances (ce_lib (ke_center cenv))"
    and "generate (env_rx (ke_guest cenv)) (ke_rng cenv) (k_draws k) = Some (Inr code, draws)"
    and "\<forall>c m. \<exists>ls. run (center_step (ce_js (ke_center cenv))) c ls (fst (li_room_open env c m))"
    and "k_centers k = []" and "k_managed_centers k = []" and "k_guests k = []" and "k_managed_guests k = []"
  shows "case run_host env ct name mid port [] k m of
      None \<Rightarrow> \<exists>w. li_ctrl_c env w = None
    | Some (r, out, k', m') \<Rightarrow> \<exists>c. k_centers k' = [c] \<and> k_guests k' = [] \<and> k_managed_guests k' = []
      \<and> (k_managed_centers k' = [0] \<and> c_server_ct c = Some ct \<and> is_ok r = False
          \<and> out = [msg_creating_room, msg_room_code @ raw code, msg_press_ctrl_c]
       \<or> k_managed_centers k' = [0] \<and> closed_center c \<and> r = Inr ()
          \<and> out = [msg_creating_room, msg_room_code @ raw code, msg_press_ctrl_c]
       \<or> k_managed_centers k' = [] \<and> is_ok r = False \<and> out = [msg_creating_room])"
proof -
  obtain r k1 m1 c where room: "create_room cenv name mid ''Qomicex'' port ct [] None (li_locks env) k m = Some (r, k1, m1)"
    "k_guests k1 = []" "k_managed_guests k1 = []" "k_centers k1 = [c]" "c_room_code c = code"
    and managed: "case r of
         Inl e \<Rightarrow> k_managed_centers k1 = []
       | Inr n \<Rightarrow> n = 0 \<and> k_managed_centers k1 = [n] \<and> c_server_ct c = Some ct"
    using create_room_outcome [OF assms(2,3), of name mid "''Qomicex''" port ct "[]" None "li_locks env" m]
    unfolding assms(5-8) append_Nil list.size by blast
  show ?thesis
  proof (cases r)
    case (Inl e)
    with room managed show ?thesis by (simp add: run_host_def cenv_def)
  next
    case (Inr n)
    with managed have n: "n = 0" "k_managed_centers k1 = [0]" "c_server_ct c = Some ct" by simp_all
    let ?c = "c\<lparr>c_room := players_changed_rx (c_room c)\<rparr>"
    obtain c2 m2 where open_: "li_room_open env ?c m1 = (c2, m2)" by fastforce
    then obtain ls where "run (center_step (ce_js (ke_center cenv))) ?c ls c2"
      using assms(4) [rule_format, of ?c m1] by auto
    from center_run_keeps [OF this] n(3) have ct: "c_server_ct c2 = Some ct" by simp
    then have ok: "center_ok c2" by (simp add: center_ok_def)
    show ?thesis
    proof (cases "li_ctrl_c env m2")
      case None
      with room Inr n open_ show ?thesis by (auto simp: run_host_def cenv_def)
    next
      case (Some came)
      obtain signal m3 where sig: "li_ctrl_c env m2 = Some (signal, m3)" using Some by (cases came) simp
      obtain r4 c4 m4 where cl: "center_close (ke_center cenv) c2 m3 = (r4, c4, m4)" by (metis prod_cases3)
      with center_close_closes [OF cl ok] have "r4 = Inr ()" "closed_center c4" by simp_all
      with room Inr n open_ sig cl ct show ?thesis
        by (cases signal) (simp_all add: run_host_def cenv_def)
    qed
  qed
qed

lemma close_room_again:
  assumes "k_centers k = [c]" and "k_managed_centers k = [0]" and "k_managed_guests k = []"
    and "c_server_ct c \<noteq> None \<or> closed_center c"
  shows "\<exists>k' m' c'. close_all (li_client env) k m = (k', m') \<and> k_centers k' = [c'] \<and> closed_center c'
      \<and> k_managed_centers k' = [] \<and> k_managed_guests k' = [] \<and> k_guests k' = k_guests k"
proof -
  obtain r c' m' where cl: "center_close (ke_center (li_client env)) c m = (r, c', m')" by (metis prod_cases3)
  have "center_ok c" using assms(4) closed_center_ok by (auto simp: center_ok_def)
  with center_close_closes [OF cl] have "closed_center c'" by blast
  with cl show ?thesis using assms by (simp add: close_all_def)
qed

text \<open>
  C24: given a clock that advances, a random source that never runs out of valid codes, and that only
  the room's own tasks act on it while the program waits, the program that hosts a room on a valid
  port returns, unless the signal it waits for never comes.  Either the room could not be created,
  nothing but the first line was printed before the error, and the exit code is 1; or the code that was
  printed is a room code, and the room is closed: no server in its slot, no EasyTier instance, and the
  accept loop, if it still runs, is cancelled.
\<close>

theorem host_program_closes:
  fixes env :: "('m, 'i, 'u, 'v, 'j) cli_env"
  assumes "clock_advances (ce_lib (ke_center (li_client env)))"
    and "engine_reads_room_pattern (env_rx (ke_guest (li_client env)))" and "fills_eight (ke_rng (li_client env))"
    and "\<forall>n. \<exists>i \<ge> n. validate_checksum (encode8 (ke_rng (li_client env) i))"
    and "\<forall>c m. \<exists>ls. run (center_step (ce_js (ke_center (li_client env)))) c ls (fst (li_room_open env c m))"
    and "parse_uint 65535 mc_port = Some port"
  shows "case cli_main env relays (Cmd_host mc_port name) uuid ct m of
      None \<Rightarrow> \<exists>w. li_ctrl_c env w = None
    | Some (exit, out, client, m') \<Rightarrow>
        (\<exists>k c. client = Some k \<and> k_centers k = [c] \<and> k_managed_centers k = []
         \<and> ((\<exists>e. exit = Exited 1 \<and> out = [msg_creating_room, msg_error @ e])
          \<or> closed_center c
            \<and> (\<exists>code. parse (env_rx (ke_guest (li_client env))) (raw code) = Inr code
                 \<and> (exit = Returned (Inr ()) \<and> out = [msg_creating_room, msg_room_code @ raw code, msg_press_ctrl_c]
                  \<or> (\<exists>e. exit = Exited 1
                      \<and> out = [msg_creating_room, msg_room_code @ raw code, msg_press_ctrl_c, msg_error @ e])))))"
proof -
  let ?k = "new_scaffolding_client (if relays = [] then None else Some relays) None None None"
  let ?host = "run_host env ct (unwrap_or default_player_name name) (take 12 uuid) (word_of_nat port) [] ?k m"
  obtain code draws where gen: "generate (env_rx (ke_guest (li_client env))) (ke_rng (li_client env)) (k_draws ?k)
      = Some (Inr code, draws)" and code: "parse (env_rx (ke_guest (li_client env))) (raw code) = Inr code"
    using generate_outcome [OF assms(2-4)] by blast
  have new: "k_guests ?k = []" "k_centers ?k = []" "k_managed_guests ?k = []" "k_managed_centers ?k = []"
    by (simp_all add: new_scaffolding_client_def)
  note result = run_host_result [OF assms(1) gen assms(5) new(2,4,1,3), of ct "unwrap_or default_player_name name"
      "take 12 uuid" "word_of_nat port" m]
  have main: "cli_main env relays (Cmd_host mc_port name) uuid ct m = map_option (finish env) ?host"
    using assms(6) by (simp add: cli_main_def)
  show ?thesis
  proof (cases ?host)
    case None
    with result main show ?thesis by simp
  next
    case (Some hosted)
    then obtain r out k1 m1 where host: "?host = Some (r, out, k1, m1)" by (cases hosted) auto
    with result obtain c where store: "k_centers k1 = [c]" "k_managed_guests k1 = []"
      and cases: "k_managed_centers k1 = [0] \<and> c_server_ct c = Some ct \<and> is_ok r = False
          \<and> out = [msg_creating_room, msg_room_code @ raw code, msg_press_ctrl_c]
       \<or> k_managed_centers k1 = [0] \<and> closed_center c \<and> r = Inr ()
          \<and> out = [msg_creating_room, msg_room_code @ raw code, msg_press_ctrl_c]
       \<or> k_managed_centers k1 = [] \<and> is_ok r = False \<and> out = [msg_creating_room]" by auto
    show ?thesis
    proof (cases "k_managed_centers k1 = []")
      case True
      with cases obtain e where "r = Inl e" "out = [msg_creating_room]" by (cases r) auto
      with main host store True show ?thesis by (simp add: finish_def close_all_def)
    next
      case False
      with cases have "k_managed_centers k1 = [0]" "c_server_ct c \<noteq> None \<or> closed_center c"
        and out: "out = [msg_creating_room, msg_room_code @ raw code, msg_press_ctrl_c]" by auto
      from close_room_again [OF store(1) this(1) store(2) this(2), of env m1]
      obtain k' m' c' where "close_all (li_client env) k1 m1 = (k', m')" "k_centers k' = [c']" "closed_center c'"
        "k_managed_centers k' = []" by blast
      with main host code out show ?thesis by (cases r) (auto simp: finish_def)
    qed
  qed
qed

theorem host_program_closes_witness:
  "\<exists>exit out k m' c. cli_main town_cli_env [] (Cmd_host ''25565'' None) ''0123456789abcdef'' 5 new_town = Some (exit, out, Some k, m')
     \<and> k_centers k = [c] \<and> k_managed_centers k = []
     \<and> (out = [msg_creating_room, out ! 1] \<or> closed_center c \<and> take 1 out = [msg_creating_room])"
proof -
  let ?env = town_cli_env
  have env: "li_client ?env = town_client_env" "li_ctrl_c ?env = (\<lambda>m. Some (Inr (), m))" by (simp_all add: town_cli_env_def)
  have "fills_eight (ke_rng (li_client ?env))" by (simp add: env fills_eight_def)
  moreover have "\<forall>n. \<exists>i \<ge> n. validate_checksum (encode8 (ke_rng (li_client ?env) i))"
    using validate_checksum_zeros by (auto simp: env)
  moreover have "\<forall>c m. \<exists>ls. run (center_step (ce_js (ke_center (li_client ?env)))) c ls (fst (li_room_open ?env c m))"
    by (auto simp: town_cli_env_def intro: run_Nil)
  moreover have "parse_uint 65535 ''25565'' = Some 25565"
    by (simp add: parse_uint_def is_digit_def digits_value_def digit_value_def)
  ultimately have "case cli_main ?env [] (Cmd_host ''25565'' None) ''0123456789abcdef'' 5 new_town of
      None \<Rightarrow> \<exists>w. li_ctrl_c ?env w = None
    | Some (exit, out, client, m') \<Rightarrow>
        (\<exists>k c. client = Some k \<and> k_centers k = [c] \<and> k_managed_centers k = []
         \<and> ((\<exists>e. exit = Exited 1 \<and> out = [msg_creating_room, msg_error @ e])
          \<or> closed_center c
            \<and> (\<exists>code. parse (env_rx (ke_guest (li_client ?env))) (raw code) = Inr code
                 \<and> (exit = Returned (Inr ()) \<and> out = [msg_creating_room, msg_room_code @ raw code, msg_press_ctrl_c]
                  \<or> (\<exists>e. exit = Exited 1
                      \<and> out = [msg_creating_room, msg_room_code @ raw code, msg_press_ctrl_c, msg_error @ e])))))"
    by (intro host_program_closes) (simp_all add: env)
  then show ?thesis by (auto simp: env(2) split: option.splits)
qed

end
