(* ===== verification/Spec2Isabelle.thy ===== *)
theory Spec2Isabelle
  imports Frame_Codec Room_Code Negotiator Discovery Tcp_Server Cancellation Bind_Ip Easy_Tier Room_Session Room_Network
    Guest_Pool Center_Listing Client_Tasks Cli
begin

text \<open>
  A verification development for qomicex-connector, a Rust library that lets Minecraft players host
  and join rooms over an EasyTier network.  Paths are relative to
  \<open>crates/qomicex-connector/src\<close>.

  \<^bold>\<open>The program.\<close>  A host calls \<open>ScaffoldingClient::create_room\<close> (\<open>client.rs\<close>): a room code is
  generated (\<open>models/room_code.rs\<close>), the relay nodes are fetched (\<open>relay/\<close>), and a centre is
  started (\<open>center/scaffolding_center.rs\<close>): it serves the scaffolding protocols (\<open>protocols/mod.rs\<close>)
  in a TCP server (\<open>center/tcp_server.rs\<close>, \<open>center/client_conn.rs\<close>) and joins the network of the
  code (\<open>easytier/manager.rs\<close>) under a host name that advertises the port of the server.  A friend
  calls \<open>join_room\<close> with the code: a guest (\<open>guest/scaffolding_guest.rs\<close>) joins the same network,
  looks for that host name (\<open>core/center_discovery.rs\<close>), connects (\<open>guest/tcp_client.rs\<close>), agrees on
  the protocols (\<open>core/protocol_negotiator.rs\<close>), asks for the Minecraft port, forwards a local port
  to it and goes on sending heartbeats (\<open>core/heartbeat.rs\<close>).  Requests and responses travel in the
  frames of \<open>core/protocol_serializer.rs\<close>.

  \<^bold>\<open>Foundations.\<close>
  \<^item> \<open>Prelude\<close>, \<open>Rust_Text\<close>: machine integers as words, \<open>Result\<close> as a sum with the error on the left,
    big-endian bytes, positions in lists; a Rust string is the list of its UTF-8 bytes, with the
    operations of \<open>str\<close> and \<open>String\<close> the program uses, and \<open>from_utf8_lossy\<close>.
  \<^item> \<open>Systems\<close>: bounded attempts (\<open>for i in 0..n\<close>), reachable states of a step relation, and the three
    contracts \<open>invariant_system\<close>, \<open>refinement_system\<close> and \<open>matched_system\<close>, where every step is
    matched by the abstract steps its label allows; the stateful components interpret them.
  \<^item> \<open>External\<close>, \<open>Net_Addr\<close>, \<open>Watch\<close>: the interfaces of the crates \<open>regex\<close> and \<open>serde_json\<close>, the
    addresses of the standard library, the \<open>watch\<close> channel of \<open>tokio\<close>.
  \<^item> \<open>Regex_Syntax\<close>: a parser for the patterns made of literals and counted groups, and matching
    against what was parsed, so that the text of the pattern in the code is what decides.
  \<^item> \<open>Models\<close>, \<open>Scaffolding_Error\<close>, \<open>Messages\<close>: the records and enumerations of \<open>models/\<close>, the error
    type of \<open>error.rs\<close>, and the message literals of the program, byte for byte.

  \<^bold>\<open>Pure parts.\<close>
  \<^item> \<open>Frame_Codec\<close> (\<open>core/protocol_serializer.rs\<close>): both serialisers, the parsers on a buffer and on a
    stream.  Round trips of sequences of frames (locale \<open>wire_format\<close>, interpreted for requests and
    for responses), agreement of the two parsers, truncated frames, keys too long for the format.
  \<^item> \<open>Room_Code\<close> (\<open>models/room_code.rs\<close>): \<open>parse\<close>, \<open>generate\<close>, \<open>validate_checksum\<close>.  What is accepted,
    and that the generator returns and produces such a code.
  \<^item> \<open>Negotiator\<close> (\<open>core/protocol_negotiator.rs\<close>) and \<open>Discovery\<close> (\<open>core/center_discovery.rs\<close>): the
    intersection of the protocols; reading node lists and the polling loop.
  \<^item> \<open>Relay\<close> (\<open>relay/nodes.rs\<close>, \<open>relay/provider.rs\<close>): default nodes, parsing, the resolution of HTTP
    nodes, the fetch (locale \<open>node_source\<close>).  \<open>Bind_Ip\<close> (\<open>util.rs\<close>): the address to bind to.

  \<^bold>\<open>The centre.\<close>
  \<^item> \<open>Player_List\<close>: the list of players behind its lock, with the outcomes of \<open>try_read\<close> and
    \<open>try_write\<close> as arguments; it implements a map from machine ids to players (locale \<open>roster\<close>), alone
    and with concurrent calls, whose atomic parts \<open>call_step\<close> interleaves.
  \<^item> \<open>Protocols\<close>: the five handlers of \<open>protocols/mod.rs\<close> and the constructors of custom ones.
  \<^item> \<open>Client_Registry\<close>: the four maps of \<open>client_conn.rs\<close> and the tasks of \<open>tcp_server.rs\<close> as program
    counters: the accept loop, one task per connection (\<open>conn_step\<close>), the heartbeat sweep
    (\<open>sweep_step\<close>) and calls of \<open>disconnect_machine\<close> (\<open>kick_step\<close>).  \<open>server_step\<close> takes one atomic
    part of one of them, so what is proved of reachable states holds for every interleaving.
    \<open>Registry_Invariants\<close> has the invariant \<open>server_inv\<close>, \<open>Tcp_Server\<close> its consequences: nothing is
    left in the registry, one event per connection, cancelled connections end, exactly the stale
    clients are swept.
  \<^item> \<open>Cancellation\<close> (\<open>util.rs\<close>): the token as a flag and a notification; no wake-up is lost.
  \<^item> \<open>Center\<close>, \<open>Center_Session\<close> (\<open>center/scaffolding_center.rs\<close>): starting, the slot that holds the TCP
    server, its task, players, machines and peers, closing; the protocols that are served are those
    advertised, starting returns, and what the operations do while the server runs.
  \<^item> \<open>Center_Tasks\<close>, \<open>Center_Pool\<close>: the same operations lock by lock, with any number of callers and of
    tasks that serve.  A \<open>site\<close> is the fields of the centre behind their locks, the tasks spawned to
    serve with their tokens and servers, and the cancelled tokens.  \<open>Center_Tasks\<close> shows that each
    operation run alone is that of \<open>Center\<close>, and that the atomic \<open>start\<close> is one interleaving of \<open>start\<close>
    with its task; \<open>Center_Pool\<close> has what holds in every interleaving (locale \<open>site_relation\<close>), that
    closing is final, that \<open>start\<close> ignores its token, and that a failed second start leaves a server
    running that \<open>close\<close> does not reach.
  \<^item> \<open>Center_Listing\<close>: the list of players in every interleaving of \<open>Center_Pool\<close>, the start included,
    during which clients are served already.  After a successful start the owner is on the list as
    host for good; a client that pings with the owner's machine id before that adds a second entry.

  \<^bold>\<open>The guest and the library.\<close>
  \<^item> \<open>Easy_Tier\<close> (\<open>easytier/manager.rs\<close>): the translation of a configuration, \<open>start\<close> with its waiting
    loop, \<open>stop\<close>, node lists, peers, patches.
  \<^item> \<open>Tcp_Client\<close>, \<open>Heartbeat\<close>: one request at a time with its timeout; the loop of the heartbeat.
  \<^item> \<open>Guest\<close>, \<open>Guest_Session\<close> (\<open>guest/scaffolding_guest.rs\<close>): every operation; the calls on a guest
    are the labels of \<open>guest_step\<close>, which refines the life \<open>life_step\<close> of its mapped address.
  \<^item> \<open>Tasks\<close>, \<open>Guest_Tasks\<close>, \<open>Guest_Pool\<close>: the same operations lock by lock.  A program of \<open>Tasks\<close> is a
    sequence of atomic actions, a pool interleaves any number of them, and the locale \<open>cooperation\<close> is
    the rely-guarantee contract of a pool; \<open>task_relation\<close> has the rules by which a program is shown to
    keep to it.  \<open>Guest_Tasks\<close> writes joining, mapping the port, leaving and
    the heartbeat in this form and shows that each, run alone, is the operation of \<open>Guest\<close>;
    \<open>Guest_Pool\<close> proves what holds in every interleaving, how many actions a call takes at most, and
    two races.
  \<^item> \<open>Room_Session\<close>: a guest and the handlers of a centre over the wire.  The locale \<open>answered_guest\<close>
    is what a guest relies on; its interpretation is a connection that encodes, dispatches and
    decodes with the code's own functions, and \<open>link_net_is_conn_steps\<close> ties it to \<open>conn_step\<close>.
  \<^item> \<open>Town\<close>: one concrete world with a room in it, an EasyTier library, a clock and a link to the
    handlers of its centre; the witnesses of \<open>Client\<close> and \<open>Cli\<close> create, visit and close rooms there.
  \<^item> \<open>Room_Network\<close>: the tasks of \<open>server_step\<close>, any number of clients that send with the two halves of
    \<open>TcpClient::send\<close>, and the bytes between them in every interleaving, with writes that fail half-way
    and reads that come too late.  The network refines an atomic service (\<open>service_step\<close>) step by
    step: exactly the delivery of a request to its connection task is its taking effect, and only a
    change from outside the server is a disturbance.  So the server is linearizable, with every effect
    once and in order, and every client gets the answers to its own requests.
  \<^item> \<open>Client\<close> (\<open>client.rs\<close>): the cache of relay nodes, \<open>create_room\<close>, \<open>join_room\<close>, \<open>close_all\<close>; centres
    and guests are entries of a store, as the code shares them by \<open>Arc\<close>, and their owners go on using
    them: serving, closing, starting a new or closed centre, every call on a guest.  After \<open>close_all\<close> every managed centre
    is \<open>closed_center\<close> (its accept loop cancelled too) and every managed guest has left, and the calls
    that do this, the deletion of each EasyTier instance among them, were made.  \<open>Client_Tasks\<close> has the three
    calls lock by lock: run alone they are the atomic ones, what is managed is in the store in every
    interleaving, and \<open>close_all\<close> misses a room whose creation is under way.
  \<^item> \<open>Cli\<close> (\<open>qomicex-connector-cli/src/main.rs\<close>): the commands over these operations, the lines they
    print as a list, and how the process ends.  Waiting for Ctrl+C may never return; that is the only
    way in which the commands that host and join do not, and when they return they leave nothing
    behind.  The player list a visit prints is the one the centre answered with.
\<close>

text \<open>
  \<^bold>\<open>Bounds and loops.\<close>  The bounds of the code are kept: 60 rounds of discovery, the ports 1025 to
  65534 a centre tries, 10000 attempts for the lock of the player list (\<open>lock_retry_limit\<close>), two
  requests for a relay node behind an HTTP address.  There is no fuel: a bounded loop is \<open>attempts\<close>
  or recursion on its counter, and the two loops without a bound are \<open>partial_function (option)\<close>, so
  that not returning is \<open>None\<close>.  For \<open>draw_part\<close> (the rejection loop of the generator) termination is
  proved when a buffer whose code has a valid checksum comes again and again, and for \<open>wait_ready\<close>
  (the start of EasyTier) and what calls it when the clock advances by at least the time slept.

  \<^bold>\<open>Assumptions.\<close>  The crates are parameters: a theorem that relies on one names what it relies on.
  \<open>engine_reads_patterns\<close> states how a regex engine reads the patterns of \<open>Regex_Syntax\<close>, whatever their
  text, and \<open>engine_reads_room_pattern\<close>, which follows from it, and \<open>engine_reads_hostname_pattern\<close> how it
  reads the two patterns of the code; \<open>calls_recorded\<close> says that the world remembers the closing calls
  made on it; \<open>clock_advances\<close> is about the clock; \<open>json_carries_ping\<close> and \<open>json_carries_list\<close>
  state that \<open>serde_json\<close> reads what it printed; \<open>fills_eight\<close> that a buffer of eight bytes is filled.
  The network, the EasyTier library, the HTTP client and the interfaces of the machine act on a
  state of the world that the operations pass on.  Every witness instantiates them.

  \<^bold>\<open>Granularity.\<close>  In the TCP server, the token and the player list a step is one access to shared
  state; in \<open>Guest_Pool\<close>, \<open>Center_Pool\<close> and \<open>Client_Tasks\<close> one access to a field under its lock, or one
  call outside; what a statement does while it holds a lock is one action, joining the EasyTier network
  and closing a kept token among them.  \<open>Client_Tasks\<close> takes a call of a centre or a guest as one action.
  In \<open>Guest_Session\<close>, \<open>Room_Session\<close>, \<open>Client\<close> and \<open>Cli\<close> an operation is one step; the lemmas
  \<open>guest_tasks_alone\<close>, \<open>center_tasks_alone\<close> and \<open>client_tasks_alone\<close> say that an operation whose actions
  nobody interrupts is that step.  In \<open>Center\<close> the tasks of the server run between the operations:
  \<open>center_start\<close> is the start on which no client calls before it has returned, with the task of the
  server taking the server out of its slot in the 200 ms \<open>start\<close> sleeps for this; what clients do
  meanwhile is in \<open>Center_Pool\<close> and \<open>Center_Listing\<close>.  A handler of a request runs in one step of its
  connection task, and an accepted connection has an address no live connection has.  In \<open>Center_Pool\<close> the consumer of disconnection
  events may remove any player at any time, which includes what it does.

  \<^bold>\<open>Not modelled.\<close>  The parser of the command line (\<open>clap\<close>), the signal handler and the logger;
  module declarations; log lines; errors of \<open>accept\<close>; plain accessors of single fields.  What the
  operating system answers (interfaces, elevation, free ports) is a parameter.
\<close>

end
